theory Spec2Isabelle
  imports Main "HOL-Library.Sublist" "HOL-Library.Multiset"
begin

section \<open>Texts\<close>

text \<open>
  A JavaScript string is a sequence of UTF-16 code units. Texts are modelled as lists of
  code-unit values, so that concatenation, \<open>startsWith\<close>, \<open>indexOf\<close>, \<open>substring\<close>,
  \<open>trim\<close> and \<open>===\<close> are what the language computes; \<open>lit\<close> gives the code units of
  an ASCII literal of the source.
\<close>

type_synonym jsstring = "nat list"

definition lit :: "string \<Rightarrow> jsstring" where
  "lit s = map of_char s"

definition isWhiteSpace :: "nat \<Rightarrow> bool" where
  \<comment> \<open>The code units that \<open>String.prototype.trim\<close> removes: WhiteSpace and LineTerminator.\<close>
  "isWhiteSpace c \<longleftrightarrow>
     c = 9 \<or> c = 10 \<or> c = 11 \<or> c = 12 \<or> c = 13 \<or> c = 32 \<or> c = 160 \<or> c = 5760 \<or>
     (8192 \<le> c \<and> c \<le> 8202) \<or> c = 8232 \<or> c = 8233 \<or> c = 8239 \<or> c = 8287 \<or>
     c = 12288 \<or> c = 65279"

definition trim :: "jsstring \<Rightarrow> jsstring" where
  "trim s = rev (dropWhile isWhiteSpace (rev (dropWhile isWhiteSpace s)))"

definition indexOf :: "nat \<Rightarrow> jsstring \<Rightarrow> int" where
  \<comment> \<open>\<open>s.indexOf(c)\<close> for a one-unit pattern: the first position, or -1.\<close>
  "indexOf c s = (if c \<in> set s then int (length (takeWhile (\<lambda>x. x \<noteq> c) s)) else - 1)"

definition substring :: "int \<Rightarrow> jsstring \<Rightarrow> jsstring" where
  \<comment> \<open>\<open>s.substring(start)\<close>: a negative start counts as 0, one past the end gives the empty text.\<close>
  "substring start s = drop (nat start) s"

definition startsWith :: "jsstring \<Rightarrow> jsstring \<Rightarrow> bool" where
  \<comment> \<open>\<open>startsWith p s\<close> is \<open>s.startsWith(p)\<close>.\<close>
  "startsWith p s \<longleftrightarrow> prefix p s"

definition stripDataUrlPrefix :: "jsstring \<Rightarrow> jsstring" where
  \<comment> \<open>app.component.ts, lines 135-137; 44 is the comma.\<close>
  "stripDataUrlPrefix dataUrl = substring (indexOf 44 dataUrl + 1) dataUrl"


section \<open>Data model (models/chat.model.ts)\<close>

datatype ChatRole = User | Model

record MediaAttachment =
  dataUrl :: jsstring
  mimeType :: jsstring

record WebSource =
  web_uri :: jsstring
  web_title :: jsstring

record GroundingChunk =
  web :: "WebSource option"

text \<open>
  An optional property is an \<open>option\<close>: \<open>None\<close> is JavaScript's \<open>undefined\<close>. The fields
  of a message carry the prefix \<open>msg_\<close> (\<open>id\<close>, \<open>text\<close> and \<open>image\<close> are taken in HOL).
\<close>

record ChatMessage =
  msg_id :: int
  msg_role :: ChatRole
  msg_text :: jsstring
  msg_image :: "MediaAttachment option"
  msg_video :: "MediaAttachment option"
  msg_audio :: "MediaAttachment option"
  msg_groundingChunks :: "GroundingChunk list option"
  msg_isLoading :: "bool option"
  msg_isPlayingAudio :: "bool option"


section \<open>Component state (app.component.ts, lines 27-52)\<close>

datatype AppMode = ChatMode | ImageMode | VideoMode

datatype ChatModel = Gemini25Flash | Gemini3ProPreview

datatype ImageAspectRatio = R1x1 | R16x9 | R9x16 | R4x3 | R3x4

text \<open>
  What is kept under the storage key. \<open>JSON.stringify\<close> and \<open>JSON.parse\<close> belong to the
  platform: the entry is modelled by what \<open>JSON.parse\<close> and the following \<open>.map\<close> make of
  it. \<open>Saved\<close> is a JSON array of \<open>{role, text, groundingChunks}\<close> objects (an absent
  \<open>groundingChunks\<close> is left out by \<open>JSON.stringify\<close> and read back as \<open>undefined\<close>),
  \<open>Malformed\<close> is a text on which \<open>JSON.parse\<close> or \<open>.map\<close> throws, \<open>EmptyText\<close> is the
  empty string, which the test \<open>if (savedHistory)\<close> skips as it skips \<open>null\<close>.
\<close>

record SavedMessage =
  saved_role :: ChatRole
  saved_text :: jsstring
  saved_groundingChunks :: "GroundingChunk list option"

datatype stored = EmptyText | Malformed | Saved "SavedMessage list"

record state =
  currentMode :: AppMode
  chatHistory :: "ChatMessage list"
  isLoading :: bool
  isRecording :: bool
  micError :: "jsstring option"
  userInput :: jsstring
  uploadedFile :: "MediaAttachment option"
  chatModel :: ChatModel
  useWebSearch :: bool
  imageAspectRatio :: ImageAspectRatio
  fileInputValue :: "jsstring option"
    \<comment> \<open>the \<open>value\<close> of the file input element; \<open>None\<close> when the view has no such element\<close>
  localStorage :: "stored option"
    \<comment> \<open>the entry of the browser's local storage under \<open>storageKey\<close>\<close>


section \<open>Persistence (app.component.ts, lines 54-107)\<close>

definition saveChatHistory :: "bool \<Rightarrow> state \<Rightarrow> state" where
  \<comment> \<open>Lines 70-81. \<open>accepted\<close> tells whether \<open>localStorage.setItem\<close> takes the write; when
      it throws (quota), the \<open>catch\<close> logs and the entry stays as it was.\<close>
  "saveChatHistory accepted s =
     (let historyToSave =
            map (\<lambda>msg. \<lparr>saved_role = msg_role msg, saved_text = msg_text msg,
                        saved_groundingChunks = msg_groundingChunks msg\<rparr>) (chatHistory s)
      in if accepted then s\<lparr>localStorage := Some (Saved historyToSave)\<rparr> else s)"

definition withId :: "(nat \<Rightarrow> int) \<Rightarrow> nat \<times> SavedMessage \<Rightarrow> ChatMessage" where
  \<comment> \<open>The callback of lines 88-93; \<open>now index\<close> is what \<open>Date.now()\<close> returns in the call
      for position \<open>index\<close>.\<close>
  "withId now = (\<lambda>(index, msg).
     \<lparr>msg_id = now index + int index, msg_role = saved_role msg, msg_text = saved_text msg,
      msg_image = None, msg_video = None, msg_audio = None,
      msg_groundingChunks = saved_groundingChunks msg,
      msg_isLoading = Some False, msg_isPlayingAudio = Some False\<rparr>)"

definition loadChatHistory :: "(nat \<Rightarrow> int) \<Rightarrow> state \<Rightarrow> state" where
  \<comment> \<open>Lines 83-100.\<close>
  "loadChatHistory now s =
     (case localStorage s of
        None \<Rightarrow> s
      | Some EmptyText \<Rightarrow> s
      | Some Malformed \<Rightarrow> s\<lparr>localStorage := None\<rparr>
      | Some (Saved parsedHistory) \<Rightarrow>
          s\<lparr>chatHistory := map (withId now) (enumerate 0 parsedHistory)\<rparr>)"

definition initialState :: "jsstring option \<Rightarrow> stored option \<Rightarrow> state" where
  \<comment> \<open>The field initialisers of lines 33-48, in a page whose file input holds
      \<open>fileValue\<close> and whose storage entry is \<open>entry\<close>.\<close>
  "initialState fileValue entry =
     \<lparr>currentMode = ChatMode, chatHistory = [], isLoading = False, isRecording = False,
      micError = None, userInput = [], uploadedFile = None, chatModel = Gemini25Flash,
      useWebSearch = False, imageAspectRatio = R1x1, fileInputValue = fileValue,
      localStorage = entry\<rparr>"

definition constructor :: "jsstring option \<Rightarrow> stored option \<Rightarrow> (nat \<Rightarrow> int) \<Rightarrow> state" where
  \<comment> \<open>Lines 54-68: the constructor loads the history; its two effects run later.\<close>
  "constructor fileValue entry now = loadChatHistory now (initialState fileValue entry)"

definition startNewConversation :: "state \<Rightarrow> state" where
  \<comment> \<open>Lines 102-107.\<close>
  "startNewConversation s =
     s\<lparr>chatHistory := [], userInput := [], uploadedFile := None, localStorage := None\<rparr>"

definition removeUploadedFile :: "state \<Rightarrow> state" where
  \<comment> \<open>Lines 151-156.\<close>
  "removeUploadedFile s =
     s\<lparr>uploadedFile := None, fileInputValue := map_option (\<lambda>_. []) (fileInputValue s)\<rparr>"


section \<open>AI gateway (the GeminiService listing)\<close>

text \<open>
  The provider is outside the program: what it answers is an input of the model. A thrown
  value is a \<open>js_error\<close>; an awaited call that may reject is a sum, \<open>Inl\<close> the rejection.
\<close>

datatype js_error = JsError jsstring

record GroundingMetadata =
  groundingChunks :: "GroundingChunk list option"

record Candidate =
  groundingMetadata :: "GroundingMetadata option"

record ResponseChunk =
  chunk_text :: "jsstring option"
  candidates :: "Candidate list option"

text \<open>
  One streamed request: the chunks the provider delivers, and then either the end of the
  stream or a failure (of the call itself when no chunk was delivered).
\<close>

datatype ProviderStream = Completes "ResponseChunk list" | Fails "ResponseChunk list" js_error

record Fragment =
  frag_text :: "jsstring option"
  frag_groundingChunks :: "GroundingChunk list option"

record MediaPart =
  part_data :: jsstring
  part_mimeType :: jsstring

datatype Part = TextPart jsstring | InlineData MediaPart

text \<open>
  The five parameters of \<open>generateContentStream\<close> (lines 47-53 of the service), and what
  it asks the provider for. \<open>useThinking\<close> and \<open>useWebSearch\<close> are only tested for
  truth (lines 75-76), so they are modelled by their truth value. The system instruction,
  the same in every request, is left out.
\<close>

record ChatRequest =
  req_prompt :: jsstring
  req_model :: ChatModel
  req_thinking :: bool
  req_webSearch :: bool
  req_media :: "MediaPart list option"

record ProviderRequest =
  p_model :: ChatModel
  p_parts :: "Part list"
  p_thinkingBudget :: "nat option"
  p_googleSearch :: bool

definition requestParts :: "jsstring \<Rightarrow> MediaPart list option \<Rightarrow> Part list" where
  \<comment> \<open>Lines 55-66 of the service: every media part is put in front with \<open>unshift\<close>.\<close>
  "requestParts prompt media =
     (case media of
        None \<Rightarrow> [TextPart prompt]
      | Some ms \<Rightarrow> foldl (\<lambda>parts m. InlineData m # parts) [TextPart prompt] ms)"

definition chunkGroundingChunks :: "ResponseChunk \<Rightarrow> GroundingChunk list option" where
  \<comment> \<open>\<open>chunk.candidates?.[0]?.groundingMetadata?.groundingChunks\<close>\<close>
  "chunkGroundingChunks chunk =
     (case candidates chunk of
        None \<Rightarrow> None
      | Some [] \<Rightarrow> None
      | Some (c # _) \<Rightarrow>
          (case groundingMetadata c of None \<Rightarrow> None | Some g \<Rightarrow> groundingChunks g))"

definition toFragment :: "ResponseChunk \<Rightarrow> Fragment" where
  "toFragment chunk =
     \<lparr>frag_text = chunk_text chunk, frag_groundingChunks = chunkGroundingChunks chunk\<rparr>"

definition streamErrorText :: jsstring where
  "streamErrorText = lit ''An error occurred. Please check the console for details.''"

definition errorFragment :: Fragment where
  "errorFragment = \<lparr>frag_text = Some streamErrorText, frag_groundingChunks = None\<rparr>"

fun yielded :: "ProviderStream \<Rightarrow> Fragment list" where
  \<comment> \<open>Lines 68-90 of the service: the fragments the generator yields, in order; the
      \<open>catch\<close> yields the last one.\<close>
  "yielded (Completes chunks) = map toFragment chunks"
| "yielded (Fails chunks e) = map toFragment chunks @ [errorFragment]"

definition providerRequest :: "ChatRequest \<Rightarrow> ProviderRequest" where
  \<comment> \<open>Lines 55-66 and 70-78 of the service.\<close>
  "providerRequest r =
     \<lparr>p_model = req_model r,
      p_parts = requestParts (req_prompt r) (req_media r),
      p_thinkingBudget = (if req_thinking r then Some 32768 else None),
      p_googleSearch = req_webSearch r\<rparr>"

definition generateContentStream ::
  "(ProviderRequest \<Rightarrow> ProviderStream) \<Rightarrow> ChatRequest \<Rightarrow> Fragment list" where
  \<comment> \<open>Lines 47-90 of the service, with the provider that answers the request.\<close>
  "generateContentStream provider r = yielded (provider (providerRequest r))"

record Video =
  video_uri :: "jsstring option"

record GeneratedVideo =
  video :: "Video option"

record GenerateVideosResponse =
  generatedVideos :: "GeneratedVideo list option"

record GenerateVideosOperation =
  op_done :: bool
    \<comment> \<open>\<open>operation.done\<close>; an absent flag reads as false in \<open>!operation.done\<close>\<close>
  op_state :: "jsstring option"
    \<comment> \<open>\<open>operation.metadata?.state\<close>, as the text a template literal makes of it\<close>
  op_response :: "GenerateVideosResponse option"

definition resultUri :: "GenerateVideosOperation \<Rightarrow> jsstring option" where
  \<comment> \<open>\<open>operation.response?.generatedVideos?.[0]?.video?.uri\<close>\<close>
  "resultUri operation =
     (case op_response operation of
        None \<Rightarrow> None
      | Some r \<Rightarrow>
          (case generatedVideos r of
             None \<Rightarrow> None
           | Some [] \<Rightarrow> None
           | Some (g # _) \<Rightarrow> (case video g of None \<Rightarrow> None | Some v \<Rightarrow> video_uri v)))"

definition truthy :: "jsstring option \<Rightarrow> jsstring option" where
  \<comment> \<open>\<open>if (x)\<close> for a text that may be absent: \<open>undefined\<close> and the empty text are
      falsy (\<open>None\<close>), any other text is truthy.\<close>
  "truthy x = (case x of Some (c # cs) \<Rightarrow> Some (c # cs) | _ \<Rightarrow> None)"

text \<open>
  What the outside world answers in the course of one \<open>sendMessage\<close>: the two readings of
  the clock, the provider's streamed reply to a request, the result of \<open>generateImage\<close> for
  a prompt and an aspect ratio, of \<open>generateVideo\<close> for a prompt and an image, of the
  successive calls of \<open>getVideosOperation\<close>, of \<open>fetch\<close> for a location (line 665), and
  the configured key as a template literal prints it.
\<close>

record world =
  now_user :: int
  now_model :: int
  chat_reply :: "ProviderRequest \<Rightarrow> ProviderStream"
  image_reply :: "jsstring \<Rightarrow> ImageAspectRatio \<Rightarrow> js_error + jsstring"
  video_reply :: "jsstring \<Rightarrow> MediaPart option \<Rightarrow> js_error + GenerateVideosOperation"
  poll_replies :: "(js_error + GenerateVideosOperation) list"
  fetch_reply :: "jsstring \<Rightarrow> js_error + jsstring"
  api_key :: jsstring


section \<open>Sending a message (app.component.ts, lines 226-377)\<close>

text \<open>
  An \<open>async\<close> function is modelled by the states it goes through, one after each
  assignment to a signal, and by how it ends: it returns, it throws, or it is still
  waiting when the listed answers of the world are used up.
\<close>

datatype outcome = Returned | Threw js_error | Pending

definition final :: "state \<Rightarrow> state list \<times> outcome \<Rightarrow> state" where
  "final s run = last (s # fst run)"

definition updateById :: "int \<Rightarrow> (ChatMessage \<Rightarrow> ChatMessage) \<Rightarrow> state \<Rightarrow> state" where
  \<comment> \<open>\<open>this.chatHistory.update(history => history.map(m => m.id === i ? f(m) : m))\<close>\<close>
  "updateById i f s =
     s\<lparr>chatHistory := map (\<lambda>m. if msg_id m = i then f m else m) (chatHistory s)\<rparr>"

definition appendMessage :: "ChatMessage \<Rightarrow> state \<Rightarrow> state" where
  \<comment> \<open>\<open>this.chatHistory.update(history => [...history, m])\<close>\<close>
  "appendMessage m s = s\<lparr>chatHistory := chatHistory s @ [m]\<rparr>"

definition modelMessage :: "int \<Rightarrow> jsstring \<Rightarrow> ChatMessage" where
  \<comment> \<open>The placeholder \<open>{id, role: 'model', text, isLoading: true}\<close>.\<close>
  "modelMessage i t =
     \<lparr>msg_id = i, msg_role = Model, msg_text = t, msg_image = None, msg_video = None,
      msg_audio = None, msg_groundingChunks = None, msg_isLoading = Some True,
      msg_isPlayingAudio = None\<rparr>"

definition attachmentOfKind :: "jsstring \<Rightarrow> MediaAttachment option \<Rightarrow> MediaAttachment option" where
  \<comment> \<open>\<open>file?.mimeType.startsWith(p) ? file! : undefined\<close>\<close>
  "attachmentOfKind p file =
     (case file of None \<Rightarrow> None | Some a \<Rightarrow> if startsWith p (mimeType a) then Some a else None)"

definition newUserMessage :: "int \<Rightarrow> jsstring \<Rightarrow> MediaAttachment option \<Rightarrow> ChatMessage" where
  \<comment> \<open>Lines 234-241.\<close>
  "newUserMessage now userMessageText file =
     \<lparr>msg_id = now, msg_role = User, msg_text = userMessageText,
      msg_image = attachmentOfKind (lit ''image/'') file,
      msg_video = attachmentOfKind (lit ''video/'') file,
      msg_audio = attachmentOfKind (lit ''audio/'') file,
      msg_groundingChunks = None, msg_isLoading = None, msg_isPlayingAudio = None\<rparr>"

definition firstDefined :: "'a option \<Rightarrow> 'a option \<Rightarrow> 'a option" where
  \<comment> \<open>\<open>a || b\<close> on objects that may be absent.\<close>
  "firstDefined a b = (case a of Some x \<Rightarrow> Some x | None \<Rightarrow> b)"

definition mediaPart :: "MediaAttachment \<Rightarrow> MediaPart" where
  \<comment> \<open>\<open>{ data: this.stripDataUrlPrefix(media.dataUrl), mimeType: media.mimeType }\<close>\<close>
  "mediaPart media =
     \<lparr>part_data = stripDataUrlPrefix (dataUrl media), part_mimeType = mimeType media\<rparr>"

definition chatMediaParts :: "ChatMessage \<Rightarrow> MediaPart list option" where
  \<comment> \<open>Lines 272-276.\<close>
  "chatMediaParts userMessage =
     (case firstDefined (firstDefined (msg_image userMessage) (msg_video userMessage))
             (msg_audio userMessage) of
        Some media \<Rightarrow> Some [mediaPart media]
      | None \<Rightarrow> None)"

text \<open>
  The call of lines 278-283 hands the gateway four arguments, by position: the text, the
  model, \<open>this.useWebSearch()\<close> and \<open>mediaParts\<close>.
\<close>

record ChatArguments =
  arg_first :: jsstring
  arg_second :: ChatModel
  arg_third :: bool
  arg_fourth :: "MediaPart list option"

definition chatArguments :: "ChatMessage \<Rightarrow> state \<Rightarrow> ChatArguments" where
  \<comment> \<open>Lines 278-283.\<close>
  "chatArguments userMessage s =
     \<lparr>arg_first = msg_text userMessage, arg_second = chatModel s,
      arg_third = useWebSearch s, arg_fourth = chatMediaParts userMessage\<rparr>"

definition bindFour :: "ChatArguments \<Rightarrow> ChatRequest" where
  \<comment> \<open>Four arguments taken by the five parameters of \<open>generateContentStream\<close> (lines
      47-53 of the service): the third is \<open>useThinking\<close>, the fourth is \<open>useWebSearch\<close>,
      where a list of parts is truthy and \<open>undefined\<close> is not, and \<open>media\<close> is
      \<open>undefined\<close>.\<close>
  "bindFour call =
     \<lparr>req_prompt = arg_first call, req_model = arg_second call,
      req_thinking = arg_third call,
      req_webSearch = (arg_fourth call \<noteq> None),
      req_media = None\<rparr>"

definition chatRequest :: "ChatMessage \<Rightarrow> state \<Rightarrow> ChatRequest" where
  \<comment> \<open>What \<open>generateContentStream\<close> receives from the call of lines 278-283.\<close>
  "chatRequest userMessage s = bindFour (chatArguments userMessage s)"

definition textOrEmpty :: "Fragment \<Rightarrow> jsstring" where
  \<comment> \<open>\<open>chunk.text || ''\<close>\<close>
  "textOrEmpty chunk = (case frag_text chunk of Some t \<Rightarrow> t | None \<Rightarrow> [])"

definition chatChunk ::
  "int \<Rightarrow> jsstring \<times> GroundingChunk list \<Rightarrow> Fragment \<Rightarrow> state
     \<Rightarrow> (jsstring \<times> GroundingChunk list) \<times> state" where
  \<comment> \<open>The body of the loop of lines 287-293, on the local variables \<open>fullText\<close> and
      \<open>groundingChunks\<close>.\<close>
  "chatChunk modelResponseId acc chunk s =
     (let fullText = fst acc @ textOrEmpty chunk;
          groundingChunks =
            (case frag_groundingChunks chunk of Some cs \<Rightarrow> snd acc @ cs | None \<Rightarrow> snd acc)
      in ((fullText, groundingChunks),
          updateById modelResponseId
            (\<lambda>m. m\<lparr>msg_text := fullText, msg_groundingChunks := Some groundingChunks\<rparr>) s))"

fun chatLoop ::
  "int \<Rightarrow> jsstring \<times> GroundingChunk list \<Rightarrow> Fragment list \<Rightarrow> state \<Rightarrow> state list" where
  "chatLoop modelResponseId acc [] s = []"
| "chatLoop modelResponseId acc (chunk # stream) s =
     (let (acc', s') = chatChunk modelResponseId acc chunk s
      in s' # chatLoop modelResponseId acc' stream s')"

definition settle :: "int \<Rightarrow> state \<Rightarrow> state" where
  \<comment> \<open>Line 295: \<open>{ ...m, isLoading: false }\<close> on the messages with the id.\<close>
  "settle i s = updateById i (\<lambda>m. m\<lparr>msg_isLoading := Some False\<rparr>) s"

definition handleChat :: "ChatMessage \<Rightarrow> world \<Rightarrow> state \<Rightarrow> state list \<times> outcome" where
  \<comment> \<open>Lines 263-296.\<close>
  "handleChat userMessage w s =
     (let modelResponseId = now_model w + 1;
          s1 = appendMessage (modelMessage modelResponseId []) s;
          stream = generateContentStream (chat_reply w) (chatRequest userMessage s1);
          loop = chatLoop modelResponseId ([], []) stream s1
      in (s1 # loop @ [settle modelResponseId (last (s1 # loop))], Returned))"

definition imageStartText :: "ChatMessage \<Rightarrow> jsstring" where
  \<comment> \<open>The template literal of line 303; 34 is the double quote.\<close>
  "imageStartText userMessage =
     lit ''Generating an image for: '' @ [34] @ msg_text userMessage @ [34]"

definition imageFailureText :: jsstring where
  "imageFailureText = lit ''Sorry, I was unable to generate the image. Please try again.''"

definition imageDone :: "int \<Rightarrow> jsstring \<Rightarrow> state \<Rightarrow> state" where
  \<comment> \<open>Lines 309-317.\<close>
  "imageDone i imageBytes s =
     (let imageAttachment =
            \<lparr>dataUrl = lit ''data:image/png;base64,'' @ imageBytes, mimeType = lit ''image/png''\<rparr>
      in updateById i
           (\<lambda>m. m\<lparr>msg_text := [], msg_image := Some imageAttachment,
                   msg_isLoading := Some False\<rparr>) s)"

definition imageFailed :: "int \<Rightarrow> state \<Rightarrow> state" where
  \<comment> \<open>The \<open>catch\<close> of lines 318-325.\<close>
  "imageFailed i s =
     updateById i (\<lambda>m. m\<lparr>msg_text := imageFailureText, msg_isLoading := Some False\<rparr>) s"

definition handleImageGeneration :: "ChatMessage \<Rightarrow> world \<Rightarrow> state \<Rightarrow> state list \<times> outcome" where
  \<comment> \<open>Lines 298-326.\<close>
  "handleImageGeneration userMessage w s =
     (let modelResponseId = now_model w + 1;
          s1 = appendMessage (modelMessage modelResponseId (imageStartText userMessage)) s
      in case image_reply w (msg_text userMessage) (imageAspectRatio s1) of
           Inr imageBytes \<Rightarrow> ([s1, imageDone modelResponseId imageBytes s1], Returned)
         | Inl e \<Rightarrow> ([s1, imageFailed modelResponseId s1], Returned))"

definition videoStartText :: jsstring where
  \<comment> \<open>Line 333; the first two code units are the clapper-board emoji.\<close>
  "videoStartText =
     [55356, 57260] @ lit '' Starting video generation... This may take a few minutes.''"

definition videoProcessingText :: jsstring where
  \<comment> \<open>Line 348; the first two code units are the robot emoji.\<close>
  "videoProcessingText =
     [55358, 56598] @ lit '' Processing video request... The AI is thinking.''"

definition videoDownloadingText :: jsstring where
  \<comment> \<open>Line 357; the first code unit is the check-mark emoji.\<close>
  "videoDownloadingText = [9989] @ lit '' Video processed! Downloading...''"

definition videoFailureText :: jsstring where
  "videoFailureText =
     lit ''Sorry, I was unable to generate the video. Please try again or check the console.''"

fun pollLoop ::
  "GenerateVideosOperation \<Rightarrow> (js_error + GenerateVideosOperation) list
     \<Rightarrow> (js_error + GenerateVideosOperation) option" where
  \<comment> \<open>The loop of lines 350-353: \<open>None\<close> when the listed answers end before the job is
      done, \<open>Inl\<close> when a poll rejects.\<close>
  "pollLoop operation [] = (if op_done operation then Some (Inr operation) else None)"
| "pollLoop operation (r # rs) =
     (if op_done operation then Some (Inr operation)
      else case r of Inl e \<Rightarrow> Some (Inl e) | Inr operation' \<Rightarrow> pollLoop operation' rs)"

definition videoProcessing :: "int \<Rightarrow> state \<Rightarrow> state" where
  \<comment> \<open>Line 348.\<close>
  "videoProcessing i s = updateById i (\<lambda>m. m\<lparr>msg_text := videoProcessingText\<rparr>) s"

definition videoDownloading :: "int \<Rightarrow> state \<Rightarrow> state" where
  \<comment> \<open>Line 357.\<close>
  "videoDownloading i s = updateById i (\<lambda>m. m\<lparr>msg_text := videoDownloadingText\<rparr>) s"

definition videoFailed :: "int \<Rightarrow> state \<Rightarrow> state" where
  \<comment> \<open>The \<open>catch\<close> of lines 369-376.\<close>
  "videoFailed i s =
     updateById i (\<lambda>m. m\<lparr>msg_text := videoFailureText, msg_isLoading := Some False\<rparr>) s"

definition videoImage :: "ChatMessage \<Rightarrow> state \<Rightarrow> MediaPart option" where
  \<comment> \<open>Lines 338-344.\<close>
  "videoImage userMessage s =
     (case msg_image userMessage of
        Some a \<Rightarrow> Some (mediaPart a)
      | None \<Rightarrow> map_option mediaPart (attachmentOfKind (lit ''image/'') (uploadedFile s)))"

definition handleVideoGeneration :: "ChatMessage \<Rightarrow> world \<Rightarrow> state \<Rightarrow> state list \<times> outcome" where
  \<comment> \<open>Lines 328-377. \<open>GeminiService\<close> has the methods \<open>generateContentStream\<close>,
      \<open>generateImage\<close>, \<open>generateVideo\<close>, \<open>getVideosOperation\<close> and \<open>textToSpeech\<close>,
      and no \<open>fetchVideoAsDataUrl\<close>: the call of line 358 throws, lines 359-365 are not
      reached, and the \<open>catch\<close> of lines 369-376 runs on the state of line 357.\<close>
  "handleVideoGeneration userMessage w s =
     (let modelResponseId = now_model w + 1;
          s1 = appendMessage (modelMessage modelResponseId videoStartText) s
      in case video_reply w (msg_text userMessage) (videoImage userMessage s1) of
           Inl e \<Rightarrow> ([s1, videoFailed modelResponseId s1], Returned)
         | Inr operation0 \<Rightarrow>
             (let s2 = videoProcessing modelResponseId s1
              in case pollLoop operation0 (poll_replies w) of
                   None \<Rightarrow> ([s1, s2], Pending)
                 | Some (Inl e) \<Rightarrow> ([s1, s2, videoFailed modelResponseId s2], Returned)
                 | Some (Inr operation) \<Rightarrow>
                     (case truthy (resultUri operation) of
                        Some uri \<Rightarrow>
                          (let s3 = videoDownloading modelResponseId s2
                           in ([s1, s2, s3, videoFailed modelResponseId s3], Returned))
                      | None \<Rightarrow> ([s1, s2, videoFailed modelResponseId s2], Returned))))"

definition sendGuard :: "state \<Rightarrow> bool" where
  \<comment> \<open>The test of line 228 (and of line 555).\<close>
  "sendGuard s \<longleftrightarrow> (trim (userInput s) = [] \<and> uploadedFile s = None) \<or> isLoading s"

definition sendPrefix :: "int \<Rightarrow> state \<Rightarrow> ChatMessage \<times> state list" where
  \<comment> \<open>Lines 227 and 232-244: the user message and the three states on the way.\<close>
  "sendPrefix now s =
     (let userMessageText = trim (userInput s);
          s1 = s\<lparr>isLoading := True\<rparr>;
          userMessage = newUserMessage now userMessageText (uploadedFile s1);
          s2 = appendMessage userMessage s1;
          s3 = s2\<lparr>userInput := []\<rparr>
      in (userMessage, [s1, s2, s3]))"

definition sendTail :: "state \<Rightarrow> state list" where
  \<comment> \<open>Lines 259-260.\<close>
  "sendTail s = (let s4 = removeUploadedFile s in [s4, s4\<lparr>isLoading := False\<rparr>])"

definition dispatch :: "ChatMessage \<Rightarrow> world \<Rightarrow> state \<Rightarrow> state list \<times> outcome" where
  \<comment> \<open>The \<open>switch\<close> of lines 247-257.\<close>
  "dispatch userMessage w s =
     (case currentMode s of
        ChatMode \<Rightarrow> handleChat userMessage w s
      | ImageMode \<Rightarrow> handleImageGeneration userMessage w s
      | VideoMode \<Rightarrow> handleVideoGeneration userMessage w s)"

definition handled :: "world \<Rightarrow> state \<Rightarrow> state list \<times> outcome" where
  \<comment> \<open>The handler that \<open>sendMessage\<close> awaits at lines 247-257, run on the state of
      line 244.\<close>
  "handled w s =
     (let (userMessage, pre) = sendPrefix (now_user w) s in dispatch userMessage w (last pre))"

definition sendMessage :: "world \<Rightarrow> state \<Rightarrow> state list \<times> outcome" where
  \<comment> \<open>Lines 226-261. The handlers of this listing catch what they await, so their
      outcome is \<open>Returned\<close> or \<open>Pending\<close>.\<close>
  "sendMessage w s =
     (if sendGuard s then ([], Returned)
      else
        (let (userMessage, pre) = sendPrefix (now_user w) s;
             h = handled w s
         in case snd h of
              Returned \<Rightarrow> (pre @ fst h @ sendTail (final (last pre) h), Returned)
            | out \<Rightarrow> (pre @ fst h, out)))"


section \<open>The second listing of the component (app.component.ts, lines 379-685)\<close>

text \<open>
  The file holds a second listing of the component, without persistence and audio
  attachments, whose \<open>sendMessage\<close> creates the placeholder itself and catches what the
  handlers throw. Its functions carry the suffix \<open>2\<close>; they work on the same state and
  leave \<open>micError\<close> and \<open>localStorage\<close> alone.
\<close>

definition newUserMessage2 :: "int \<Rightarrow> jsstring \<Rightarrow> MediaAttachment option \<Rightarrow> ChatMessage" where
  \<comment> \<open>Lines 562-568.\<close>
  "newUserMessage2 now userMessageText file =
     \<lparr>msg_id = now, msg_role = User, msg_text = userMessageText,
      msg_image = attachmentOfKind (lit ''image/'') file,
      msg_video = attachmentOfKind (lit ''video/'') file,
      msg_audio = None,
      msg_groundingChunks = None, msg_isLoading = None, msg_isPlayingAudio = None\<rparr>"

definition chatMediaParts2 :: "ChatMessage \<Rightarrow> MediaPart list option" where
  \<comment> \<open>Lines 605 and 611.\<close>
  "chatMediaParts2 userMessage =
     (case firstDefined (msg_image userMessage) (msg_video userMessage) of
        Some media \<Rightarrow> Some [mediaPart media]
      | None \<Rightarrow> None)"

definition chatRequest2 :: "ChatMessage \<Rightarrow> state \<Rightarrow> ChatRequest" where
  \<comment> \<open>The arguments of the call of lines 606-612.\<close>
  "chatRequest2 userMessage s =
     \<lparr>req_prompt = msg_text userMessage, req_model = chatModel s,
      req_thinking = (chatModel s = Gemini3ProPreview),
      req_webSearch = useWebSearch s, req_media = chatMediaParts2 userMessage\<rparr>"

definition chatChunk2 :: "int \<Rightarrow> Fragment \<Rightarrow> state \<Rightarrow> state" where
  \<comment> \<open>The body of the loop of lines 614-627; a list of citations, even an empty one, is
      truthy in \<open>chunk.groundingChunks || msg.groundingChunks\<close>.\<close>
  "chatChunk2 modelMessageId chunk s =
     updateById modelMessageId
       (\<lambda>msg. msg\<lparr>msg_text := msg_text msg @ textOrEmpty chunk,
                   msg_groundingChunks :=
                     firstDefined (frag_groundingChunks chunk) (msg_groundingChunks msg)\<rparr>) s"

fun chatLoop2 :: "int \<Rightarrow> Fragment list \<Rightarrow> state \<Rightarrow> state list" where
  "chatLoop2 modelMessageId [] s = []"
| "chatLoop2 modelMessageId (chunk # stream) s =
     (let s' = chatChunk2 modelMessageId chunk s in s' # chatLoop2 modelMessageId stream s')"

definition handleChat2 :: "ChatMessage \<Rightarrow> int \<Rightarrow> world \<Rightarrow> state \<Rightarrow> state list \<times> outcome" where
  \<comment> \<open>Lines 604-630.\<close>
  "handleChat2 userMessage modelMessageId w s =
     (let stream = generateContentStream (chat_reply w) (chatRequest2 userMessage s);
          loop = chatLoop2 modelMessageId stream s
      in (loop @ [settle modelMessageId (last (s # loop))], Returned))"

definition imageDoneText2 :: "jsstring \<Rightarrow> jsstring" where
  \<comment> \<open>The template literal of line 640.\<close>
  "imageDoneText2 prompt = lit ''Here is the generated image for: '' @ [34] @ prompt @ [34]"

definition handleImageGeneration2 :: "jsstring \<Rightarrow> int \<Rightarrow> world \<Rightarrow> state \<Rightarrow> state list \<times> outcome" where
  \<comment> \<open>Lines 632-644.\<close>
  "handleImageGeneration2 prompt modelMessageId w s =
     (case image_reply w prompt (imageAspectRatio s) of
        Inl e \<Rightarrow> ([], Threw e)
      | Inr base64Image \<Rightarrow>
          (let image = \<lparr>dataUrl = lit ''data:image/png;base64,'' @ base64Image,
                        mimeType = lit ''image/png''\<rparr>
           in ([updateById modelMessageId
                  (\<lambda>msg. msg\<lparr>msg_text := imageDoneText2 prompt, msg_image := Some image,
                              msg_isLoading := Some False\<rparr>) s],
               Returned)))"

definition cameraText :: jsstring where
  \<comment> \<open>The four code units with which the literals of lines 654 and 659 begin.\<close>
  "cameraText = [240, 376, 8220, 185]"

definition videoStartText2 :: jsstring where
  \<comment> \<open>Line 654.\<close>
  "videoStartText2 =
     cameraText @ lit '' Video generation started... This might take a few minutes.''"

definition videoDoneText2 :: "ChatMessage \<Rightarrow> jsstring" where
  \<comment> \<open>The template literal of line 671.\<close>
  "videoDoneText2 userMessage =
     lit ''Here is the generated video for: '' @ [34] @ msg_text userMessage @ [34]"

definition videoFailureText2 :: jsstring where
  \<comment> \<open>Line 676.\<close>
  "videoFailureText2 = lit ''Sorry, video generation failed.''"

definition progressText :: "GenerateVideosOperation \<Rightarrow> jsstring" where
  \<comment> \<open>The template literal of line 659.\<close>
  "progressText operation =
     cameraText @ lit '' Video generation in progress... Status: '' @
     (case truthy (op_state operation) of Some st \<Rightarrow> st | None \<Rightarrow> lit ''processing'')"

fun pollLoop2 ::
  "int \<Rightarrow> GenerateVideosOperation \<Rightarrow> (js_error + GenerateVideosOperation) list \<Rightarrow> state
     \<Rightarrow> state list \<times> (js_error + GenerateVideosOperation) option" where
  \<comment> \<open>The loop of lines 656-660, which writes the status after every poll.\<close>
  "pollLoop2 modelMessageId operation [] s =
     ([], if op_done operation then Some (Inr operation) else None)"
| "pollLoop2 modelMessageId operation (r # rs) s =
     (if op_done operation then ([], Some (Inr operation))
      else case r of
             Inl e \<Rightarrow> ([], Some (Inl e))
           | Inr operation' \<Rightarrow>
               (let s' = updateById modelMessageId
                           (\<lambda>msg. msg\<lparr>msg_text := progressText operation'\<rparr>) s;
                    (trace, result) = pollLoop2 modelMessageId operation' rs s'
                in (s' # trace, result)))"

definition videoDone2 :: "int \<Rightarrow> ChatMessage \<Rightarrow> jsstring \<Rightarrow> state \<Rightarrow> state" where
  \<comment> \<open>Lines 669-674; the attachment is what \<open>fileToBase64\<close> makes of the fetched file,
      whose type is \<open>video/mp4\<close>.\<close>
  "videoDone2 i userMessage url s =
     updateById i
       (\<lambda>msg. msg\<lparr>msg_text := videoDoneText2 userMessage,
                   msg_video := Some \<lparr>dataUrl = url, mimeType = lit ''video/mp4''\<rparr>,
                   msg_isLoading := Some False\<rparr>) s"

definition videoFailed2 :: "int \<Rightarrow> state \<Rightarrow> state" where
  \<comment> \<open>Line 676.\<close>
  "videoFailed2 i s =
     updateById i (\<lambda>msg. msg\<lparr>msg_text := videoFailureText2, msg_isLoading := Some False\<rparr>) s"

definition handleVideoGeneration2 ::
  "ChatMessage \<Rightarrow> int \<Rightarrow> world \<Rightarrow> state \<Rightarrow> state list \<times> outcome" where
  \<comment> \<open>Lines 646-678.\<close>
  "handleVideoGeneration2 userMessage modelMessageId w s =
     (case video_reply w (msg_text userMessage) (map_option mediaPart (msg_image userMessage)) of
        Inl e \<Rightarrow> ([], Threw e)
      | Inr operation0 \<Rightarrow>
          (let s1 = updateById modelMessageId (\<lambda>msg. msg\<lparr>msg_text := videoStartText2\<rparr>) s;
               (loop, result) = pollLoop2 modelMessageId operation0 (poll_replies w) s1;
               s2 = last (s1 # loop)
           in case result of
                None \<Rightarrow> (s1 # loop, Pending)
              | Some (Inl e) \<Rightarrow> (s1 # loop, Threw e)
              | Some (Inr operation) \<Rightarrow>
                  (case truthy (resultUri operation) of
                     Some videoUri \<Rightarrow>
                       (let videoUrl = videoUri @ lit ''&key='' @ api_key w
                        in case fetch_reply w videoUrl of
                             Inl e \<Rightarrow> (s1 # loop, Threw e)
                           | Inr url \<Rightarrow>
                               (s1 # loop @ [videoDone2 modelMessageId userMessage url s2],
                                Returned))
                   | None \<Rightarrow> (s1 # loop @ [videoFailed2 modelMessageId s2], Returned))))"

definition genericFailureText :: jsstring where
  \<comment> \<open>Line 596.\<close>
  "genericFailureText = lit ''I'm sorry, I encountered an error. Please try again.''"

definition genericFailed :: "int \<Rightarrow> state \<Rightarrow> state" where
  \<comment> \<open>The \<open>catch\<close> of lines 592-598.\<close>
  "genericFailed i s =
     updateById i (\<lambda>msg. msg\<lparr>msg_text := genericFailureText, msg_isLoading := Some False\<rparr>) s"

definition dispatch2 :: "ChatMessage \<Rightarrow> int \<Rightarrow> world \<Rightarrow> state \<Rightarrow> state list \<times> outcome" where
  \<comment> \<open>The \<open>switch\<close> of lines 581-591.\<close>
  "dispatch2 userMessage modelMessageId w s =
     (case currentMode s of
        ChatMode \<Rightarrow> handleChat2 userMessage modelMessageId w s
      | ImageMode \<Rightarrow> handleImageGeneration2 (msg_text userMessage) modelMessageId w s
      | VideoMode \<Rightarrow> handleVideoGeneration2 userMessage modelMessageId w s)"

definition sendPrefix2 :: "int \<Rightarrow> int \<Rightarrow> state \<Rightarrow> ChatMessage \<times> state list" where
  \<comment> \<open>Lines 554 and 559-578: the user message and the five states on the way, the last
      one with the placeholder.\<close>
  "sendPrefix2 nowUser nowModel s =
     (let userMessageText = trim (userInput s);
          s1 = s\<lparr>isLoading := True\<rparr>;
          userMessage = newUserMessage2 nowUser userMessageText (uploadedFile s1);
          s2 = appendMessage userMessage s1;
          s3 = s2\<lparr>userInput := []\<rparr>;
          s4 = removeUploadedFile s3;
          modelMessageId = nowModel + 1;
          s5 = appendMessage (modelMessage modelMessageId []) s4
      in (userMessage, [s1, s2, s3, s4, s5]))"

definition handled2 :: "world \<Rightarrow> state \<Rightarrow> state list \<times> outcome" where
  \<comment> \<open>The handler that \<open>sendMessage\<close> awaits at lines 581-591, run on the state of
      line 578.\<close>
  "handled2 w s =
     (let (userMessage, pre) = sendPrefix2 (now_user w) (now_model w) s
      in dispatch2 userMessage (now_model w + 1) w (last pre))"

definition sendMessage2 :: "world \<Rightarrow> state \<Rightarrow> state list \<times> outcome" where
  \<comment> \<open>Lines 553-602.\<close>
  "sendMessage2 w s =
     (if sendGuard s then ([], Returned)
      else
        (let (userMessage, pre) = sendPrefix2 (now_user w) (now_model w) s;
             modelMessageId = now_model w + 1;
             h = handled2 w s;
             s6 = final (last pre) h
         in case snd h of
              Returned \<Rightarrow> (pre @ fst h @ [s6\<lparr>isLoading := False\<rparr>], Returned)
            | Threw e \<Rightarrow>
                (let s7 = genericFailed modelMessageId s6
                 in (pre @ fst h @ [s7, s7\<lparr>isLoading := False\<rparr>], Returned))
            | Pending \<Rightarrow> (pre @ fst h, Pending)))"


section \<open>Interleaving (first listing)\<close>

text \<open>
  The component runs on one thread; an \<open>async\<close> function gives way at every \<open>await\<close>,
  and anything may happen before it goes on: another click, the end of a recording, the
  next step of another function. A \<open>flow\<close> is an \<open>async\<close> function stopped at an
  \<open>await\<close>, with its local variables; an \<open>event\<close> is what runs next, in one piece: an
  operation of the user interface up to its first \<open>await\<close>, or a flow that goes on with
  the answer it waited for, up to its next \<open>await\<close>.
\<close>

datatype flow =
    ChatFlow int "jsstring \<times> GroundingChunk list"
      \<comment> \<open>\<open>handleChat\<close> in the loop of line 287, with \<open>modelResponseId\<close>, \<open>fullText\<close>
          and \<open>groundingChunks\<close>\<close>
  | ImageFlow int  \<comment> \<open>\<open>handleImageGeneration\<close> at line 308\<close>
  | VideoStartFlow int  \<comment> \<open>\<open>handleVideoGeneration\<close> at line 346\<close>
  | VideoPollFlow int  \<comment> \<open>at lines 351-352\<close>
  | TailFlow  \<comment> \<open>\<open>sendMessage\<close> at the \<open>await\<close> of lines 249-255, its handler done\<close>
  | MicFlow  \<comment> \<open>\<open>startRecording\<close> at line 162\<close>
  | EncodeFlow  \<comment> \<open>the \<open>onstop\<close> handler at line 170\<close>
  | TranscribeFlow jsstring  \<comment> \<open>the \<open>onstop\<close> handler in the loop of line 179, with \<open>fullResponse\<close>\<close>
  | AudioFlow int  \<comment> \<open>\<open>playAudio\<close> at line 211, or waiting for the end of the playback\<close>

datatype reply =
    NextFragment Fragment
  | StreamEnd
  | ImageReply "js_error + jsstring"
  | VideoReply "js_error + GenerateVideosOperation"
  | PollReply "js_error + GenerateVideosOperation"
  | Continue
  | MicReply "jsstring option"
      \<comment> \<open>\<open>None\<close>: the microphone was opened; \<open>Some name\<close>: a rejection with that \<open>error.name\<close>\<close>
  | Encoded
  | AudioOver  \<comment> \<open>the playback ended, or \<open>textToSpeech\<close> failed\<close>

datatype event =
    SendMessage int int  \<comment> \<open>\<open>sendMessage()\<close>, with the readings of the clock at lines 235 and 264/299/329\<close>
  | StartNewConversation
  | StartNewChat jsstring  \<comment> \<open>lines 110-111; the queued \<open>sendMessage\<close> is an event of its own\<close>
  | SetUserInput jsstring
  | SetMode AppMode
  | SetChatModel ChatModel
  | SetWebSearch bool
  | SetAspectRatio ImageAspectRatio
  | FileChosen jsstring  \<comment> \<open>the browser sets the value of the file input\<close>
  | FileSelected MediaAttachment  \<comment> \<open>line 143, the file read\<close>
  | RemoveUploadedFile
  | SaveEffect bool  \<comment> \<open>the effect of lines 65-67\<close>
  | StartRecording
  | StopRecording
  | PlayAudio ChatMessage
  | Resume nat reply  \<comment> \<open>the flow at this position goes on with this answer\<close>

record sys =
  app :: state
  flows :: "flow list"

definition micDeniedText :: jsstring where
  "micDeniedText =
     lit ''Microphone permission denied. Please allow access in your browser settings.''"

definition micUnavailableText :: jsstring where
  "micUnavailableText =
     lit ''Could not access the microphone. Please ensure it is connected and enabled.''"

definition handlerStart :: "ChatMessage \<Rightarrow> int \<Rightarrow> state \<Rightarrow> state \<times> flow" where
  \<comment> \<open>The handler chosen at lines 247-257, up to its first \<open>await\<close>.\<close>
  "handlerStart userMessage now s =
     (let modelResponseId = now + 1
      in case currentMode s of
           ChatMode \<Rightarrow>
             (appendMessage (modelMessage modelResponseId []) s, ChatFlow modelResponseId ([], []))
         | ImageMode \<Rightarrow>
             (appendMessage (modelMessage modelResponseId (imageStartText userMessage)) s,
              ImageFlow modelResponseId)
         | VideoMode \<Rightarrow>
             (appendMessage (modelMessage modelResponseId videoStartText) s,
              VideoStartFlow modelResponseId))"

definition afterPoll :: "int \<Rightarrow> GenerateVideosOperation \<Rightarrow> state \<Rightarrow> state \<times> flow option" where
  \<comment> \<open>Lines 350-376 with a job handle in hand: poll again, or go on to the end of the
      handler, through line 357 and the call of line 358, which throws, when there is a
      location, and through line 367 when there is none.\<close>
  "afterPoll i operation s =
     (if op_done operation then
        (case truthy (resultUri operation) of
           Some uri \<Rightarrow> (videoFailed i (videoDownloading i s), Some TailFlow)
         | None \<Rightarrow> (videoFailed i s, Some TailFlow))
      else (s, Some (VideoPollFlow i)))"

definition resume :: "flow \<Rightarrow> reply \<Rightarrow> state \<Rightarrow> state \<times> flow option" where
  \<comment> \<open>A flow goes on: the new state, and the flow it has become (\<open>None\<close>: it is over). An
      answer the flow does not wait for changes nothing.\<close>
  "resume f r s =
     (case f of
        ChatFlow i acc \<Rightarrow>
          (case r of
             NextFragment chunk \<Rightarrow>
               (let (acc', s') = chatChunk i acc chunk s in (s', Some (ChatFlow i acc')))
           | StreamEnd \<Rightarrow> (settle i s, Some TailFlow)
           | _ \<Rightarrow> (s, Some f))
      | ImageFlow i \<Rightarrow>
          (case r of
             ImageReply (Inr imageBytes) \<Rightarrow> (imageDone i imageBytes s, Some TailFlow)
           | ImageReply (Inl e) \<Rightarrow> (imageFailed i s, Some TailFlow)
           | _ \<Rightarrow> (s, Some f))
      | VideoStartFlow i \<Rightarrow>
          (case r of
             VideoReply (Inl e) \<Rightarrow> (videoFailed i s, Some TailFlow)
           | VideoReply (Inr operation) \<Rightarrow> afterPoll i operation (videoProcessing i s)
           | _ \<Rightarrow> (s, Some f))
      | VideoPollFlow i \<Rightarrow>
          (case r of
             PollReply (Inl e) \<Rightarrow> (videoFailed i s, Some TailFlow)
           | PollReply (Inr operation) \<Rightarrow> afterPoll i operation s
           | _ \<Rightarrow> (s, Some f))
      | TailFlow \<Rightarrow>
          (case r of Continue \<Rightarrow> (last (sendTail s), None) | _ \<Rightarrow> (s, Some f))
      | MicFlow \<Rightarrow>
          (case r of
             MicReply None \<Rightarrow> (s\<lparr>isRecording := True\<rparr>, None)
           | MicReply (Some name) \<Rightarrow>
               (s\<lparr>micError :=
                    Some (if name = lit ''NotAllowedError'' \<or> name = lit ''PermissionDeniedError''
                          then micDeniedText else micUnavailableText),
                  isRecording := False\<rparr>, None)
           | _ \<Rightarrow> (s, Some f))
      | EncodeFlow \<Rightarrow>
          (case r of Encoded \<Rightarrow> (s\<lparr>isLoading := True\<rparr>, Some (TranscribeFlow []))
                   | _ \<Rightarrow> (s, Some f))
      | TranscribeFlow fullResponse \<Rightarrow>
          (case r of
             NextFragment chunk \<Rightarrow> (s, Some (TranscribeFlow (fullResponse @ textOrEmpty chunk)))
           | StreamEnd \<Rightarrow> (s\<lparr>userInput := trim fullResponse, isLoading := False\<rparr>, None)
           | _ \<Rightarrow> (s, Some f))
      | AudioFlow i \<Rightarrow>
          (case r of
             AudioOver \<Rightarrow> (updateById i (\<lambda>m. m\<lparr>msg_isPlayingAudio := Some False\<rparr>) s, None)
           | _ \<Rightarrow> (s, Some f)))"

definition dropAt :: "nat \<Rightarrow> 'a list \<Rightarrow> 'a list" where
  "dropAt k xs = take k xs @ drop (Suc k) xs"

fun step :: "event \<Rightarrow> sys \<Rightarrow> sys" where
  "step (SendMessage nowUser nowModel) \<sigma> =
     (if sendGuard (app \<sigma>) then \<sigma>
      else
        (let (userMessage, pre) = sendPrefix nowUser (app \<sigma>);
             (s, f) = handlerStart userMessage nowModel (last pre)
         in \<lparr>app = s, flows = flows \<sigma> @ [f]\<rparr>))"
| "step StartNewConversation \<sigma> = \<sigma>\<lparr>app := startNewConversation (app \<sigma>)\<rparr>"
| "step (StartNewChat prompt) \<sigma> = \<sigma>\<lparr>app := (startNewConversation (app \<sigma>))\<lparr>userInput := prompt\<rparr>\<rparr>"
| "step (SetUserInput t) \<sigma> = \<sigma>\<lparr>app := (app \<sigma>)\<lparr>userInput := t\<rparr>\<rparr>"
| "step (SetMode m) \<sigma> = \<sigma>\<lparr>app := (app \<sigma>)\<lparr>currentMode := m\<rparr>\<rparr>"
| "step (SetChatModel m) \<sigma> = \<sigma>\<lparr>app := (app \<sigma>)\<lparr>chatModel := m\<rparr>\<rparr>"
| "step (SetWebSearch b) \<sigma> = \<sigma>\<lparr>app := (app \<sigma>)\<lparr>useWebSearch := b\<rparr>\<rparr>"
| "step (SetAspectRatio r) \<sigma> = \<sigma>\<lparr>app := (app \<sigma>)\<lparr>imageAspectRatio := r\<rparr>\<rparr>"
| "step (FileChosen v) \<sigma> =
     \<sigma>\<lparr>app := (app \<sigma>)\<lparr>fileInputValue := map_option (\<lambda>_. v) (fileInputValue (app \<sigma>))\<rparr>\<rparr>"
| "step (FileSelected a) \<sigma> = \<sigma>\<lparr>app := (app \<sigma>)\<lparr>uploadedFile := Some a\<rparr>\<rparr>"
| "step RemoveUploadedFile \<sigma> = \<sigma>\<lparr>app := removeUploadedFile (app \<sigma>)\<rparr>"
| "step (SaveEffect accepted) \<sigma> = \<sigma>\<lparr>app := saveChatHistory accepted (app \<sigma>)\<rparr>"
| "step StartRecording \<sigma> =
     (if isRecording (app \<sigma>) then \<sigma>
      else \<lparr>app = (app \<sigma>)\<lparr>micError := None\<rparr>, flows = flows \<sigma> @ [MicFlow]\<rparr>)"
| "step StopRecording \<sigma> =
     (if isRecording (app \<sigma>)
      then \<lparr>app = (app \<sigma>)\<lparr>isRecording := False\<rparr>, flows = flows \<sigma> @ [EncodeFlow]\<rparr>
      else \<sigma>)"
| "step (PlayAudio message) \<sigma> =
     (if msg_isPlayingAudio message = Some True then \<sigma>
      else \<lparr>app = updateById (msg_id message) (\<lambda>m. m\<lparr>msg_isPlayingAudio := Some True\<rparr>) (app \<sigma>),
            flows = flows \<sigma> @ [AudioFlow (msg_id message)]\<rparr>)"
| "step (Resume k r) \<sigma> =
     (if k < length (flows \<sigma>) then
        (case resume (flows \<sigma> ! k) r (app \<sigma>) of
           (s, Some f) \<Rightarrow> \<lparr>app = s, flows = (flows \<sigma>)[k := f]\<rparr>
         | (s, None) \<Rightarrow> \<lparr>app = s, flows = dropAt k (flows \<sigma>)\<rparr>)
      else \<sigma>)"

definition run :: "event list \<Rightarrow> sys \<Rightarrow> sys" where
  "run events \<sigma> = fold step events \<sigma>"

definition start :: "jsstring option \<Rightarrow> stored option \<Rightarrow> (nat \<Rightarrow> int) \<Rightarrow> sys" where
  \<comment> \<open>The component as its constructor leaves it.\<close>
  "start fileValue entry now = \<lparr>app = constructor fileValue entry now, flows = []\<rparr>"

definition loading :: "ChatMessage \<Rightarrow> bool" where
  "loading m \<longleftrightarrow> msg_isLoading m = Some True"

definition sendFlow :: "flow \<Rightarrow> bool" where
  \<comment> \<open>The flows of \<open>sendMessage\<close>: a request in flight.\<close>
  "sendFlow f =
     (case f of MicFlow \<Rightarrow> False | EncodeFlow \<Rightarrow> False | TranscribeFlow t \<Rightarrow> False
              | AudioFlow i \<Rightarrow> False | _ \<Rightarrow> True)"

definition clockAhead :: "event \<Rightarrow> sys \<Rightarrow> bool" where
  \<comment> \<open>A \<open>sendMessage\<close> that gets past its test reads a clock that is later than all the
      ids in the history, and that does not go back before the handler reads it.\<close>
  "clockAhead e \<sigma> =
     (case e of
        SendMessage nowUser nowModel \<Rightarrow>
          sendGuard (app \<sigma>) \<or>
          (list_all (\<lambda>m. msg_id m < nowUser) (chatHistory (app \<sigma>)) \<and> nowUser \<le> nowModel)
      | _ \<Rightarrow> True)"

fun timely :: "event list \<Rightarrow> sys \<Rightarrow> bool" where
  "timely [] \<sigma> = True"
| "timely (e # events) \<sigma> = (clockAhead e \<sigma> \<and> timely events (step e \<sigma>))"


section \<open>Vocabulary of the properties\<close>

definition citations :: "Fragment \<Rightarrow> GroundingChunk list" where
  \<comment> \<open>The citations a fragment supplies, none when the property is absent.\<close>
  "citations chunk = (case frag_groundingChunks chunk of Some cs \<Rightarrow> cs | None \<Rightarrow> [])"

definition chatStream :: "ChatMessage \<Rightarrow> world \<Rightarrow> state \<Rightarrow> Fragment list" where
  \<comment> \<open>The fragments that \<open>handleChat\<close> consumes.\<close>
  "chatStream userMessage w s = generateContentStream (chat_reply w) (chatRequest userMessage s)"

definition chatStream2 :: "ChatMessage \<Rightarrow> world \<Rightarrow> state \<Rightarrow> Fragment list" where
  \<comment> \<open>The fragments that \<open>handleChat\<close> of the second listing consumes.\<close>
  "chatStream2 userMessage w s = generateContentStream (chat_reply w) (chatRequest2 userMessage s)"

definition lastSupplied :: "Fragment list \<Rightarrow> GroundingChunk list option" where
  \<comment> \<open>The citations of the last fragment that has the property, if there is one.\<close>
  "lastSupplied stream =
     (case filter (\<lambda>chunk. frag_groundingChunks chunk \<noteq> None) stream of
        [] \<Rightarrow> None
      | c # cs \<Rightarrow> frag_groundingChunks (last (c # cs)))"


definition loadingIds :: "state \<Rightarrow> int list" where
  \<comment> \<open>The ids of the messages that are loading, in order.\<close>
  "loadingIds s = map msg_id (filter loading (chatHistory s))"

definition placeholderOf :: "flow \<Rightarrow> int list" where
  \<comment> \<open>The id of the placeholder that a flow has still to settle, if any.\<close>
  "placeholderOf f =
     (case f of
        ChatFlow i acc \<Rightarrow> [i]
      | ImageFlow i \<Rightarrow> [i]
      | VideoStartFlow i \<Rightarrow> [i]
      | VideoPollFlow i \<Rightarrow> [i]
      | _ \<Rightarrow> [])"

definition forward :: "ChatMessage \<Rightarrow> ChatMessage \<Rightarrow> bool" where
  \<comment> \<open>A message before and after an event: the same id, and loading after only if it
      was loading before.\<close>
  "forward m m' \<longleftrightarrow> msg_id m' = msg_id m \<and> (loading m' \<longrightarrow> loading m)"

definition noReload :: "ChatMessage list \<Rightarrow> ChatMessage list \<Rightarrow> bool" where
  \<comment> \<open>A history before and after an event: either the conversation was cleared, or every
      message is still in its place and has only moved forward.\<close>
  "noReload h h' \<longleftrightarrow> h' = [] \<or> list_all2 forward h (take (length h) h')"


section \<open>One request as a sequence of events\<close>

text \<open>
  The events through which one call of \<open>sendMessage\<close> goes when nothing else happens
  in between: the call itself, then the answers that its handler waits for, in the order
  in which the environment \<open>w\<close> gives them, then the return to \<open>sendMessage\<close>. \<open>k\<close> is
  the position of the flow.
\<close>

fun pollEvents ::
  "nat \<Rightarrow> GenerateVideosOperation \<Rightarrow> (js_error + GenerateVideosOperation) list \<Rightarrow> event list" where
  "pollEvents k operation [] = []"
| "pollEvents k operation (r # rs) =
     (if op_done operation then []
      else Resume k (PollReply r) #
           (case r of Inl e \<Rightarrow> [] | Inr operation' \<Rightarrow> pollEvents k operation' rs))"

definition handlerEvents :: "nat \<Rightarrow> ChatMessage \<Rightarrow> world \<Rightarrow> state \<Rightarrow> event list" where
  "handlerEvents k userMessage w s =
     (case currentMode s of
        ChatMode \<Rightarrow>
          map (\<lambda>chunk. Resume k (NextFragment chunk)) (chatStream userMessage w s) @
          [Resume k StreamEnd]
      | ImageMode \<Rightarrow>
          [Resume k (ImageReply (image_reply w (msg_text userMessage) (imageAspectRatio s)))]
      | VideoMode \<Rightarrow>
          (let started = video_reply w (msg_text userMessage) (videoImage userMessage s)
           in Resume k (VideoReply started) #
              (case started of
                 Inl e \<Rightarrow> []
               | Inr operation0 \<Rightarrow>
                   pollEvents k operation0 (poll_replies w))))"

definition sendEvents :: "nat \<Rightarrow> world \<Rightarrow> state \<Rightarrow> event list" where
  "sendEvents k w s =
     SendMessage (now_user w) (now_model w) #
     (if sendGuard s then []
      else handlerEvents k (fst (sendPrefix (now_user w) s)) w s @
           (if snd (handled w s) = Returned then [Resume k Continue] else []))"


section \<open>Sample inputs\<close>

definition sampleCitation :: GroundingChunk where
  "sampleCitation = \<lparr>web = Some \<lparr>web_uri = lit ''https://a.example'', web_title = lit ''A''\<rparr>\<rparr>"

definition otherCitation :: GroundingChunk where
  "otherCitation = \<lparr>web = Some \<lparr>web_uri = lit ''https://b.example'', web_title = lit ''B''\<rparr>\<rparr>"

definition sampleHistory :: "ChatMessage list" where
  "sampleHistory =
     [newUserMessage 5 (lit ''hi'') None,
      (modelMessage 6 (lit ''yo''))\<lparr>msg_groundingChunks := Some [sampleCitation]\<rparr>]"

definition typedState :: state where
  \<comment> \<open>A fresh component in which the user has typed a text.\<close>
  "typedState = (initialState None None)\<lparr>userInput := lit '' hi ''\<rparr>"

definition silentStream :: "ProviderRequest \<Rightarrow> ProviderStream" where
  "silentStream request = Completes []"

definition noImage :: "jsstring \<Rightarrow> ImageAspectRatio \<Rightarrow> js_error + jsstring" where
  "noImage prompt ratio = Inl (JsError (lit ''unavailable''))"

definition noVideo :: "jsstring \<Rightarrow> MediaPart option \<Rightarrow> js_error + GenerateVideosOperation" where
  "noVideo prompt picture = Inl (JsError (lit ''unavailable''))"

definition noFetch :: "jsstring \<Rightarrow> js_error + jsstring" where
  "noFetch location = Inl (JsError (lit ''unreachable''))"

definition quietWorld :: world where
  \<comment> \<open>A world in which the stream ends at once and every other call fails.\<close>
  "quietWorld =
     \<lparr>now_user = 1000, now_model = 1002, chat_reply = silentStream, image_reply = noImage,
      video_reply = noVideo, poll_replies = [], fetch_reply = noFetch, api_key = lit ''KEY''\<rparr>"



definition picture :: MediaAttachment where
  "picture = \<lparr>dataUrl = lit ''data:image/png;base64,AAAA'', mimeType = lit ''image/png''\<rparr>"




definition citingChunk :: "jsstring \<Rightarrow> GroundingChunk list \<Rightarrow> ResponseChunk" where
  \<comment> \<open>A chunk of the provider with a text and citations.\<close>
  "citingChunk t cs =
     \<lparr>chunk_text = Some t,
      candidates = Some [\<lparr>groundingMetadata = Some \<lparr>groundingChunks = Some cs\<rparr>\<rparr>]\<rparr>"

definition overlappingStream :: "ProviderRequest \<Rightarrow> ProviderStream" where
  \<comment> \<open>Two chunks, the second repeating the citation of the first.\<close>
  "overlappingStream request =
     Completes [citingChunk (lit ''a'') [sampleCitation],
                citingChunk (lit ''b'') [sampleCitation, otherCitation]]"

definition disjointStream :: "ProviderRequest \<Rightarrow> ProviderStream" where
  \<comment> \<open>Two chunks with one citation each.\<close>
  "disjointStream request =
     Completes [citingChunk (lit ''a'') [sampleCitation], citingChunk (lit ''b'') [otherCitation]]"

definition brokenStream :: "ProviderRequest \<Rightarrow> ProviderStream" where
  \<comment> \<open>One chunk, then the provider fails.\<close>
  "brokenStream request =
     Fails [\<lparr>chunk_text = Some (lit ''Hi''), candidates = None\<rparr>] (JsError (lit ''503''))"

definition deadStream :: "ProviderRequest \<Rightarrow> ProviderStream" where
  \<comment> \<open>The call of the provider fails.\<close>
  "deadStream request = Fails [] (JsError (lit ''503''))"


definition pendingJob :: GenerateVideosOperation where
  \<comment> \<open>A job handle that reports \<open>done = false\<close>.\<close>
  "pendingJob = \<lparr>op_done = False, op_state = None, op_response = None\<rparr>"

definition finishedJob :: "jsstring \<Rightarrow> GenerateVideosOperation" where
  \<comment> \<open>A job handle that reports \<open>done = true\<close> and a video at a location.\<close>
  "finishedJob location =
     \<lparr>op_done = True, op_state = None,
      op_response = Some \<lparr>generatedVideos = Some [\<lparr>video = Some \<lparr>video_uri = Some location\<rparr>\<rparr>]\<rparr>\<rparr>"

definition emptyJob :: GenerateVideosOperation where
  \<comment> \<open>A job handle that reports \<open>done = true\<close> and no video.\<close>
  "emptyJob = \<lparr>op_done = True, op_state = None, op_response = Some \<lparr>generatedVideos = None\<rparr>\<rparr>"

definition startsJob :: "jsstring \<Rightarrow> MediaPart option \<Rightarrow> js_error + GenerateVideosOperation" where
  "startsJob prompt still = Inr pendingJob"

definition videoLocation :: jsstring where
  "videoLocation = lit ''https://v.example/1?alt=media''"

definition fetchClip :: "jsstring \<Rightarrow> js_error + jsstring" where
  \<comment> \<open>The video is there, at the address with the key.\<close>
  "fetchClip location =
     (if location = videoLocation @ lit ''&key=KEY''
      then Inr (lit ''data:video/mp4;base64,BBBB'')
      else Inl (JsError (lit ''404'')))"

definition videoWorld :: "GenerateVideosOperation \<Rightarrow> world" where
  \<comment> \<open>A world in which the job is not done at first nor at the first two polls, and the
      third poll gives the handle \<open>last\<close>.\<close>
  "videoWorld lastHandle =
     quietWorld\<lparr>video_reply := startsJob,
                poll_replies := [Inr pendingJob, Inr pendingJob, Inr lastHandle],
                fetch_reply := fetchClip\<rparr>"


definition fixedClock :: "nat \<Rightarrow> int" where
  \<comment> \<open>A clock that reads 1000 throughout the loading of the history.\<close>
  "fixedClock index = 1000"

definition savedThree :: "SavedMessage list" where
  "savedThree =
     [\<lparr>saved_role = User, saved_text = lit ''one'', saved_groundingChunks = None\<rparr>,
      \<lparr>saved_role = Model, saved_text = lit ''two'', saved_groundingChunks = None\<rparr>,
      \<lparr>saved_role = User, saved_text = lit ''three'', saved_groundingChunks = None\<rparr>]"

definition sampleFragment :: Fragment where
  "sampleFragment = \<lparr>frag_text = Some (lit ''a''), frag_groundingChunks = Some [sampleCitation]\<rparr>"


section \<open>Properties of the persistence store\<close>

lemma withId_fields [simp]:
  "msg_isLoading (withId now x) = Some False"
  "msg_isPlayingAudio (withId now x) = Some False"
  "msg_text (withId now x) = saved_text (snd x)"
  "msg_role (withId now x) = saved_role (snd x)"
  "msg_groundingChunks (withId now x) = saved_groundingChunks (snd x)"
  "msg_id (withId now x) = now (fst x) + int (fst x)"
  by (cases x; simp add: withId_def)+

lemma map_after_enumerate: "map (\<lambda>x. f (snd x)) (enumerate n xs) = map f xs"
  by (induction xs arbitrary: n) simp_all

lemma chatHistory_reloaded:
  "chatHistory (constructor fileValue (localStorage (saveChatHistory True s)) now) =
   map (withId now) (enumerate 0
     (map (\<lambda>msg. \<lparr>saved_role = msg_role msg, saved_text = msg_text msg,
                  saved_groundingChunks = msg_groundingChunks msg\<rparr>) (chatHistory s)))"
  by (simp add: constructor_def saveChatHistory_def loadChatHistory_def initialState_def)


text \<open>
  Claim C9. After \<open>startNewConversation()\<close> the history is the empty list, the input
  text is empty, no upload is pending and the storage holds no entry under the
  conversation key. (The effect of lines 65-67 runs later and then writes the empty
  history back; the claim is about the state in which the function returns.)
\<close>

theorem startNewConversation_clears:
  "chatHistory (startNewConversation s) = [] \<and>
   userInput (startNewConversation s) = [] \<and>
   uploadedFile (startNewConversation s) = None \<and>
   localStorage (startNewConversation s) = None"
  by (simp add: startNewConversation_def)

theorem startNewConversation_clears_witness:
  "chatHistory (startNewConversation (typedState\<lparr>chatHistory := sampleHistory\<rparr>)) = [] \<and>
   userInput (startNewConversation (typedState\<lparr>chatHistory := sampleHistory\<rparr>)) = [] \<and>
   uploadedFile (startNewConversation (typedState\<lparr>chatHistory := sampleHistory\<rparr>)) = None \<and>
   localStorage (startNewConversation (typedState\<lparr>chatHistory := sampleHistory\<rparr>)) = None"
  by (rule startNewConversation_clears)

text \<open>
  Claim C4. Saving a conversation (the store taking the write) and loading it in a
  new component gives back the same texts, roles and citations in the same order; every
  loaded message has \<open>isLoading\<close> and \<open>isPlayingAudio\<close> false. Nothing is said of the ids.
\<close>

theorem save_load_roundtrip:
  "map (\<lambda>m. (msg_text m, msg_role m, msg_groundingChunks m))
     (chatHistory (constructor fileValue (localStorage (saveChatHistory True s)) now))
   = map (\<lambda>m. (msg_text m, msg_role m, msg_groundingChunks m)) (chatHistory s)
   \<and> list_all (\<lambda>m. msg_isLoading m = Some False \<and> msg_isPlayingAudio m = Some False)
       (chatHistory (constructor fileValue (localStorage (saveChatHistory True s)) now))"
proof -
  let ?saved = "map (\<lambda>msg. \<lparr>saved_role = msg_role msg, saved_text = msg_text msg,
                  saved_groundingChunks = msg_groundingChunks msg\<rparr>) (chatHistory s)"
  have "map (\<lambda>m. (msg_text m, msg_role m, msg_groundingChunks m))
          (map (withId now) (enumerate 0 ?saved))
        = map (\<lambda>x. (\<lambda>m. (saved_text m, saved_role m, saved_groundingChunks m)) (snd x))
            (enumerate 0 ?saved)"
    by (simp add: comp_def)
  also have "\<dots> = map (\<lambda>m. (saved_text m, saved_role m, saved_groundingChunks m)) ?saved"
    by (rule map_after_enumerate)
  also have "\<dots> = map (\<lambda>m. (msg_text m, msg_role m, msg_groundingChunks m)) (chatHistory s)"
    by (simp add: comp_def)
  finally show ?thesis
    by (simp add: chatHistory_reloaded list_all_iff)
qed

theorem save_load_roundtrip_witness:
  "map (\<lambda>m. (msg_text m, msg_role m, msg_groundingChunks m))
     (chatHistory (constructor None
        (localStorage (saveChatHistory True (typedState\<lparr>chatHistory := sampleHistory\<rparr>)))
        (\<lambda>index. 1000)))
   = [(lit ''hi'', User, None), (lit ''yo'', Model, Some [sampleCitation])]
   \<and> list_all (\<lambda>m. msg_isLoading m = Some False \<and> msg_isPlayingAudio m = Some False)
       (chatHistory (constructor None
          (localStorage (saveChatHistory True (typedState\<lparr>chatHistory := sampleHistory\<rparr>)))
          (\<lambda>index. 1000)))"
  using save_load_roundtrip [of None "typedState\<lparr>chatHistory := sampleHistory\<rparr>" "\<lambda>index. 1000"]
  by (simp add: sampleHistory_def newUserMessage_def modelMessage_def)


section \<open>Properties of sending\<close>

lemma chatHistory_appendMessage [simp]: "chatHistory (appendMessage m s) = chatHistory s @ [m]"
  by (simp add: appendMessage_def)

lemma chatHistory_updateById [simp]:
  "chatHistory (updateById i f s) = map (\<lambda>m. if msg_id m = i then f m else m) (chatHistory s)"
  by (simp add: updateById_def)

lemma isLoading_appendMessage [simp]: "isLoading (appendMessage m s) = isLoading s"
  by (simp add: appendMessage_def)

lemma isLoading_updateById [simp]: "isLoading (updateById i f s) = isLoading s"
  by (simp add: updateById_def)

lemma currentMode_appendMessage [simp]: "currentMode (appendMessage m s) = currentMode s"
  by (simp add: appendMessage_def)

lemma chatHistory_removeUploadedFile [simp]:
  "chatHistory (removeUploadedFile s) = chatHistory s"
  by (simp add: removeUploadedFile_def)

lemma chatHistory_steps [simp]:
  "chatHistory (settle i s) = map (\<lambda>m. if msg_id m = i then m\<lparr>msg_isLoading := Some False\<rparr> else m) (chatHistory s)"
  "chatHistory (imageFailed i s) = map (\<lambda>m. if msg_id m = i then m\<lparr>msg_text := imageFailureText, msg_isLoading := Some False\<rparr> else m) (chatHistory s)"
  "chatHistory (imageDone i b s) = map (\<lambda>m. if msg_id m = i then m\<lparr>msg_text := [], msg_image := Some \<lparr>dataUrl = lit ''data:image/png;base64,'' @ b, mimeType = lit ''image/png''\<rparr>, msg_isLoading := Some False\<rparr> else m) (chatHistory s)"
  "chatHistory (videoProcessing i s) = map (\<lambda>m. if msg_id m = i then m\<lparr>msg_text := videoProcessingText\<rparr> else m) (chatHistory s)"
  "chatHistory (videoDownloading i s) = map (\<lambda>m. if msg_id m = i then m\<lparr>msg_text := videoDownloadingText\<rparr> else m) (chatHistory s)"
  "chatHistory (videoFailed i s) = map (\<lambda>m. if msg_id m = i then m\<lparr>msg_text := videoFailureText, msg_isLoading := Some False\<rparr> else m) (chatHistory s)"
  by (simp_all add: settle_def imageFailed_def imageDone_def videoProcessing_def
      videoDownloading_def videoFailed_def)

lemma chatHistory_steps2 [simp]:
  "chatHistory (chatChunk2 i c s) = map (\<lambda>m. if msg_id m = i then m\<lparr>msg_text := msg_text m @ textOrEmpty c, msg_groundingChunks := firstDefined (frag_groundingChunks c) (msg_groundingChunks m)\<rparr> else m) (chatHistory s)"
  "chatHistory (videoDone2 i um u s) = map (\<lambda>m. if msg_id m = i then m\<lparr>msg_text := videoDoneText2 um, msg_video := Some \<lparr>dataUrl = u, mimeType = lit ''video/mp4''\<rparr>, msg_isLoading := Some False\<rparr> else m) (chatHistory s)"
  "chatHistory (videoFailed2 i s) = map (\<lambda>m. if msg_id m = i then m\<lparr>msg_text := videoFailureText2, msg_isLoading := Some False\<rparr> else m) (chatHistory s)"
  "chatHistory (genericFailed i s) = map (\<lambda>m. if msg_id m = i then m\<lparr>msg_text := genericFailureText, msg_isLoading := Some False\<rparr> else m) (chatHistory s)"
  by (simp_all add: chatChunk2_def videoDone2_def videoFailed2_def genericFailed_def)

lemma chatLoop_length:
  "list_all (\<lambda>t. length (chatHistory t) = length (chatHistory s)) (chatLoop i acc stream s)"
  by (induction stream arbitrary: acc s) (simp_all add: chatChunk_def Let_def list_all_iff)

lemma chatLoop2_length:
  "list_all (\<lambda>t. length (chatHistory t) = length (chatHistory s)) (chatLoop2 i stream s)"
  by (induction stream arbitrary: s) (simp_all add: Let_def list_all_iff)

lemma pollLoop2_length:
  "list_all (\<lambda>t. length (chatHistory t) = length (chatHistory s)) (fst (pollLoop2 i operation rs s))"
proof (induction rs arbitrary: operation s)
  case Nil
  show ?case by simp
next
  case (Cons r rs)
  show ?case
  proof (cases r)
    case (Inl e)
    then show ?thesis by simp
  next
    case (Inr operation')
    let ?s' = "updateById i (\<lambda>msg. msg\<lparr>msg_text := progressText operation'\<rparr>) s"
    have "list_all (\<lambda>t. length (chatHistory t) = length (chatHistory ?s'))
            (fst (pollLoop2 i operation' rs ?s'))"
      by (rule Cons.IH)
    with Inr show ?thesis
      by (simp add: Let_def case_prod_beta)
  qed
qed

lemma last_length:
  "list_all (\<lambda>t. length (chatHistory t) = n) ts \<Longrightarrow> length (chatHistory s) = n \<Longrightarrow>
   length (chatHistory (last (s # ts))) = n"
  by (induction ts arbitrary: s) (simp_all)

lemma handleChat_length:
  "list_all (\<lambda>t. length (chatHistory t) = Suc (length (chatHistory s))) (fst (handleChat um w s))"
  "fst (handleChat um w s) \<noteq> []"
proof -
  let ?i = "now_model w + 1"
  let ?s1 = "appendMessage (modelMessage ?i []) s"
  let ?loop = "chatLoop ?i ([], []) (generateContentStream (chat_reply w) (chatRequest um ?s1)) ?s1"
  have loop: "list_all (\<lambda>t. length (chatHistory t) = Suc (length (chatHistory s))) ?loop"
    using chatLoop_length [where s = ?s1 and i = ?i and acc = "([], [])"
        and stream = "generateContentStream (chat_reply w) (chatRequest um ?s1)"] by simp
  have "length (chatHistory (last (?s1 # ?loop))) = Suc (length (chatHistory s))"
    by (rule last_length [OF loop]) simp
  with loop show "list_all (\<lambda>t. length (chatHistory t) = Suc (length (chatHistory s))) (fst (handleChat um w s))"
    by (simp add: handleChat_def Let_def)
  show "fst (handleChat um w s) \<noteq> []" by (simp add: handleChat_def Let_def)
qed

lemma handleImageGeneration_length:
  "list_all (\<lambda>t. length (chatHistory t) = Suc (length (chatHistory s))) (fst (handleImageGeneration um w s))"
  "fst (handleImageGeneration um w s) \<noteq> []"
  by (simp_all add: handleImageGeneration_def Let_def split: sum.splits)

lemma handleVideoGeneration_length:
  "list_all (\<lambda>t. length (chatHistory t) = Suc (length (chatHistory s))) (fst (handleVideoGeneration um w s))"
  "fst (handleVideoGeneration um w s) \<noteq> []"
  by (simp_all add: handleVideoGeneration_def Let_def split: sum.splits option.splits)

lemma dispatch_length:
  "list_all (\<lambda>t. length (chatHistory t) = Suc (length (chatHistory s))) (fst (dispatch um w s))"
  "fst (dispatch um w s) \<noteq> []"
  by (simp_all add: dispatch_def handleChat_length handleImageGeneration_length
      handleVideoGeneration_length split: AppMode.splits)


lemma list_all_last: "ts \<noteq> [] \<Longrightarrow> list_all P ts \<Longrightarrow> P (last ts)"
  by (simp add: list_all_iff)

lemma handleChat2_length:
  "list_all (\<lambda>t. length (chatHistory t) = length (chatHistory s)) (fst (handleChat2 um i w s))"
proof -
  let ?loop = "chatLoop2 i (generateContentStream (chat_reply w) (chatRequest2 um s)) s"
  have loop: "list_all (\<lambda>t. length (chatHistory t) = length (chatHistory s)) ?loop"
    by (rule chatLoop2_length)
  have "length (chatHistory (last (s # ?loop))) = length (chatHistory s)"
    by (rule last_length [OF loop]) simp
  with loop show ?thesis by (simp add: handleChat2_def Let_def)
qed

lemma handleImageGeneration2_length:
  "list_all (\<lambda>t. length (chatHistory t) = length (chatHistory s))
     (fst (handleImageGeneration2 prompt i w s))"
  by (simp add: handleImageGeneration2_def Let_def split: sum.splits)

lemma handleVideoGeneration2_length:
  "list_all (\<lambda>t. length (chatHistory t) = length (chatHistory s))
     (fst (handleVideoGeneration2 um i w s))"
proof (cases "video_reply w (msg_text um) (map_option mediaPart (msg_image um))")
  case (Inl e)
  then show ?thesis by (simp add: handleVideoGeneration2_def)
next
  case (Inr operation0)
  let ?s1 = "updateById i (\<lambda>msg. msg\<lparr>msg_text := videoStartText2\<rparr>) s"
  let ?loop = "fst (pollLoop2 i operation0 (poll_replies w) ?s1)"
  have loop: "list_all (\<lambda>t. length (chatHistory t) = length (chatHistory s)) ?loop"
    using pollLoop2_length [where s = ?s1 and i = i and operation = operation0 and rs = "poll_replies w"] by simp
  have "length (chatHistory (last (?s1 # ?loop))) = length (chatHistory s)"
    by (rule last_length [OF loop]) simp
  with loop Inr show ?thesis
    by (simp add: handleVideoGeneration2_def Let_def case_prod_beta
        split: sum.splits option.splits if_splits)
qed

lemma dispatch2_length:
  "list_all (\<lambda>t. length (chatHistory t) = length (chatHistory s)) (fst (dispatch2 um i w s))"
  by (simp add: dispatch2_def handleChat2_length handleImageGeneration2_length
      handleVideoGeneration2_length split: AppMode.splits)

lemma sendMessage_length:
  assumes "\<not> sendGuard s"
  shows "length (chatHistory (final s (sendMessage w s))) = length (chatHistory s) + 2"
proof -
  obtain um pre where pre: "sendPrefix (now_user w) s = (um, pre)" by force
  let ?s3 = "last pre"
  let ?h = "dispatch um w ?s3"
  have len3: "length (chatHistory ?s3) = Suc (length (chatHistory s))" and "pre \<noteq> []"
    using pre by (auto simp: sendPrefix_def Let_def)
  have all: "list_all (\<lambda>t. length (chatHistory t) = Suc (Suc (length (chatHistory s)))) (fst ?h)"
    and ne: "fst ?h \<noteq> []"
    using dispatch_length [where s = ?s3 and um = um and w = w] len3 by simp_all
  have lasth: "length (chatHistory (last (fst ?h))) = Suc (Suc (length (chatHistory s)))"
    by (rule list_all_last [OF ne all])
  have h: "handled w s = ?h" using pre by (simp add: handled_def)
  show ?thesis
  proof (cases "snd ?h")
    case Returned
    with assms pre h ne lasth show ?thesis
      by (simp add: sendMessage_def final_def sendTail_def Let_def)
  next
    case (Threw e)
    with assms pre h ne lasth show ?thesis
      by (simp add: sendMessage_def final_def Let_def)
  next
    case Pending
    with assms pre h ne lasth show ?thesis
      by (simp add: sendMessage_def final_def Let_def)
  qed
qed

lemma sendMessage2_length:
  assumes "\<not> sendGuard s"
  shows "length (chatHistory (final s (sendMessage2 w s))) = length (chatHistory s) + 2"
proof -
  obtain um pre where pre: "sendPrefix2 (now_user w) (now_model w) s = (um, pre)" by force
  let ?s5 = "last pre"
  let ?h = "dispatch2 um (now_model w + 1) w ?s5"
  have len5: "length (chatHistory ?s5) = Suc (Suc (length (chatHistory s)))" and "pre \<noteq> []"
    using pre by (auto simp: sendPrefix2_def Let_def)
  have all: "list_all (\<lambda>t. length (chatHistory t) = Suc (Suc (length (chatHistory s)))) (fst ?h)"
    using dispatch2_length [where s = ?s5 and um = um and i = "now_model w + 1" and w = w] len5 by simp
  have lasth: "length (chatHistory (last (?s5 # fst ?h))) = Suc (Suc (length (chatHistory s)))"
    by (rule last_length [OF all len5])
  have h: "handled2 w s = ?h" using pre by (simp add: handled2_def)
  have fin: "final ?s5 ?h = last (?s5 # fst ?h)" by (simp add: final_def)
  show ?thesis
  proof (cases "snd ?h")
    case Returned
    with assms pre h lasth \<open>pre \<noteq> []\<close> show ?thesis
      by (simp add: sendMessage2_def final_def Let_def)
  next
    case (Threw e)
    with assms pre h lasth \<open>pre \<noteq> []\<close> show ?thesis
      by (simp add: sendMessage2_def final_def Let_def)
  next
    case Pending
    with assms pre h lasth \<open>pre \<noteq> []\<close> show ?thesis
      by (simp add: sendMessage2_def final_def Let_def last_append)
  qed
qed


text \<open>
  Claim C5. \<open>sendMessage\<close> changes nothing exactly when the trimmed input is empty and no
  upload is pending, or the loading flag is set: then it assigns no signal at all;
  otherwise the history it leaves is another one. This holds in both listings.
\<close>

theorem sendMessage_noop_iff:
  "(fst (sendMessage w s) = [] \<longleftrightarrow> (trim (userInput s) = [] \<and> uploadedFile s = None) \<or> isLoading s) \<and>
   (final s (sendMessage w s) = s \<longleftrightarrow> (trim (userInput s) = [] \<and> uploadedFile s = None) \<or> isLoading s) \<and>
   (chatHistory (final s (sendMessage w s)) = chatHistory s
      \<longleftrightarrow> (trim (userInput s) = [] \<and> uploadedFile s = None) \<or> isLoading s) \<and>
   (fst (sendMessage2 w s) = [] \<longleftrightarrow> (trim (userInput s) = [] \<and> uploadedFile s = None) \<or> isLoading s) \<and>
   (final s (sendMessage2 w s) = s \<longleftrightarrow> (trim (userInput s) = [] \<and> uploadedFile s = None) \<or> isLoading s) \<and>
   (chatHistory (final s (sendMessage2 w s)) = chatHistory s
      \<longleftrightarrow> (trim (userInput s) = [] \<and> uploadedFile s = None) \<or> isLoading s)"
proof (cases "sendGuard s")
  case True
  then have "sendMessage w s = ([], Returned)" "sendMessage2 w s = ([], Returned)"
    by (simp_all add: sendMessage_def sendMessage2_def)
  with True show ?thesis by (simp add: final_def sendGuard_def)
next
  case False
  have 1: "chatHistory (final s (sendMessage w s)) \<noteq> chatHistory s"
    using sendMessage_length [OF False, of w] by auto
  have 2: "chatHistory (final s (sendMessage2 w s)) \<noteq> chatHistory s"
    using sendMessage2_length [OF False, of w] by auto
  from 1 have 3: "final s (sendMessage w s) \<noteq> s" by auto
  from 2 have 4: "final s (sendMessage2 w s) \<noteq> s" by auto
  from 3 have 5: "fst (sendMessage w s) \<noteq> []" by (auto simp: final_def)
  from 4 have 6: "fst (sendMessage2 w s) \<noteq> []" by (auto simp: final_def)
  from False 1 2 3 4 5 6 show ?thesis by (simp add: sendGuard_def)
qed

theorem sendMessage_noop_iff_witness:
  "final typedState (sendMessage quietWorld typedState) \<noteq> typedState \<and>
   final typedState (sendMessage2 quietWorld typedState) \<noteq> typedState \<and>
   final (typedState\<lparr>isLoading := True\<rparr>) (sendMessage quietWorld (typedState\<lparr>isLoading := True\<rparr>))
     = typedState\<lparr>isLoading := True\<rparr> \<and>
   final (typedState\<lparr>userInput := lit ''  ''\<rparr>)
     (sendMessage2 quietWorld (typedState\<lparr>userInput := lit ''  ''\<rparr>))
     = typedState\<lparr>userInput := lit ''  ''\<rparr>"
  using sendMessage_noop_iff [of quietWorld typedState]
    sendMessage_noop_iff [of quietWorld "typedState\<lparr>isLoading := True\<rparr>"]
    sendMessage_noop_iff [of quietWorld "typedState\<lparr>userInput := lit ''  ''\<rparr>"]
  by (simp add: typedState_def initialState_def trim_def lit_def isWhiteSpace_def)




text \<open>
  What becomes of the four arguments: \<open>generateContentStream\<close> has five parameters and
  takes the arguments by position, so that in the first listing the provider is asked for
  the text alone, with the thinking budget when web search is chosen and with the search
  tool when the message has an attachment. The call of the second listing (lines 606-612)
  has five arguments, and its media part goes in front of the text.
\<close>

lemma providerRequest_chatRequest:
  "providerRequest (chatRequest userMessage s) =
     \<lparr>p_model = chatModel s,
      p_parts = [TextPart (msg_text userMessage)],
      p_thinkingBudget = (if useWebSearch s then Some 32768 else None),
      p_googleSearch =
        (msg_image userMessage \<noteq> None \<or> msg_video userMessage \<noteq> None \<or>
         msg_audio userMessage \<noteq> None)\<rparr>"
  by (auto simp: providerRequest_def chatRequest_def bindFour_def chatArguments_def
      requestParts_def chatMediaParts_def firstDefined_def split: option.splits)

lemma providerRequest_chatRequest2:
  "providerRequest (chatRequest2 userMessage s) =
     \<lparr>p_model = chatModel s,
      p_parts =
        (case firstDefined (msg_image userMessage) (msg_video userMessage) of
           Some media \<Rightarrow> [InlineData (mediaPart media), TextPart (msg_text userMessage)]
         | None \<Rightarrow> [TextPart (msg_text userMessage)]),
      p_thinkingBudget = (if chatModel s = Gemini3ProPreview then Some 32768 else None),
      p_googleSearch = useWebSearch s\<rparr>"
  by (auto simp: providerRequest_def chatRequest2_def requestParts_def chatMediaParts2_def
      split: option.splits)


section \<open>Properties of the chat handler\<close>

lemma chatRequest_appendMessage [simp]:
  "chatRequest um (appendMessage m s) = chatRequest um s"
  by (simp add: chatRequest_def chatArguments_def appendMessage_def)

lemma chatLoop_history:
  "chatHistory (last (s # chatLoop i acc (c # cs) s)) =
   map (\<lambda>m. if msg_id m = i
            then m\<lparr>msg_text := fst acc @ concat (map textOrEmpty (c # cs)),
                   msg_groundingChunks := Some (snd acc @ concat (map citations (c # cs)))\<rparr>
            else m) (chatHistory s)"
proof (induction cs arbitrary: c acc s)
  case Nil
  show ?case by (simp add: chatChunk_def Let_def citations_def split: option.splits)
next
  case (Cons c' cs)
  obtain acc' s' where step: "chatChunk i acc c s = (acc', s')" by (rule prod.exhaust)
  then have acc': "acc' = (fst acc @ textOrEmpty c, snd acc @ citations c)"
    and s': "chatHistory s' =
      map (\<lambda>m. if msg_id m = i
               then m\<lparr>msg_text := fst acc @ textOrEmpty c,
                      msg_groundingChunks := Some (snd acc @ citations c)\<rparr>
               else m) (chatHistory s)"
    by (auto simp: chatChunk_def Let_def citations_def split: option.splits)
  have "chatHistory (last (s # chatLoop i acc (c # c' # cs) s)) =
        chatHistory (last (s' # chatLoop i acc' (c' # cs) s'))"
    using step by (simp add: Let_def)
  also have "\<dots> = map (\<lambda>m. if msg_id m = i
            then m\<lparr>msg_text := fst acc' @ concat (map textOrEmpty (c' # cs)),
                   msg_groundingChunks := Some (snd acc' @ concat (map citations (c' # cs)))\<rparr>
            else m) (chatHistory s')"
    by (rule Cons.IH)
  finally show ?case by (simp add: acc' s' comp_def)
qed

lemma chatLoop_flags:
  "list_all (\<lambda>t. map msg_isLoading (chatHistory t) = map msg_isLoading (chatHistory s) \<and>
                  map msg_id (chatHistory t) = map msg_id (chatHistory s))
     (chatLoop i acc stream s)"
proof (induction stream arbitrary: acc s)
  case Nil
  show ?case by simp
next
  case (Cons c cs)
  obtain acc' s' where step: "chatChunk i acc c s = (acc', s')" by (rule prod.exhaust)
  then have s': "map msg_isLoading (chatHistory s') = map msg_isLoading (chatHistory s)"
      "map msg_id (chatHistory s') = map msg_id (chatHistory s)"
    by (auto simp: chatChunk_def Let_def)
  from Cons.IH [where acc = acc' and s = s'] step s' show ?case by (simp add: Let_def)
qed

lemma handleChat_history:
  "chatHistory (final s (handleChat um w s)) =
   map (\<lambda>m. if msg_id m = now_model w + 1
            then m\<lparr>msg_text := (if chatStream um w s = [] then msg_text m
                                 else concat (map textOrEmpty (chatStream um w s))),
                   msg_groundingChunks := (if chatStream um w s = [] then msg_groundingChunks m
                                 else Some (concat (map citations (chatStream um w s)))),
                   msg_isLoading := Some False\<rparr>
            else m) (chatHistory s @ [modelMessage (now_model w + 1) []])"
proof (cases "chatStream um w s")
  case Nil
  then show ?thesis
    by (simp add: handleChat_def final_def Let_def chatStream_def)
next
  case (Cons c cs)
  let ?s1 = "appendMessage (modelMessage (now_model w + 1) []) s"
  have "chatHistory (final s (handleChat um w s)) =
        map (\<lambda>m. if msg_id m = now_model w + 1 then m\<lparr>msg_isLoading := Some False\<rparr> else m)
          (chatHistory (last (?s1 # chatLoop (now_model w + 1) ([], []) (c # cs) ?s1)))"
    using Cons by (simp add: handleChat_def final_def Let_def chatStream_def del: chatLoop.simps)
  also note chatLoop_history
  finally show ?thesis using Cons by (simp add: comp_def)
qed


lemma chatRequest2_appendMessage [simp]:
  "chatRequest2 um (appendMessage m s) = chatRequest2 um s"
  by (simp add: chatRequest2_def appendMessage_def)

lemma lastSupplied_Nil [simp]: "lastSupplied [] = None"
  by (simp add: lastSupplied_def)

lemma lastSupplied_Cons:
  "lastSupplied (c # cs) = firstDefined (lastSupplied cs) (frag_groundingChunks c)"
proof (cases "filter (\<lambda>chunk. frag_groundingChunks chunk \<noteq> None) cs")
  case Nil
  then show ?thesis by (simp add: lastSupplied_def firstDefined_def)
next
  case (Cons d ds)
  have "last (d # ds) \<in> set (filter (\<lambda>chunk. frag_groundingChunks chunk \<noteq> None) cs)"
    unfolding Cons [symmetric] using Cons by (metis last_in_set list.distinct(1))
  then have "frag_groundingChunks (last (d # ds)) \<noteq> None" by simp
  with Cons show ?thesis by (auto simp: lastSupplied_def firstDefined_def)
qed

lemma chatLoop2_history:
  "chatHistory (last (s # chatLoop2 i stream s)) =
   map (\<lambda>m. if msg_id m = i
            then m\<lparr>msg_text := msg_text m @ concat (map textOrEmpty stream),
                   msg_groundingChunks := firstDefined (lastSupplied stream) (msg_groundingChunks m)\<rparr>
            else m) (chatHistory s)"
proof (induction stream arbitrary: s)
  case Nil
  show ?case by (simp add: firstDefined_def map_idI)
next
  case (Cons c cs)
  let ?s' = "chatChunk2 i c s"
  have "chatHistory (last (s # chatLoop2 i (c # cs) s)) = chatHistory (last (?s' # chatLoop2 i cs ?s'))"
    by (simp add: Let_def)
  also note Cons.IH
  finally show ?case
    by (auto simp: comp_def lastSupplied_Cons firstDefined_def split: option.splits)
qed

lemma handleChat2_history:
  "chatHistory (final s (handleChat2 um i w s)) =
   map (\<lambda>m. if msg_id m = i
            then m\<lparr>msg_text := msg_text m @ concat (map textOrEmpty (chatStream2 um w s)),
                   msg_groundingChunks :=
                     firstDefined (lastSupplied (chatStream2 um w s)) (msg_groundingChunks m),
                   msg_isLoading := Some False\<rparr>
            else m) (chatHistory s)"
proof -
  have "chatHistory (final s (handleChat2 um i w s)) =
        map (\<lambda>m. if msg_id m = i then m\<lparr>msg_isLoading := Some False\<rparr> else m)
          (chatHistory (last (s # chatLoop2 i (chatStream2 um w s) s)))"
    by (simp add: handleChat2_def final_def Let_def chatStream2_def)
  also note chatLoop2_history
  finally show ?thesis by (simp add: comp_def)
qed

lemma count_list_concat:
  "count_list (concat xss) x = sum_list (map (\<lambda>xs. count_list xs x) xss)"
  by (induction xss) simp_all

text \<open>
  Claim C1, amended. For every finite sequence of fragments that the chat handler
  consumes, the final text of the placeholder is the concatenation, in order, of the
  fragments' texts (an absent text counting as empty), in both listings. In the first
  listing the placeholder's citations are the concatenation, in order, of the citation
  lists of the fragments (no list at all when there was no fragment): every citation is
  there as many times as fragments supplied it. In the second listing they are the list
  of the last fragment that supplied one.
\<close>

theorem streamed_text_and_citations:
  "msg_text (last (chatHistory (final s (handleChat um w s))))
     = concat (map textOrEmpty (chatStream um w s)) \<and>
   msg_groundingChunks (last (chatHistory (final s (handleChat um w s))))
     = (if chatStream um w s = [] then None
        else Some (concat (map citations (chatStream um w s)))) \<and>
   count_list (concat (map citations (chatStream um w s))) g
     = sum_list (map (\<lambda>chunk. count_list (citations chunk) g) (chatStream um w s)) \<and>
   msg_text (last (chatHistory (final (appendMessage (modelMessage i []) s)
        (handleChat2 um i w (appendMessage (modelMessage i []) s)))))
     = concat (map textOrEmpty (chatStream2 um w s)) \<and>
   msg_groundingChunks (last (chatHistory (final (appendMessage (modelMessage i []) s)
        (handleChat2 um i w (appendMessage (modelMessage i []) s)))))
     = lastSupplied (chatStream2 um w s)"
  by (simp add: handleChat_history handleChat2_history modelMessage_def chatStream2_def
      firstDefined_def count_list_concat comp_def split: option.splits)

theorem streamed_text_and_citations_witness:
  "msg_text (last (chatHistory (final typedState
       (handleChat (newUserMessage 1000 (lit ''hi'') None)
          (quietWorld\<lparr>chat_reply := disjointStream\<rparr>) typedState)))) = lit ''ab'' \<and>
   msg_groundingChunks (last (chatHistory (final typedState
       (handleChat (newUserMessage 1000 (lit ''hi'') None)
          (quietWorld\<lparr>chat_reply := disjointStream\<rparr>) typedState))))
     = Some [sampleCitation, otherCitation]"
  using streamed_text_and_citations [of typedState "newUserMessage 1000 (lit ''hi'') None"
      "quietWorld\<lparr>chat_reply := disjointStream\<rparr>" sampleCitation 0]
  by (simp add: chatStream_def generateContentStream_def disjointStream_def quietWorld_def
      citingChunk_def toFragment_def chunkGroundingChunks_def textOrEmpty_def citations_def lit_def)

theorem citations_counterexample:
  "msg_groundingChunks (last (chatHistory (final typedState
       (sendMessage (quietWorld\<lparr>chat_reply := overlappingStream\<rparr>) typedState))))
     = Some [sampleCitation, sampleCitation, otherCitation] \<and>
   \<not> distinct [sampleCitation, sampleCitation, otherCitation] \<and>
   msg_groundingChunks (last (chatHistory (final typedState
       (sendMessage2 (quietWorld\<lparr>chat_reply := disjointStream\<rparr>) typedState))))
     = Some [otherCitation] \<and>
   sampleCitation \<notin> set [otherCitation]"
  by (simp add: sendMessage_def sendMessage2_def sendGuard_def sendPrefix_def sendPrefix2_def
      handled_def handled2_def dispatch_def dispatch2_def handleChat_def handleChat2_def
      final_def sendTail_def Let_def typedState_def initialState_def quietWorld_def
      overlappingStream_def disjointStream_def citingChunk_def generateContentStream_def
      toFragment_def chunkGroundingChunks_def chatChunk_def textOrEmpty_def firstDefined_def
      trim_def lit_def isWhiteSpace_def newUserMessage_def newUserMessage2_def
      attachmentOfKind_def modelMessage_def removeUploadedFile_def
      sampleCitation_def otherCitation_def)


lemma last_map_flag:
  "map msg_isLoading h = map msg_isLoading (h0 @ [p]) \<Longrightarrow> msg_isLoading (last h) = msg_isLoading p"
proof -
  assume a: "map msg_isLoading h = map msg_isLoading (h0 @ [p])"
  then have "h \<noteq> []" by auto
  then have "msg_isLoading (last h) = last (map msg_isLoading h)" by (simp add: last_map)
  with a show ?thesis by simp
qed

lemma handleChat_trace_flags:
  "list_all (\<lambda>t. msg_isLoading (last (chatHistory t)) = Some True) (butlast (fst (handleChat um w s))) \<and>
   msg_isLoading (last (chatHistory (last (fst (handleChat um w s))))) = Some False"
proof -
  let ?i = "now_model w + 1"
  let ?s1 = "appendMessage (modelMessage ?i []) s"
  let ?loop = "chatLoop ?i ([], []) (chatStream um w s) ?s1"
  have tr: "fst (handleChat um w s) = (?s1 # ?loop) @ [settle ?i (last (?s1 # ?loop))]"
    by (simp add: handleChat_def Let_def chatStream_def)
  have flags: "list_all (\<lambda>t. map msg_isLoading (chatHistory t) = map msg_isLoading (chatHistory ?s1) \<and>
                  map msg_id (chatHistory t) = map msg_id (chatHistory ?s1)) ?loop"
    by (rule chatLoop_flags)
  have one: "msg_isLoading (last (chatHistory t)) = Some True" if "t \<in> set (?s1 # ?loop)" for t
  proof -
    from that flags have "map msg_isLoading (chatHistory t) = map msg_isLoading (chatHistory ?s1)"
      by (auto simp: list_all_iff)
    then have "map msg_isLoading (chatHistory t)
               = map msg_isLoading (chatHistory s @ [modelMessage ?i []])" by simp
    then have "msg_isLoading (last (chatHistory t)) = msg_isLoading (modelMessage ?i [])"
      by (rule last_map_flag)
    then show ?thesis by (simp add: modelMessage_def)
  qed
  have "last (fst (handleChat um w s)) = final s (handleChat um w s)"
    unfolding tr final_def by simp
  then have two: "msg_isLoading (last (chatHistory (last (fst (handleChat um w s))))) = Some False"
    by (simp add: handleChat_history modelMessage_def)
  from one have "list_all (\<lambda>t. msg_isLoading (last (chatHistory t)) = Some True) (?s1 # ?loop)"
    unfolding list_all_iff by blast
  then have "list_all (\<lambda>t. msg_isLoading (last (chatHistory t)) = Some True)
               (butlast (fst (handleChat um w s)))"
    unfolding tr by (simp only: butlast_snoc)
  with two show ?thesis by simp
qed

lemma concat_all_empty: "list_all (\<lambda>x. f x = []) xs \<Longrightarrow> concat (map f xs) = []"
  by (simp add: list_all_iff)

text \<open>
  Claim C6, amended. When the provider fails, \<open>generateContentStream\<close> yields the
  fragments of the chunks delivered before the failure and then one last fragment with the
  fixed error text; nothing is thrown and \<open>handleChat\<close> returns. The text of the model
  message is the text delivered before the failure followed by the fixed error text, so it
  is that text alone when no text came before. The message is loading in every state the
  handler goes through but the last, where the flag is false: it is cleared once.
\<close>

theorem provider_failure_fallback:
  "chat_reply w (providerRequest (chatRequest um s)) = Fails chunks e \<longrightarrow>
     chatStream um w s = map toFragment chunks @ [errorFragment] \<and>
     frag_text errorFragment = Some streamErrorText \<and>
     snd (handleChat um w s) = Returned \<and>
     msg_text (last (chatHistory (final s (handleChat um w s))))
       = concat (map (\<lambda>chunk. textOrEmpty (toFragment chunk)) chunks) @ streamErrorText \<and>
     (list_all (\<lambda>chunk. textOrEmpty (toFragment chunk) = []) chunks \<longrightarrow>
        msg_text (last (chatHistory (final s (handleChat um w s)))) = streamErrorText) \<and>
     list_all (\<lambda>t. msg_isLoading (last (chatHistory t)) = Some True)
       (butlast (fst (handleChat um w s))) \<and>
     msg_isLoading (last (chatHistory (last (fst (handleChat um w s))))) = Some False"
proof (intro impI conjI)
  assume fails: "chat_reply w (providerRequest (chatRequest um s)) = Fails chunks e"
  then show stream: "chatStream um w s = map toFragment chunks @ [errorFragment]"
    by (simp add: chatStream_def generateContentStream_def)
  show "frag_text errorFragment = Some streamErrorText" by (simp add: errorFragment_def)
  show "snd (handleChat um w s) = Returned" by (simp add: handleChat_def Let_def)
  show msg: "msg_text (last (chatHistory (final s (handleChat um w s))))
       = concat (map (\<lambda>chunk. textOrEmpty (toFragment chunk)) chunks) @ streamErrorText"
  proof -
    have "msg_text (last (chatHistory (final s (handleChat um w s))))
          = concat (map textOrEmpty (chatStream um w s))"
      by (simp add: handleChat_history modelMessage_def)
    also have "\<dots> = concat (map textOrEmpty (map toFragment chunks)) @ textOrEmpty errorFragment"
      unfolding stream by simp
    also have "textOrEmpty errorFragment = streamErrorText"
      by (simp add: errorFragment_def textOrEmpty_def)
    finally show ?thesis by (simp add: comp_def)
  qed
  show "msg_text (last (chatHistory (final s (handleChat um w s)))) = streamErrorText"
    if "list_all (\<lambda>chunk. textOrEmpty (toFragment chunk) = []) chunks"
  proof -
    from that have "concat (map (\<lambda>chunk. textOrEmpty (toFragment chunk)) chunks) = []"
      by (rule concat_all_empty)
    then show ?thesis by (simp only: msg append_Nil)
  qed
  show "list_all (\<lambda>t. msg_isLoading (last (chatHistory t)) = Some True)
       (butlast (fst (handleChat um w s)))"
    using handleChat_trace_flags [of um w s] by (rule conjunct1)
  show "msg_isLoading (last (chatHistory (last (fst (handleChat um w s))))) = Some False"
    using handleChat_trace_flags [of um w s] by (rule conjunct2)
qed

theorem provider_failure_fallback_witness:
  "msg_text (last (chatHistory (final typedState
       (handleChat (newUserMessage 1000 (lit ''hi'') None)
          (quietWorld\<lparr>chat_reply := deadStream\<rparr>) typedState)))) = streamErrorText \<and>
   msg_isLoading (last (chatHistory (last (fst
       (handleChat (newUserMessage 1000 (lit ''hi'') None)
          (quietWorld\<lparr>chat_reply := deadStream\<rparr>) typedState))))) = Some False"
  using provider_failure_fallback [of "quietWorld\<lparr>chat_reply := deadStream\<rparr>"
      "newUserMessage 1000 (lit ''hi'') None" typedState "[]" "JsError (lit ''503'')"]
  by (simp add: deadStream_def)

theorem provider_failure_counterexample:
  "msg_text (last (chatHistory (final typedState
       (sendMessage (quietWorld\<lparr>chat_reply := brokenStream\<rparr>) typedState))))
     = lit ''Hi'' @ streamErrorText \<and>
   lit ''Hi'' @ streamErrorText \<noteq> streamErrorText"
  by (simp add: sendMessage_def sendGuard_def sendPrefix_def
      handled_def dispatch_def handleChat_def
      final_def sendTail_def Let_def typedState_def initialState_def quietWorld_def
      brokenStream_def generateContentStream_def
      toFragment_def chunkGroundingChunks_def chatChunk_def textOrEmpty_def errorFragment_def
      trim_def isWhiteSpace_def newUserMessage_def
      attachmentOfKind_def modelMessage_def removeUploadedFile_def lit_def)


section \<open>Properties of the video handler\<close>

lemma videoImage_appendMessage [simp]: "videoImage um (appendMessage m s) = videoImage um s"
  by (simp add: videoImage_def appendMessage_def split: option.splits)

lemma map_id_update:
  "(\<And>m. msg_id (f m) = msg_id m) \<Longrightarrow>
   map msg_id (map (\<lambda>m. if msg_id m = i then f m else m) h) = map msg_id h"
  by (induction h) auto

lemma ids_updateById:
  "(\<And>m. msg_id (f m) = msg_id m) \<Longrightarrow>
   map msg_id (chatHistory (updateById i f s)) = map msg_id (chatHistory s)"
  by (simp only: chatHistory_updateById map_id_update)

lemma pollLoop_done:
  "list_all (\<lambda>operation. \<not> op_done operation) (butlast (op0 # ops)) \<Longrightarrow>
   op_done (last (op0 # ops)) \<Longrightarrow>
   pollLoop op0 (map Inr ops @ rest) = Some (Inr (last (op0 # ops)))"
proof (induction ops arbitrary: op0)
  case Nil
  then show ?case by (cases rest) simp_all
next
  case (Cons operation ops)
  then show ?case by simp
qed

lemma pollLoop2_ids:
  "list_all (\<lambda>t. map msg_id (chatHistory t) = map msg_id (chatHistory s))
     (fst (pollLoop2 i operation rs s))"
proof (induction rs arbitrary: operation s)
  case Nil
  show ?case by simp
next
  case (Cons r rs)
  show ?case
  proof (cases r)
    case (Inl e)
    then show ?thesis by simp
  next
    case (Inr operation')
    let ?s' = "updateById i (\<lambda>msg. msg\<lparr>msg_text := progressText operation'\<rparr>) s"
    have eq: "map msg_id (chatHistory ?s') = map msg_id (chatHistory s)"
      by (rule ids_updateById) simp
    have "list_all (\<lambda>t. map msg_id (chatHistory t) = map msg_id (chatHistory ?s'))
            (fst (pollLoop2 i operation' rs ?s'))"
      by (rule Cons.IH)
    then have "list_all (\<lambda>t. map msg_id (chatHistory t) = map msg_id (chatHistory s))
            (fst (pollLoop2 i operation' rs ?s'))"
      by (simp only: eq)
    then show ?thesis using Inr eq
      by (simp add: Let_def case_prod_beta del: chatHistory_updateById)
  qed
qed

lemma pollLoop2_done:
  "list_all (\<lambda>operation. \<not> op_done operation) (butlast (op0 # ops)) \<Longrightarrow>
   op_done (last (op0 # ops)) \<Longrightarrow>
   snd (pollLoop2 i op0 (map Inr ops @ rest) s) = Some (Inr (last (op0 # ops)))"
proof (induction ops arbitrary: op0 s)
  case Nil
  then show ?case by (cases rest) simp_all
next
  case (Cons operation ops)
  then show ?case by (simp add: Let_def case_prod_beta)
qed

lemma last_ids:
  "map msg_id h = map msg_id (h0 @ [p]) \<Longrightarrow> h \<noteq> [] \<and> msg_id (last h) = msg_id p"
proof -
  assume a: "map msg_id h = map msg_id (h0 @ [p])"
  then have ne: "h \<noteq> []" by auto
  then have "msg_id (last h) = last (map msg_id h)" by (simp add: last_map)
  with a ne show ?thesis by simp
qed

lemma last_ids_all:
  "list_all (\<lambda>t. map msg_id (chatHistory t) = map msg_id (h0 @ [p])) ts \<Longrightarrow>
   map msg_id (chatHistory s) = map msg_id (h0 @ [p]) \<Longrightarrow>
   chatHistory (last (s # ts)) \<noteq> [] \<and> msg_id (last (chatHistory (last (s # ts)))) = msg_id p"
proof -
  assume a: "list_all (\<lambda>t. map msg_id (chatHistory t) = map msg_id (h0 @ [p])) ts"
    and b: "map msg_id (chatHistory s) = map msg_id (h0 @ [p])"
  have "last (s # ts) \<in> set (s # ts)" by (rule last_in_set) simp
  with a b have "map msg_id (chatHistory (last (s # ts))) = map msg_id (h0 @ [p])"
    by (auto simp: list_all_iff)
  then show ?thesis by (rule last_ids)
qed

lemma last_updateById:
  "chatHistory s \<noteq> [] \<Longrightarrow> msg_id (last (chatHistory s)) = i \<Longrightarrow>
   last (chatHistory (updateById i f s)) = f (last (chatHistory s))"
  by (simp add: last_map)


lemma truthy_Some: "U \<noteq> [] \<Longrightarrow> truthy (Some U) = Some U"
  by (cases U) (simp_all add: truthy_def)

lemma handleVideoGeneration_uri:
  assumes "video_reply w (msg_text um) (videoImage um s) = Inr op0"
    and "pollLoop op0 (poll_replies w) = Some (Inr operation)"
    and "truthy (resultUri operation) = Some U"
  shows "snd (handleVideoGeneration um w s) = Returned \<and>
     last (chatHistory (final s (handleVideoGeneration um w s))) =
       (modelMessage (now_model w + 1) videoFailureText)\<lparr>msg_isLoading := Some False\<rparr>"
  using assms
  by (simp add: handleVideoGeneration_def final_def Let_def modelMessage_def)

lemma handleVideoGeneration_no_uri:
  assumes "video_reply w (msg_text um) (videoImage um s) = Inr op0"
    and "pollLoop op0 (poll_replies w) = Some (Inr operation)"
    and "truthy (resultUri operation) = None"
  shows "snd (handleVideoGeneration um w s) = Returned \<and>
     last (chatHistory (final s (handleVideoGeneration um w s))) =
       (modelMessage (now_model w + 1) videoFailureText)\<lparr>msg_isLoading := Some False\<rparr>"
  using assms
  by (simp add: handleVideoGeneration_def final_def Let_def modelMessage_def)

lemma handleVideoGeneration2_loop:
  assumes "video_reply w (msg_text um) (map_option mediaPart (msg_image um)) = Inr op0"
  shows "\<exists>s2. chatHistory s2 \<noteq> [] \<and> msg_id (last (chatHistory s2)) = i \<and>
     s2 = last (updateById i (\<lambda>msg. msg\<lparr>msg_text := videoStartText2\<rparr>)
                 (appendMessage (modelMessage i []) s) #
               fst (pollLoop2 i op0 (poll_replies w)
                 (updateById i (\<lambda>msg. msg\<lparr>msg_text := videoStartText2\<rparr>)
                    (appendMessage (modelMessage i []) s))))"
proof -
  let ?s5 = "appendMessage (modelMessage i []) s"
  let ?s1 = "updateById i (\<lambda>msg. msg\<lparr>msg_text := videoStartText2\<rparr>) ?s5"
  let ?loop = "fst (pollLoop2 i op0 (poll_replies w) ?s1)"
  have ids1: "map msg_id (chatHistory ?s1) = map msg_id (chatHistory s @ [modelMessage i []])"
  proof -
    have "map msg_id (chatHistory ?s1) = map msg_id (chatHistory ?s5)"
      by (rule ids_updateById) simp
    then show ?thesis by simp
  qed
  have "list_all (\<lambda>t. map msg_id (chatHistory t) = map msg_id (chatHistory ?s1)) ?loop"
    by (rule pollLoop2_ids)
  then have all: "list_all (\<lambda>t. map msg_id (chatHistory t)
                     = map msg_id (chatHistory s @ [modelMessage i []])) ?loop"
    by (simp only: ids1)
  have "chatHistory (last (?s1 # ?loop)) \<noteq> [] \<and>
        msg_id (last (chatHistory (last (?s1 # ?loop)))) = msg_id (modelMessage i [])"
    by (rule last_ids_all [OF all ids1])
  then show ?thesis by (simp add: modelMessage_def)
qed

lemma handleVideoGeneration2_done:
  assumes start: "video_reply w (msg_text um) (map_option mediaPart (msg_image um)) = Inr op0"
    and polls: "snd (pollLoop2 i op0 (poll_replies w)
                  (updateById i (\<lambda>msg. msg\<lparr>msg_text := videoStartText2\<rparr>)
                     (appendMessage (modelMessage i []) s))) = Some (Inr operation)"
    and uri: "truthy (resultUri operation) = Some U"
    and fetch: "fetch_reply w (U @ lit ''&key='' @ api_key w) = Inr d"
  shows "snd (handleVideoGeneration2 um i w (appendMessage (modelMessage i []) s)) = Returned \<and>
     msg_text (last (chatHistory (final (appendMessage (modelMessage i []) s)
        (handleVideoGeneration2 um i w (appendMessage (modelMessage i []) s))))) = videoDoneText2 um \<and>
     msg_video (last (chatHistory (final (appendMessage (modelMessage i []) s)
        (handleVideoGeneration2 um i w (appendMessage (modelMessage i []) s)))))
       = Some \<lparr>dataUrl = d, mimeType = lit ''video/mp4''\<rparr> \<and>
     msg_isLoading (last (chatHistory (final (appendMessage (modelMessage i []) s)
        (handleVideoGeneration2 um i w (appendMessage (modelMessage i []) s))))) = Some False"
proof -
  let ?s5 = "appendMessage (modelMessage i []) s"
  let ?s1 = "updateById i (\<lambda>msg. msg\<lparr>msg_text := videoStartText2\<rparr>) ?s5"
  let ?loop = "fst (pollLoop2 i op0 (poll_replies w) ?s1)"
  let ?s2 = "last (?s1 # ?loop)"
  from handleVideoGeneration2_loop [OF start, of i s]
  have ne: "chatHistory ?s2 \<noteq> []" and id: "msg_id (last (chatHistory ?s2)) = i" by auto
  have run: "handleVideoGeneration2 um i w ?s5 = (?s1 # ?loop @ [videoDone2 i um d ?s2], Returned)"
    using start polls uri fetch
    by (simp add: handleVideoGeneration2_def Let_def case_prod_beta
        del: chatHistory_updateById last.simps)
  have "last (chatHistory (videoDone2 i um d ?s2)) =
        (last (chatHistory ?s2))\<lparr>msg_text := videoDoneText2 um,
           msg_video := Some \<lparr>dataUrl = d, mimeType = lit ''video/mp4''\<rparr>,
           msg_isLoading := Some False\<rparr>"
    unfolding videoDone2_def by (rule last_updateById [OF ne id])
  then show ?thesis unfolding run final_def by simp
qed

lemma handleVideoGeneration2_no_uri:
  assumes start: "video_reply w (msg_text um) (map_option mediaPart (msg_image um)) = Inr op0"
    and polls: "snd (pollLoop2 i op0 (poll_replies w)
                  (updateById i (\<lambda>msg. msg\<lparr>msg_text := videoStartText2\<rparr>)
                     (appendMessage (modelMessage i []) s))) = Some (Inr operation)"
    and uri: "truthy (resultUri operation) = None"
  shows "snd (handleVideoGeneration2 um i w (appendMessage (modelMessage i []) s)) = Returned \<and>
     msg_text (last (chatHistory (final (appendMessage (modelMessage i []) s)
        (handleVideoGeneration2 um i w (appendMessage (modelMessage i []) s))))) = videoFailureText2 \<and>
     msg_isLoading (last (chatHistory (final (appendMessage (modelMessage i []) s)
        (handleVideoGeneration2 um i w (appendMessage (modelMessage i []) s))))) = Some False"
proof -
  let ?s5 = "appendMessage (modelMessage i []) s"
  let ?s1 = "updateById i (\<lambda>msg. msg\<lparr>msg_text := videoStartText2\<rparr>) ?s5"
  let ?loop = "fst (pollLoop2 i op0 (poll_replies w) ?s1)"
  let ?s2 = "last (?s1 # ?loop)"
  from handleVideoGeneration2_loop [OF start, of i s]
  have ne: "chatHistory ?s2 \<noteq> []" and id: "msg_id (last (chatHistory ?s2)) = i" by auto
  have run: "handleVideoGeneration2 um i w ?s5 = (?s1 # ?loop @ [videoFailed2 i ?s2], Returned)"
    using start polls uri
    by (simp add: handleVideoGeneration2_def Let_def case_prod_beta
        del: chatHistory_updateById last.simps)
  have "last (chatHistory (videoFailed2 i ?s2)) =
        (last (chatHistory ?s2))\<lparr>msg_text := videoFailureText2, msg_isLoading := Some False\<rparr>"
    unfolding videoFailed2_def by (rule last_updateById [OF ne id])
  then show ?thesis unfolding run final_def by simp
qed


text \<open>
  Claim C3. Let the job handles be the one that \<open>generateVideo\<close> returns followed by
  those of the polls, and let none but the last report \<open>done\<close> (as in: not done at first
  and at two polls, done at the third). The handler returns in every case, with
  \<open>isLoading\<close> false on the placeholder.

  In the second listing, if the last handle has a result URI \<open>U\<close>, a non-empty text, and
  the fetch of the video at \<open>U\<close> (with the key appended) delivers it, the placeholder ends
  with a video attachment made of what was fetched; if the last handle has no result URI,
  the placeholder ends with the fixed failure text.

  In the first listing the placeholder ends with the fixed failure text and without a
  video in both cases, also when the last handle has a result URI: the gateway has no
  method \<open>fetchVideoAsDataUrl\<close>, the call of line 358 throws, and the \<open>catch\<close> of lines
  369-376 writes the failure text. With a result URI the first listing does not do what
  the claim says.
\<close>

theorem video_job_outcome:
  "(video_reply w (msg_text um) (videoImage um s) = Inr op0 \<and>
    poll_replies w = map Inr ops @ rest \<and>
    list_all (\<lambda>operation. \<not> op_done operation) (butlast (op0 # ops)) \<and>
    op_done (last (op0 # ops)) \<longrightarrow>
      (resultUri (last (op0 # ops)) = Some U \<and> U \<noteq> [] \<longrightarrow>
         snd (handleVideoGeneration um w s) = Returned \<and>
         msg_text (last (chatHistory (final s (handleVideoGeneration um w s)))) = videoFailureText \<and>
         msg_video (last (chatHistory (final s (handleVideoGeneration um w s)))) = None \<and>
         msg_isLoading (last (chatHistory (final s (handleVideoGeneration um w s)))) = Some False) \<and>
      (truthy (resultUri (last (op0 # ops))) = None \<longrightarrow>
         snd (handleVideoGeneration um w s) = Returned \<and>
         msg_text (last (chatHistory (final s (handleVideoGeneration um w s)))) = videoFailureText \<and>
         msg_video (last (chatHistory (final s (handleVideoGeneration um w s)))) = None \<and>
         msg_isLoading (last (chatHistory (final s (handleVideoGeneration um w s)))) = Some False)) \<and>
   (video_reply w (msg_text um) (map_option mediaPart (msg_image um)) = Inr op0 \<and>
    poll_replies w = map Inr ops @ rest \<and>
    list_all (\<lambda>operation. \<not> op_done operation) (butlast (op0 # ops)) \<and>
    op_done (last (op0 # ops)) \<longrightarrow>
      (resultUri (last (op0 # ops)) = Some U \<and> U \<noteq> [] \<and>
       fetch_reply w (U @ lit ''&key='' @ api_key w) = Inr d \<longrightarrow>
         snd (handleVideoGeneration2 um i w (appendMessage (modelMessage i []) s)) = Returned \<and>
         msg_video (last (chatHistory (final (appendMessage (modelMessage i []) s)
             (handleVideoGeneration2 um i w (appendMessage (modelMessage i []) s)))))
           = Some \<lparr>dataUrl = d, mimeType = lit ''video/mp4''\<rparr> \<and>
         msg_isLoading (last (chatHistory (final (appendMessage (modelMessage i []) s)
             (handleVideoGeneration2 um i w (appendMessage (modelMessage i []) s))))) = Some False) \<and>
      (truthy (resultUri (last (op0 # ops))) = None \<longrightarrow>
         snd (handleVideoGeneration2 um i w (appendMessage (modelMessage i []) s)) = Returned \<and>
         msg_text (last (chatHistory (final (appendMessage (modelMessage i []) s)
             (handleVideoGeneration2 um i w (appendMessage (modelMessage i []) s))))) = videoFailureText2 \<and>
         msg_isLoading (last (chatHistory (final (appendMessage (modelMessage i []) s)
             (handleVideoGeneration2 um i w (appendMessage (modelMessage i []) s))))) = Some False))"
proof (intro conjI impI)
  assume a: "video_reply w (msg_text um) (videoImage um s) = Inr op0 \<and>
    poll_replies w = map Inr ops @ rest \<and>
    list_all (\<lambda>operation. \<not> op_done operation) (butlast (op0 # ops)) \<and>
    op_done (last (op0 # ops))"
  then have start: "video_reply w (msg_text um) (videoImage um s) = Inr op0" by (rule conjunct1)
  from a have polls: "pollLoop op0 (poll_replies w) = Some (Inr (last (op0 # ops)))"
    using pollLoop_done [of op0 ops rest] by simp
  {
    assume b: "resultUri (last (op0 # ops)) = Some U \<and> U \<noteq> []"
    then have uri: "truthy (resultUri (last (op0 # ops))) = Some U"
      using truthy_Some [of U] by simp
    note r = handleVideoGeneration_uri [OF start polls uri]
    from r show "snd (handleVideoGeneration um w s) = Returned" by (rule conjunct1)
    from r show "msg_text (last (chatHistory (final s (handleVideoGeneration um w s)))) = videoFailureText"
      by (simp add: modelMessage_def)
    from r show "msg_video (last (chatHistory (final s (handleVideoGeneration um w s)))) = None"
      by (simp add: modelMessage_def)
    from r show "msg_isLoading (last (chatHistory (final s (handleVideoGeneration um w s)))) = Some False"
      by simp
  }
  {
    assume uri: "truthy (resultUri (last (op0 # ops))) = None"
    note r = handleVideoGeneration_no_uri [OF start polls uri]
    from r show "snd (handleVideoGeneration um w s) = Returned" by (rule conjunct1)
    from r show "msg_text (last (chatHistory (final s (handleVideoGeneration um w s)))) = videoFailureText"
      by (simp add: modelMessage_def)
    from r show "msg_video (last (chatHistory (final s (handleVideoGeneration um w s)))) = None"
      by (simp add: modelMessage_def)
    from r show "msg_isLoading (last (chatHistory (final s (handleVideoGeneration um w s)))) = Some False"
      by simp
  }
next
  let ?s5 = "appendMessage (modelMessage i []) s"
  assume a: "video_reply w (msg_text um) (map_option mediaPart (msg_image um)) = Inr op0 \<and>
    poll_replies w = map Inr ops @ rest \<and>
    list_all (\<lambda>operation. \<not> op_done operation) (butlast (op0 # ops)) \<and>
    op_done (last (op0 # ops))"
  then have start: "video_reply w (msg_text um) (map_option mediaPart (msg_image um)) = Inr op0"
    by (rule conjunct1)
  from a have polls: "snd (pollLoop2 i op0 (poll_replies w)
                  (updateById i (\<lambda>msg. msg\<lparr>msg_text := videoStartText2\<rparr>) ?s5))
                = Some (Inr (last (op0 # ops)))"
    using pollLoop2_done [of op0 ops i rest] by simp
  {
    assume b: "resultUri (last (op0 # ops)) = Some U \<and> U \<noteq> [] \<and>
       fetch_reply w (U @ lit ''&key='' @ api_key w) = Inr d"
    then have uri: "truthy (resultUri (last (op0 # ops))) = Some U"
      using truthy_Some [of U] by simp
    from b have fetch: "fetch_reply w (U @ lit ''&key='' @ api_key w) = Inr d" by simp
    note r = handleVideoGeneration2_done [OF start polls uri fetch]
    from r show "snd (handleVideoGeneration2 um i w ?s5) = Returned" by (rule conjunct1)
    from r show "msg_video (last (chatHistory (final ?s5 (handleVideoGeneration2 um i w ?s5))))
           = Some \<lparr>dataUrl = d, mimeType = lit ''video/mp4''\<rparr>" by blast
    from r show "msg_isLoading (last (chatHistory (final ?s5 (handleVideoGeneration2 um i w ?s5))))
           = Some False" by blast
  }
  {
    assume uri: "truthy (resultUri (last (op0 # ops))) = None"
    note r = handleVideoGeneration2_no_uri [OF start polls uri]
    from r show "snd (handleVideoGeneration2 um i w ?s5) = Returned" by (rule conjunct1)
    from r show "msg_text (last (chatHistory (final ?s5 (handleVideoGeneration2 um i w ?s5))))
           = videoFailureText2" by blast
    from r show "msg_isLoading (last (chatHistory (final ?s5 (handleVideoGeneration2 um i w ?s5))))
           = Some False" by blast
  }
qed


theorem video_job_outcome_witness:
  "msg_text (last (chatHistory (final typedState
      (handleVideoGeneration (newUserMessage 1000 (lit ''a cat'') None)
         (videoWorld (finishedJob videoLocation)) typedState)))) = videoFailureText \<and>
   msg_video (last (chatHistory (final typedState
      (handleVideoGeneration (newUserMessage 1000 (lit ''a cat'') None)
         (videoWorld (finishedJob videoLocation)) typedState)))) = None \<and>
   msg_isLoading (last (chatHistory (final typedState
      (handleVideoGeneration (newUserMessage 1000 (lit ''a cat'') None)
         (videoWorld (finishedJob videoLocation)) typedState)))) = Some False \<and>
   msg_text (last (chatHistory (final typedState
      (handleVideoGeneration (newUserMessage 1000 (lit ''a cat'') None)
         (videoWorld emptyJob) typedState)))) = videoFailureText \<and>
   msg_isLoading (last (chatHistory (final typedState
      (handleVideoGeneration (newUserMessage 1000 (lit ''a cat'') None)
         (videoWorld emptyJob) typedState)))) = Some False \<and>
   msg_video (last (chatHistory (final (appendMessage (modelMessage 1003 []) typedState)
      (handleVideoGeneration2 (newUserMessage 1000 (lit ''a cat'') None) 1003
         (videoWorld (finishedJob videoLocation)) (appendMessage (modelMessage 1003 []) typedState)))))
     = Some \<lparr>dataUrl = lit ''data:video/mp4;base64,BBBB'', mimeType = lit ''video/mp4''\<rparr> \<and>
   msg_text (last (chatHistory (final (appendMessage (modelMessage 1003 []) typedState)
      (handleVideoGeneration2 (newUserMessage 1000 (lit ''a cat'') None) 1003
         (videoWorld emptyJob) (appendMessage (modelMessage 1003 []) typedState)))))
     = videoFailureText2"
  using video_job_outcome [of "videoWorld (finishedJob videoLocation)"
      "newUserMessage 1000 (lit ''a cat'') None" typedState pendingJob
      "[pendingJob, pendingJob, finishedJob videoLocation]" "[]" videoLocation
      "lit ''data:video/mp4;base64,BBBB''" 1003]
    video_job_outcome [of "videoWorld emptyJob"
      "newUserMessage 1000 (lit ''a cat'') None" typedState pendingJob
      "[pendingJob, pendingJob, emptyJob]" "[]" videoLocation
      "lit ''data:video/mp4;base64,BBBB''" 1003]
  by (simp add: videoWorld_def quietWorld_def startsJob_def pendingJob_def finishedJob_def
      emptyJob_def resultUri_def truthy_def fetchClip_def videoLocation_def lit_def)


section \<open>Properties of failure handling\<close>

lemma appendMessage_fields [simp]:
  "imageAspectRatio (appendMessage m s) = imageAspectRatio s"
  "uploadedFile (appendMessage m s) = uploadedFile s"
  "userInput (appendMessage m s) = userInput s"
  "chatModel (appendMessage m s) = chatModel s"
  "useWebSearch (appendMessage m s) = useWebSearch s"
  by (simp_all add: appendMessage_def)

lemma updateById_fields [simp]:
  "imageAspectRatio (updateById i f s) = imageAspectRatio s"
  "uploadedFile (updateById i f s) = uploadedFile s"
  "userInput (updateById i f s) = userInput s"
  "currentMode (updateById i f s) = currentMode s"
  by (simp_all add: updateById_def)

lemma chatLoop2_ids:
  "list_all (\<lambda>t. map msg_id (chatHistory t) = map msg_id (chatHistory s)) (chatLoop2 i stream s)"
proof (induction stream arbitrary: s)
  case Nil
  show ?case by simp
next
  case (Cons c cs)
  let ?s' = "chatChunk2 i c s"
  have eq: "map msg_id (chatHistory ?s') = map msg_id (chatHistory s)"
    unfolding chatChunk2_def by (rule ids_updateById) simp
  have "list_all (\<lambda>t. map msg_id (chatHistory t) = map msg_id (chatHistory ?s')) (chatLoop2 i cs ?s')"
    by (rule Cons.IH)
  then have "list_all (\<lambda>t. map msg_id (chatHistory t) = map msg_id (chatHistory s)) (chatLoop2 i cs ?s')"
    by (simp only: eq)
  with eq show ?case by (simp add: Let_def del: chatHistory_steps2)
qed

lemma ids_last:
  "list_all (\<lambda>t. map msg_id (chatHistory t) = ids) ts \<Longrightarrow> map msg_id (chatHistory s) = ids \<Longrightarrow>
   map msg_id (chatHistory (last (s # ts))) = ids"
proof -
  assume a: "list_all (\<lambda>t. map msg_id (chatHistory t) = ids) ts"
    and b: "map msg_id (chatHistory s) = ids"
  have "last (s # ts) \<in> set (s # ts)" by (rule last_in_set) simp
  with a b show ?thesis by (auto simp: list_all_iff)
qed

lemma handleChat2_ids:
  "list_all (\<lambda>t. map msg_id (chatHistory t) = map msg_id (chatHistory s))
     (fst (handleChat2 um i w s))"
proof -
  let ?loop = "chatLoop2 i (generateContentStream (chat_reply w) (chatRequest2 um s)) s"
  have loop: "list_all (\<lambda>t. map msg_id (chatHistory t) = map msg_id (chatHistory s)) ?loop"
    by (rule chatLoop2_ids)
  have "map msg_id (chatHistory (last (s # ?loop))) = map msg_id (chatHistory s)"
    by (rule ids_last [OF loop]) simp
  moreover have "map msg_id (chatHistory (settle i (last (s # ?loop))))
                 = map msg_id (chatHistory (last (s # ?loop)))"
    unfolding settle_def by (rule ids_updateById) simp
  ultimately have "map msg_id (chatHistory (settle i (last (s # ?loop)))) = map msg_id (chatHistory s)"
    by simp
  with loop show ?thesis
    by (simp add: handleChat2_def Let_def del: chatHistory_steps last.simps)
qed

lemma handleImageGeneration2_ids:
  "list_all (\<lambda>t. map msg_id (chatHistory t) = map msg_id (chatHistory s))
     (fst (handleImageGeneration2 prompt i w s))"
proof (cases "image_reply w prompt (imageAspectRatio s)")
  case (Inl e)
  then show ?thesis by (simp add: handleImageGeneration2_def)
next
  case (Inr b)
  have "map msg_id (chatHistory (updateById i
          (\<lambda>msg. msg\<lparr>msg_text := imageDoneText2 prompt,
              msg_image := Some \<lparr>dataUrl = lit ''data:image/png;base64,'' @ b,
                                  mimeType = lit ''image/png''\<rparr>,
              msg_isLoading := Some False\<rparr>) s)) = map msg_id (chatHistory s)"
    by (rule ids_updateById) simp
  with Inr show ?thesis
    by (simp add: handleImageGeneration2_def Let_def del: chatHistory_updateById)
qed

lemma handleVideoGeneration2_ids:
  "list_all (\<lambda>t. map msg_id (chatHistory t) = map msg_id (chatHistory s))
     (fst (handleVideoGeneration2 um i w s))"
proof (cases "video_reply w (msg_text um) (map_option mediaPart (msg_image um))")
  case (Inl e)
  then show ?thesis by (simp add: handleVideoGeneration2_def)
next
  case (Inr operation0)
  let ?s1 = "updateById i (\<lambda>msg. msg\<lparr>msg_text := videoStartText2\<rparr>) s"
  let ?loop = "fst (pollLoop2 i operation0 (poll_replies w) ?s1)"
  let ?s2 = "last (?s1 # ?loop)"
  have ids1: "map msg_id (chatHistory ?s1) = map msg_id (chatHistory s)"
    by (rule ids_updateById) simp
  have "list_all (\<lambda>t. map msg_id (chatHistory t) = map msg_id (chatHistory ?s1)) ?loop"
    by (rule pollLoop2_ids)
  then have loop: "list_all (\<lambda>t. map msg_id (chatHistory t) = map msg_id (chatHistory s)) ?loop"
    by (simp only: ids1)
  have ids2: "map msg_id (chatHistory ?s2) = map msg_id (chatHistory s)"
    by (rule ids_last [OF loop ids1])
  have finished: "map msg_id (chatHistory (videoDone2 i um d ?s2)) = map msg_id (chatHistory s)" for d
  proof -
    have "map msg_id (chatHistory (videoDone2 i um d ?s2)) = map msg_id (chatHistory ?s2)"
      unfolding videoDone2_def by (rule ids_updateById) simp
    with ids2 show ?thesis by simp
  qed
  have failed: "map msg_id (chatHistory (videoFailed2 i ?s2)) = map msg_id (chatHistory s)"
  proof -
    have "map msg_id (chatHistory (videoFailed2 i ?s2)) = map msg_id (chatHistory ?s2)"
      unfolding videoFailed2_def by (rule ids_updateById) simp
    with ids2 show ?thesis by simp
  qed
  from Inr ids1 loop finished failed show ?thesis
    by (simp add: handleVideoGeneration2_def Let_def case_prod_beta
        del: chatHistory_updateById chatHistory_steps2 last.simps
        split: option.splits sum.splits)
qed

lemma dispatch2_ids:
  "list_all (\<lambda>t. map msg_id (chatHistory t) = map msg_id (chatHistory s)) (fst (dispatch2 um i w s))"
  by (simp add: dispatch2_def handleChat2_ids handleImageGeneration2_ids
      handleVideoGeneration2_ids split: AppMode.splits)

lemma handleChat2_returns: "snd (handleChat2 um i w s) = Returned"
  by (simp add: handleChat2_def Let_def)


lemma sendMessage2_threw:
  assumes guard: "\<not> sendGuard s" and threw: "snd (handled2 w s) = Threw e"
  shows "snd (sendMessage2 w s) = Returned \<and>
     msg_text (last (chatHistory (final s (sendMessage2 w s)))) = genericFailureText \<and>
     msg_isLoading (last (chatHistory (final s (sendMessage2 w s)))) = Some False \<and>
     \<not> isLoading (final s (sendMessage2 w s))"
proof -
  let ?i = "now_model w + 1"
  obtain um pre where pre: "sendPrefix2 (now_user w) (now_model w) s = (um, pre)"
    by (rule prod.exhaust)
  let ?s5 = "last pre"
  let ?h = "dispatch2 um ?i w ?s5"
  let ?s6 = "last (?s5 # fst ?h)"
  have h: "handled2 w s = ?h" using pre by (simp add: handled2_def)
  have ids5: "map msg_id (chatHistory ?s5) = map msg_id ((chatHistory s @ [um]) @ [modelMessage ?i []])"
    using pre by (auto simp: sendPrefix2_def Let_def)
  have "list_all (\<lambda>t. map msg_id (chatHistory t) = map msg_id (chatHistory ?s5)) (fst ?h)"
    by (rule dispatch2_ids)
  then have all: "list_all (\<lambda>t. map msg_id (chatHistory t)
                    = map msg_id ((chatHistory s @ [um]) @ [modelMessage ?i []])) (fst ?h)"
    by (simp only: ids5)
  have "chatHistory ?s6 \<noteq> [] \<and> msg_id (last (chatHistory ?s6)) = msg_id (modelMessage ?i [])"
    by (rule last_ids_all [OF all ids5])
  then have ne: "chatHistory ?s6 \<noteq> []" and id: "msg_id (last (chatHistory ?s6)) = ?i"
    by (simp_all add: modelMessage_def)
  have run: "sendMessage2 w s =
        (pre @ fst ?h @ [genericFailed ?i ?s6, (genericFailed ?i ?s6)\<lparr>isLoading := False\<rparr>], Returned)"
    using guard pre h threw
    by (simp add: sendMessage2_def final_def Let_def del: last.simps chatHistory_steps2)
  have "last (chatHistory (genericFailed ?i ?s6)) =
        (last (chatHistory ?s6))\<lparr>msg_text := genericFailureText, msg_isLoading := Some False\<rparr>"
    unfolding genericFailed_def by (rule last_updateById [OF ne id])
  then show ?thesis unfolding run final_def by simp
qed

lemma handled_never_throws: "snd (handled w s) \<noteq> Threw e"
  by (simp add: handled_def dispatch_def handleChat_def handleImageGeneration_def
      handleVideoGeneration_def Let_def case_prod_beta
      split: AppMode.splits sum.splits option.splits)

lemma handleVideoGeneration_settled:
  "snd (handleVideoGeneration um w s) = Returned \<Longrightarrow>
   msg_isLoading (last (chatHistory (final s (handleVideoGeneration um w s)))) = Some False"
  by (simp add: handleVideoGeneration_def final_def Let_def modelMessage_def
      split: sum.splits option.splits)

lemma dispatch_settled:
  "snd (dispatch um w s) = Returned \<Longrightarrow>
   msg_isLoading (last (chatHistory (final s (dispatch um w s)))) = Some False"
proof (cases "currentMode s")
  case ChatMode
  then show ?thesis by (simp add: dispatch_def handleChat_history modelMessage_def)
next
  case ImageMode
  then show ?thesis
    by (simp add: dispatch_def handleImageGeneration_def final_def Let_def modelMessage_def
        split: sum.splits)
next
  case VideoMode
  assume "snd (dispatch um w s) = Returned"
  with VideoMode show ?thesis by (simp add: dispatch_def handleVideoGeneration_settled)
qed

lemma sendPrefix_facts:
  "fst (sendPrefix n s) = newUserMessage n (trim (userInput s)) (uploadedFile s)"
  "snd (sendPrefix n s) \<noteq> []"
  "currentMode (last (snd (sendPrefix n s))) = currentMode s"
  "imageAspectRatio (last (snd (sendPrefix n s))) = imageAspectRatio s"
  "uploadedFile (last (snd (sendPrefix n s))) = uploadedFile s"
  by (simp_all add: sendPrefix_def Let_def appendMessage_def)

lemma sendMessage_returned:
  assumes guard: "\<not> sendGuard s" and ret: "snd (handled w s) = Returned"
  shows "snd (sendMessage w s) = Returned"
    and "\<not> isLoading (final s (sendMessage w s))"
    and "chatHistory (final s (sendMessage w s)) =
         chatHistory (final (last (snd (sendPrefix (now_user w) s))) (handled w s))"
  using guard ret
  by (simp_all add: sendMessage_def final_def sendTail_def Let_def case_prod_beta)

lemma videoImage_prefix:
  "videoImage um (last (snd (sendPrefix n s))) = videoImage um s"
  by (simp add: videoImage_def sendPrefix_facts split: option.splits)

lemma image_failure_text:
  assumes "currentMode s = ImageMode"
    and "image_reply w (trim (userInput s)) (imageAspectRatio s) = Inl e"
  shows "snd (handled w s) = Returned \<and>
     msg_text (last (chatHistory (final (last (snd (sendPrefix (now_user w) s))) (handled w s))))
       = imageFailureText"
  using assms
  by (simp add: handled_def case_prod_beta dispatch_def sendPrefix_facts
      handleImageGeneration_def final_def Let_def modelMessage_def newUserMessage_def)

lemma video_failure_text:
  assumes "currentMode s = VideoMode"
    and "video_reply w (trim (userInput s)) (videoImage (fst (sendPrefix (now_user w) s)) s) = Inl e"
  shows "snd (handled w s) = Returned \<and>
     msg_text (last (chatHistory (final (last (snd (sendPrefix (now_user w) s))) (handled w s))))
       = videoFailureText"
proof -
  let ?um = "fst (sendPrefix (now_user w) s)"
  have "msg_text ?um = trim (userInput s)" by (simp add: sendPrefix_facts newUserMessage_def)
  with assms show ?thesis
    by (simp add: handled_def case_prod_beta dispatch_def sendPrefix_facts(2,3)
        handleVideoGeneration_def final_def Let_def modelMessage_def videoImage_prefix)
qed


text \<open>
  Claim C2. In the second listing, in every mode, when the handler that \<open>sendMessage\<close>
  awaits throws, \<open>sendMessage\<close> still returns, the placeholder carries the generic
  failure text with \<open>isLoading\<close> false, and the global loading flag is false (the chat
  handler itself never throws: the gateway turns a failure into a fragment). In the first
  listing no handler throws: each catches what it awaits, writes its own fixed failure
  text on the placeholder with \<open>isLoading\<close> false, and \<open>sendMessage\<close> then clears the
  global flag.
\<close>

theorem handler_failure_reported:
  "(\<not> sendGuard s \<and> snd (handled2 w s) = Threw e \<longrightarrow>
      snd (sendMessage2 w s) = Returned \<and>
      msg_text (last (chatHistory (final s (sendMessage2 w s)))) = genericFailureText \<and>
      msg_isLoading (last (chatHistory (final s (sendMessage2 w s)))) = Some False \<and>
      \<not> isLoading (final s (sendMessage2 w s))) \<and>
   (currentMode s = ChatMode \<longrightarrow> snd (handled2 w s) = Returned) \<and>
   snd (handled w s) \<noteq> Threw e \<and>
   (\<not> sendGuard s \<and> snd (handled w s) = Returned \<longrightarrow>
      snd (sendMessage w s) = Returned \<and>
      msg_isLoading (last (chatHistory (final s (sendMessage w s)))) = Some False \<and>
      \<not> isLoading (final s (sendMessage w s))) \<and>
   (\<not> sendGuard s \<and> currentMode s = ImageMode \<and>
    image_reply w (trim (userInput s)) (imageAspectRatio s) = Inl e \<longrightarrow>
      snd (sendMessage w s) = Returned \<and>
      msg_text (last (chatHistory (final s (sendMessage w s)))) = imageFailureText) \<and>
   (\<not> sendGuard s \<and> currentMode s = VideoMode \<and>
    video_reply w (trim (userInput s)) (videoImage (fst (sendPrefix (now_user w) s)) s) = Inl e \<longrightarrow>
      snd (sendMessage w s) = Returned \<and>
      msg_text (last (chatHistory (final s (sendMessage w s)))) = videoFailureText)"
proof (intro conjI impI)
  assume a: "\<not> sendGuard s \<and> snd (handled2 w s) = Threw e"
  then have g: "\<not> sendGuard s" and th: "snd (handled2 w s) = Threw e" by simp_all
  note r = sendMessage2_threw [OF g th]
  from r show "snd (sendMessage2 w s) = Returned" by (rule conjunct1)
  from r show "msg_text (last (chatHistory (final s (sendMessage2 w s)))) = genericFailureText"
    by blast
  from r show "msg_isLoading (last (chatHistory (final s (sendMessage2 w s)))) = Some False"
    by blast
  from r show "\<not> isLoading (final s (sendMessage2 w s))" by blast
next
  assume "currentMode s = ChatMode"
  then show "snd (handled2 w s) = Returned"
    by (simp add: handled2_def case_prod_beta dispatch2_def handleChat2_returns
        sendPrefix2_def Let_def removeUploadedFile_def appendMessage_def)
next
  show "snd (handled w s) \<noteq> Threw e" by (rule handled_never_throws)
next
  assume a: "\<not> sendGuard s \<and> snd (handled w s) = Returned"
  then have g: "\<not> sendGuard s" and ret: "snd (handled w s) = Returned" by simp_all
  show "snd (sendMessage w s) = Returned" by (rule sendMessage_returned(1) [OF g ret])
  show "\<not> isLoading (final s (sendMessage w s))" by (rule sendMessage_returned(2) [OF g ret])
  have "snd (dispatch (fst (sendPrefix (now_user w) s)) w (last (snd (sendPrefix (now_user w) s))))
        = Returned"
    using ret by (simp add: handled_def case_prod_beta)
  then have "msg_isLoading (last (chatHistory (final (last (snd (sendPrefix (now_user w) s)))
          (dispatch (fst (sendPrefix (now_user w) s)) w (last (snd (sendPrefix (now_user w) s)))))))
        = Some False"
    by (rule dispatch_settled)
  then show "msg_isLoading (last (chatHistory (final s (sendMessage w s)))) = Some False"
    by (simp add: sendMessage_returned(3) [OF g ret] handled_def case_prod_beta)
next
  assume a: "\<not> sendGuard s \<and> currentMode s = ImageMode \<and>
    image_reply w (trim (userInput s)) (imageAspectRatio s) = Inl e"
  then have g: "\<not> sendGuard s" by simp
  from a have r: "snd (handled w s) = Returned \<and>
     msg_text (last (chatHistory (final (last (snd (sendPrefix (now_user w) s))) (handled w s))))
       = imageFailureText"
    by (intro image_failure_text) simp_all
  then have ret: "snd (handled w s) = Returned" by (rule conjunct1)
  show "snd (sendMessage w s) = Returned" by (rule sendMessage_returned(1) [OF g ret])
  from r show "msg_text (last (chatHistory (final s (sendMessage w s)))) = imageFailureText"
    by (simp add: sendMessage_returned(3) [OF g ret])
next
  assume a: "\<not> sendGuard s \<and> currentMode s = VideoMode \<and>
    video_reply w (trim (userInput s)) (videoImage (fst (sendPrefix (now_user w) s)) s) = Inl e"
  then have g: "\<not> sendGuard s" by simp
  from a have r: "snd (handled w s) = Returned \<and>
     msg_text (last (chatHistory (final (last (snd (sendPrefix (now_user w) s))) (handled w s))))
       = videoFailureText"
    by (intro video_failure_text) simp_all
  then have ret: "snd (handled w s) = Returned" by (rule conjunct1)
  show "snd (sendMessage w s) = Returned" by (rule sendMessage_returned(1) [OF g ret])
  from r show "msg_text (last (chatHistory (final s (sendMessage w s)))) = videoFailureText"
    by (simp add: sendMessage_returned(3) [OF g ret])
qed


theorem handler_failure_reported_witness:
  "msg_text (last (chatHistory (final (typedState\<lparr>currentMode := ImageMode\<rparr>)
      (sendMessage2 quietWorld (typedState\<lparr>currentMode := ImageMode\<rparr>))))) = genericFailureText \<and>
   msg_isLoading (last (chatHistory (final (typedState\<lparr>currentMode := ImageMode\<rparr>)
      (sendMessage2 quietWorld (typedState\<lparr>currentMode := ImageMode\<rparr>))))) = Some False \<and>
   \<not> isLoading (final (typedState\<lparr>currentMode := ImageMode\<rparr>)
      (sendMessage2 quietWorld (typedState\<lparr>currentMode := ImageMode\<rparr>))) \<and>
   msg_text (last (chatHistory (final (typedState\<lparr>currentMode := VideoMode\<rparr>)
      (sendMessage2 quietWorld (typedState\<lparr>currentMode := VideoMode\<rparr>))))) = genericFailureText \<and>
   \<not> isLoading (final (typedState\<lparr>currentMode := VideoMode\<rparr>)
      (sendMessage2 quietWorld (typedState\<lparr>currentMode := VideoMode\<rparr>))) \<and>
   msg_text (last (chatHistory (final (typedState\<lparr>currentMode := ImageMode\<rparr>)
      (sendMessage quietWorld (typedState\<lparr>currentMode := ImageMode\<rparr>))))) = imageFailureText \<and>
   msg_text (last (chatHistory (final (typedState\<lparr>currentMode := VideoMode\<rparr>)
      (sendMessage quietWorld (typedState\<lparr>currentMode := VideoMode\<rparr>))))) = videoFailureText \<and>
   \<not> isLoading (final (typedState\<lparr>currentMode := VideoMode\<rparr>)
      (sendMessage quietWorld (typedState\<lparr>currentMode := VideoMode\<rparr>)))"
proof -
  have g: "\<not> sendGuard (typedState\<lparr>currentMode := m\<rparr>)" for m
    by (simp add: sendGuard_def typedState_def initialState_def trim_def lit_def isWhiteSpace_def)
  have i2: "snd (handled2 quietWorld (typedState\<lparr>currentMode := ImageMode\<rparr>))
            = Threw (JsError (lit ''unavailable''))"
    by (simp add: handled2_def case_prod_beta dispatch2_def sendPrefix2_def Let_def
        handleImageGeneration2_def quietWorld_def noImage_def typedState_def initialState_def
        removeUploadedFile_def appendMessage_def)
  have v2: "snd (handled2 quietWorld (typedState\<lparr>currentMode := VideoMode\<rparr>))
            = Threw (JsError (lit ''unavailable''))"
    by (simp add: handled2_def case_prod_beta dispatch2_def sendPrefix2_def Let_def
        handleVideoGeneration2_def quietWorld_def noVideo_def typedState_def initialState_def
        removeUploadedFile_def appendMessage_def)
  have i1: "image_reply quietWorld (trim (userInput (typedState\<lparr>currentMode := ImageMode\<rparr>)))
              (imageAspectRatio (typedState\<lparr>currentMode := ImageMode\<rparr>))
            = Inl (JsError (lit ''unavailable''))"
    by (simp add: quietWorld_def noImage_def)
  have v1: "video_reply quietWorld (trim (userInput (typedState\<lparr>currentMode := VideoMode\<rparr>)))
              (videoImage (fst (sendPrefix (now_user quietWorld) (typedState\<lparr>currentMode := VideoMode\<rparr>)))
                 (typedState\<lparr>currentMode := VideoMode\<rparr>))
            = Inl (JsError (lit ''unavailable''))"
    by (simp add: quietWorld_def noVideo_def)
  have hv: "snd (handled quietWorld (typedState\<lparr>currentMode := VideoMode\<rparr>)) = Returned"
    by (simp add: handled_def case_prod_beta dispatch_def sendPrefix_facts
        handleVideoGeneration_def quietWorld_def noVideo_def Let_def)
  have image: "msg_text (last (chatHistory (final (typedState\<lparr>currentMode := ImageMode\<rparr>)
      (sendMessage2 quietWorld (typedState\<lparr>currentMode := ImageMode\<rparr>))))) = genericFailureText \<and>
   msg_isLoading (last (chatHistory (final (typedState\<lparr>currentMode := ImageMode\<rparr>)
      (sendMessage2 quietWorld (typedState\<lparr>currentMode := ImageMode\<rparr>))))) = Some False \<and>
   \<not> isLoading (final (typedState\<lparr>currentMode := ImageMode\<rparr>)
      (sendMessage2 quietWorld (typedState\<lparr>currentMode := ImageMode\<rparr>))) \<and>
   msg_text (last (chatHistory (final (typedState\<lparr>currentMode := ImageMode\<rparr>)
      (sendMessage quietWorld (typedState\<lparr>currentMode := ImageMode\<rparr>))))) = imageFailureText"
    using handler_failure_reported [of "typedState\<lparr>currentMode := ImageMode\<rparr>" quietWorld
      "JsError (lit ''unavailable'')"] g [of ImageMode] i2 i1
    by simp
  have video: "msg_text (last (chatHistory (final (typedState\<lparr>currentMode := VideoMode\<rparr>)
      (sendMessage2 quietWorld (typedState\<lparr>currentMode := VideoMode\<rparr>))))) = genericFailureText \<and>
   \<not> isLoading (final (typedState\<lparr>currentMode := VideoMode\<rparr>)
      (sendMessage2 quietWorld (typedState\<lparr>currentMode := VideoMode\<rparr>))) \<and>
   msg_text (last (chatHistory (final (typedState\<lparr>currentMode := VideoMode\<rparr>)
      (sendMessage quietWorld (typedState\<lparr>currentMode := VideoMode\<rparr>))))) = videoFailureText \<and>
   \<not> isLoading (final (typedState\<lparr>currentMode := VideoMode\<rparr>)
      (sendMessage quietWorld (typedState\<lparr>currentMode := VideoMode\<rparr>)))"
    using handler_failure_reported [of "typedState\<lparr>currentMode := VideoMode\<rparr>" quietWorld
      "JsError (lit ''unavailable'')"] g [of VideoMode] v2 v1 hv
    by simp
  from image video show ?thesis by simp
qed


section \<open>One request as a run of events\<close>

text \<open>
  The two descriptions of \<open>sendMessage\<close> agree: run alone, the events of one request
  lead to the state in which \<open>sendMessage\<close> ends, or in which it waits for a job that
  does not finish.
\<close>

lemma run_Nil: "run [] \<sigma> = \<sigma>"
  by (simp add: run_def)

lemma run_Cons: "run (e # events) \<sigma> = run events (step e \<sigma>)"
  by (simp add: run_def)

lemma run_append: "run (xs @ ys) \<sigma> = run ys (run xs \<sigma>)"
  by (simp add: run_def)

lemma step_Resume_last:
  "step (Resume (length fl) r) \<lparr>app = s, flows = fl @ [f]\<rparr> =
     (case resume f r s of
        (s', Some f') \<Rightarrow> \<lparr>app = s', flows = fl @ [f']\<rparr>
      | (s', None) \<Rightarrow> \<lparr>app = s', flows = fl\<rparr>)"
  by (simp add: dropAt_def split: prod.splits option.splits)

lemma run_chat_fragments:
  "run (map (\<lambda>c. Resume (length fl) (NextFragment c)) stream)
     \<lparr>app = s, flows = fl @ [ChatFlow i acc]\<rparr> =
   \<lparr>app = last (s # chatLoop i acc stream s),
    flows = fl @ [ChatFlow i (fst acc @ concat (map textOrEmpty stream),
                             snd acc @ concat (map citations stream))]\<rparr>"
proof (induction stream arbitrary: s acc)
  case Nil
  show ?case by (simp add: run_def)
next
  case (Cons c cs)
  obtain acc' s' where cc: "chatChunk i acc c s = (acc', s')" by (rule prod.exhaust)
  then have acc': "acc' = (fst acc @ textOrEmpty c, snd acc @ citations c)"
    by (auto simp: chatChunk_def Let_def citations_def split: option.splits)
  have "step (Resume (length fl) (NextFragment c)) \<lparr>app = s, flows = fl @ [ChatFlow i acc]\<rparr>
        = \<lparr>app = s', flows = fl @ [ChatFlow i acc']\<rparr>"
    using cc by (simp add: resume_def)
  then have "run (map (\<lambda>c. Resume (length fl) (NextFragment c)) (c # cs))
               \<lparr>app = s, flows = fl @ [ChatFlow i acc]\<rparr>
             = run (map (\<lambda>c. Resume (length fl) (NextFragment c)) cs)
               \<lparr>app = s', flows = fl @ [ChatFlow i acc']\<rparr>"
    by (simp add: run_def)
  also note Cons.IH
  finally show ?case using cc by (simp add: acc' Let_def)
qed

lemma run_polls:
  "run (pollEvents (length fl) operation rs)
     \<lparr>app = fst (afterPoll i operation s), flows = fl @ [the (snd (afterPoll i operation s))]\<rparr> =
   (case pollLoop operation rs of
      None \<Rightarrow> \<lparr>app = s, flows = fl @ [VideoPollFlow i]\<rparr>
    | Some (Inl e) \<Rightarrow> \<lparr>app = videoFailed i s, flows = fl @ [TailFlow]\<rparr>
    | Some (Inr operation') \<Rightarrow>
        \<lparr>app = fst (afterPoll i operation' s),
         flows = fl @ [the (snd (afterPoll i operation' s))]\<rparr>)"
proof (induction rs arbitrary: operation)
  case Nil
  show ?case by (simp add: run_Nil afterPoll_def)
next
  case (Cons r rs)
  show ?case
  proof (cases "op_done operation")
    case True
    then show ?thesis by (simp add: run_Nil)
  next
    case False
    then have here: "afterPoll i operation s = (s, Some (VideoPollFlow i))"
      by (simp add: afterPoll_def)
    show ?thesis
    proof (cases r)
      case (Inl e)
      then show ?thesis using False
        by (simp add: here run_Cons run_Nil step_Resume_last resume_def del: step.simps)
    next
      case (Inr operation')
      obtain s' f' where ap: "afterPoll i operation' s = (s', Some f')"
        by (cases "afterPoll i operation' s")
           (auto simp: afterPoll_def split: if_splits option.splits)
      have "run (pollEvents (length fl) operation (r # rs))
              \<lparr>app = fst (afterPoll i operation s),
               flows = fl @ [the (snd (afterPoll i operation s))]\<rparr>
            = run (pollEvents (length fl) operation' rs)
              \<lparr>app = fst (afterPoll i operation' s),
               flows = fl @ [the (snd (afterPoll i operation' s))]\<rparr>"
        using False Inr
        by (simp add: here run_Cons step_Resume_last resume_def ap del: step.simps)
      also note Cons.IH
      finally show ?thesis using False Inr by simp
    qed
  qed
qed

lemma pollLoop_result_done:
  "pollLoop operation rs = Some (Inr operation') \<Longrightarrow> op_done operation'"
  by (induction operation rs rule: pollLoop.induct) (auto split: if_splits sum.splits)

lemma handler_run:
  "run (handlerEvents (length fl) um w s)
     \<lparr>app = fst (handlerStart um (now_model w) s),
      flows = fl @ [snd (handlerStart um (now_model w) s)]\<rparr> =
   \<lparr>app = final s (dispatch um w s),
    flows = fl @ [if snd (dispatch um w s) = Returned then TailFlow
                  else VideoPollFlow (now_model w + 1)]\<rparr>"
proof (cases "currentMode s")
  case ChatMode
  let ?i = "now_model w + 1"
  let ?s1 = "appendMessage (modelMessage ?i []) s"
  let ?stream = "chatStream um w s"
  let ?loop = "chatLoop ?i ([], []) ?stream ?s1"
  have req: "chatRequest um ?s1 = chatRequest um s"
    by (simp add: chatRequest_def chatArguments_def appendMessage_def)
  have d: "dispatch um w s = (?s1 # ?loop @ [settle ?i (last (?s1 # ?loop))], Returned)"
    using ChatMode
    by (simp add: dispatch_def handleChat_def Let_def chatStream_def req
        del: last.simps chatLoop.simps)
  have "run (handlerEvents (length fl) um w s)
          \<lparr>app = fst (handlerStart um (now_model w) s),
           flows = fl @ [snd (handlerStart um (now_model w) s)]\<rparr>
        = run [Resume (length fl) StreamEnd]
            (run (map (\<lambda>c. Resume (length fl) (NextFragment c)) ?stream)
               \<lparr>app = ?s1, flows = fl @ [ChatFlow ?i ([], [])]\<rparr>)"
    using ChatMode by (simp add: handlerEvents_def handlerStart_def Let_def run_append)
  also have "\<dots> = run [Resume (length fl) StreamEnd]
       \<lparr>app = last (?s1 # ?loop),
        flows = fl @ [ChatFlow ?i (concat (map textOrEmpty ?stream),
                                   concat (map citations ?stream))]\<rparr>"
    by (simp only: run_chat_fragments fst_conv snd_conv append_Nil)
  also have "\<dots> = \<lparr>app = settle ?i (last (?s1 # ?loop)), flows = fl @ [TailFlow]\<rparr>"
    by (simp add: run_Cons run_Nil step_Resume_last resume_def
        del: step.simps last.simps chatHistory_steps)
  finally show ?thesis by (simp add: d final_def)
next
  case ImageMode
  show ?thesis using ImageMode
    by (simp add: handlerEvents_def handlerStart_def Let_def run_Cons run_Nil step_Resume_last
        resume_def dispatch_def handleImageGeneration_def final_def appendMessage_def
        del: step.simps split: sum.splits)
next
  case VideoMode
  let ?i = "now_model w + 1"
  let ?s1 = "appendMessage (modelMessage ?i videoStartText) s"
  let ?s2 = "videoProcessing ?i ?s1"
  let ?started = "video_reply w (msg_text um) (videoImage um s)"
  have d: "dispatch um w s = handleVideoGeneration um w s"
    using VideoMode by (simp add: dispatch_def)
  have hs: "handlerStart um (now_model w) s = (?s1, VideoStartFlow ?i)"
    using VideoMode by (simp add: handlerStart_def Let_def)
  show ?thesis
  proof (cases ?started)
    case (Inl e)
    then show ?thesis using VideoMode
      by (simp add: d hs handlerEvents_def Let_def run_Cons run_Nil step_Resume_last resume_def
          handleVideoGeneration_def final_def del: step.simps)
  next
    case (Inr operation0)
    have first: "run (handlerEvents (length fl) um w s) \<lparr>app = ?s1, flows = fl @ [VideoStartFlow ?i]\<rparr>
      = run (pollEvents (length fl) operation0 (poll_replies w))
          \<lparr>app = fst (afterPoll ?i operation0 ?s2),
           flows = fl @ [the (snd (afterPoll ?i operation0 ?s2))]\<rparr>"
      using VideoMode Inr
      by (simp add: handlerEvents_def Let_def run_Cons step_Resume_last resume_def
          afterPoll_def del: step.simps split: option.splits)
    show ?thesis
    proof (cases "pollLoop operation0 (poll_replies w)")
      case None
      then show ?thesis using Inr
        by (simp add: d hs first run_polls handleVideoGeneration_def Let_def final_def)
    next
      case (Some res)
      show ?thesis
      proof (cases res)
        case (Inl e)
        then show ?thesis using Inr Some
          by (simp add: d hs first run_polls handleVideoGeneration_def Let_def final_def)
      next
        case (Inr operation)
        have finished: "op_done operation"
          using pollLoop_result_done [of operation0 "poll_replies w" operation] Some Inr by simp
        have polled:
          "run (handlerEvents (length fl) um w s)
             \<lparr>app = ?s1, flows = fl @ [VideoStartFlow ?i]\<rparr>
           = \<lparr>app = fst (afterPoll ?i operation ?s2),
              flows = fl @ [the (snd (afterPoll ?i operation ?s2))]\<rparr>"
          using Some Inr by (simp add: first run_polls)
        show ?thesis
          using \<open>?started = Inr operation0\<close> Some Inr finished
          by (cases "truthy (resultUri operation)")
             (simp_all add: d hs polled afterPoll_def handleVideoGeneration_def Let_def final_def)
      qed
    qed
  qed
qed

lemma handlerEvents_prefix:
  "handlerEvents k um w (last (snd (sendPrefix n s))) = handlerEvents k um w s"
proof -
  have "chatRequest um (last (snd (sendPrefix n s))) = chatRequest um s"
    by (simp add: chatRequest_def chatArguments_def sendPrefix_def Let_def appendMessage_def)
  then show ?thesis
    by (cases "currentMode s")
       (simp_all add: handlerEvents_def chatStream_def sendPrefix_facts videoImage_prefix)
qed

lemma sendMessage_run:
  "run (sendEvents (length fl) w s) \<lparr>app = s, flows = fl\<rparr> =
   \<lparr>app = final s (sendMessage w s),
    flows = fl @ (if snd (sendMessage w s) = Returned then []
                  else [VideoPollFlow (now_model w + 1)])\<rparr>"
proof (cases "sendGuard s")
  case True
  then show ?thesis
    by (simp add: sendEvents_def sendMessage_def final_def run_Cons run_Nil)
next
  case False
  let ?um = "fst (sendPrefix (now_user w) s)"
  let ?pre = "snd (sendPrefix (now_user w) s)"
  let ?s3 = "last ?pre"
  let ?h = "handled w s"
  have h: "?h = dispatch ?um w ?s3"
    by (simp add: handled_def case_prod_beta)
  have first: "step (SendMessage (now_user w) (now_model w)) \<lparr>app = s, flows = fl\<rparr>
               = \<lparr>app = fst (handlerStart ?um (now_model w) ?s3),
                  flows = fl @ [snd (handlerStart ?um (now_model w) ?s3)]\<rparr>"
    using False by (simp add: case_prod_beta)
  have mid: "run (handlerEvents (length fl) ?um w s)
               (step (SendMessage (now_user w) (now_model w)) \<lparr>app = s, flows = fl\<rparr>)
             = \<lparr>app = final ?s3 ?h,
                flows = fl @ [if snd ?h = Returned then TailFlow
                              else VideoPollFlow (now_model w + 1)]\<rparr>"
    using handler_run [of fl ?um w ?s3] by (simp only: first h handlerEvents_prefix)
  show ?thesis
  proof (cases "snd ?h = Returned")
    case True
    have "sendMessage w s = (?pre @ fst ?h @ sendTail (final ?s3 ?h), Returned)"
      using False True by (simp add: sendMessage_def case_prod_beta Let_def)
    then have big: "final s (sendMessage w s) = last (sendTail (final ?s3 ?h))"
      "snd (sendMessage w s) = Returned"
      by (simp_all add: final_def sendTail_def Let_def)
    have "run (sendEvents (length fl) w s) \<lparr>app = s, flows = fl\<rparr>
          = step (Resume (length fl) Continue)
              \<lparr>app = final ?s3 ?h, flows = fl @ [TailFlow]\<rparr>"
      using False True by (simp add: sendEvents_def run_Cons run_append run_Nil mid del: step.simps)
    then show ?thesis
      by (simp add: big step_Resume_last resume_def del: step.simps)
  next
    case notReturned: False
    have "sendMessage w s = (?pre @ fst ?h, snd ?h)"
      using False notReturned
      by (simp add: sendMessage_def case_prod_beta Let_def split: outcome.splits)
    then have big: "final s (sendMessage w s) = final ?s3 ?h"
      "snd (sendMessage w s) \<noteq> Returned"
      using notReturned by (simp_all add: final_def sendPrefix_facts)
    have "run (sendEvents (length fl) w s) \<lparr>app = s, flows = fl\<rparr>
          = \<lparr>app = final ?s3 ?h, flows = fl @ [VideoPollFlow (now_model w + 1)]\<rparr>"
      using False notReturned
      by (simp add: sendEvents_def run_Cons run_append run_Nil mid del: step.simps)
    then show ?thesis by (simp add: big)
  qed
qed


section \<open>Properties of interleaved executions\<close>

lemma ids_steps:
  "map msg_id (chatHistory (settle i s)) = map msg_id (chatHistory s)"
  "map msg_id (chatHistory (imageDone i b s)) = map msg_id (chatHistory s)"
  "map msg_id (chatHistory (imageFailed i s)) = map msg_id (chatHistory s)"
  "map msg_id (chatHistory (videoProcessing i s)) = map msg_id (chatHistory s)"
  "map msg_id (chatHistory (videoDownloading i s)) = map msg_id (chatHistory s)"
  "map msg_id (chatHistory (videoFailed i s)) = map msg_id (chatHistory s)"
  "map msg_id (chatHistory (snd (chatChunk i acc c s))) = map msg_id (chatHistory s)"
  "map msg_id (chatHistory (updateById i (\<lambda>m. m\<lparr>msg_isPlayingAudio := flag\<rparr>) s))
     = map msg_id (chatHistory s)"
  unfolding settle_def imageDone_def imageFailed_def videoProcessing_def videoDownloading_def
    videoFailed_def chatChunk_def Let_def snd_conv
  by (rule ids_updateById, simp)+

lemma afterPoll_ids:
  "map msg_id (chatHistory (fst (afterPoll i operation s))) = map msg_id (chatHistory s)"
  by (simp add: afterPoll_def ids_steps del: chatHistory_steps split: option.splits)

lemma sendTail_history: "chatHistory (last (sendTail s)) = chatHistory s"
  by (simp add: sendTail_def Let_def)

lemma resume_ids:
  "map msg_id (chatHistory (fst (resume f r s))) = map msg_id (chatHistory s)"
proof (cases f)
  case (ChatFlow i acc)
  then show ?thesis
    by (cases r) (simp_all add: resume_def case_prod_beta ids_steps del: chatHistory_steps)
next
  case (ImageFlow i)
  then show ?thesis
    by (cases r) (simp_all add: resume_def ids_steps del: chatHistory_steps split: sum.splits)
next
  case (VideoStartFlow i)
  then show ?thesis
    by (cases r)
       (simp_all add: resume_def ids_steps afterPoll_ids del: chatHistory_steps split: sum.splits)
next
  case (VideoPollFlow i)
  then show ?thesis
    by (cases r)
       (simp_all add: resume_def ids_steps afterPoll_ids del: chatHistory_steps split: sum.splits)
next
  case TailFlow
  then show ?thesis by (cases r) (simp_all add: resume_def sendTail_history)
next
  case MicFlow
  then show ?thesis by (cases r) (simp_all add: resume_def split: option.splits)
next
  case EncodeFlow
  then show ?thesis by (cases r) (simp_all add: resume_def)
next
  case (TranscribeFlow t)
  then show ?thesis by (cases r) (simp_all add: resume_def)
next
  case (AudioFlow i)
  then show ?thesis
    by (cases r) (simp_all add: resume_def ids_steps del: chatHistory_updateById)
qed

lemma app_step_Resume:
  "app (step (Resume k r) \<sigma>) =
   (if k < length (flows \<sigma>) then fst (resume (flows \<sigma> ! k) r (app \<sigma>)) else app \<sigma>)"
  by (simp split: prod.splits option.splits)

lemma sendPrefix_ids:
  "map msg_id (chatHistory (last (snd (sendPrefix n s)))) = map msg_id (chatHistory s) @ [n]"
  by (simp add: sendPrefix_def Let_def newUserMessage_def)

lemma handlerStart_ids:
  "map msg_id (chatHistory (fst (handlerStart um n s))) = map msg_id (chatHistory s) @ [n + 1]"
  by (simp add: handlerStart_def Let_def modelMessage_def split: AppMode.splits)

lemma app_step_SendMessage:
  "app (step (SendMessage nu nm) \<sigma>) =
   (if sendGuard (app \<sigma>) then app \<sigma>
    else fst (handlerStart (fst (sendPrefix nu (app \<sigma>))) nm
                (last (snd (sendPrefix nu (app \<sigma>))))))"
  by (simp add: case_prod_beta)

lemma step_ids:
  "map msg_id (chatHistory (app (step e \<sigma>))) =
   (case e of
      SendMessage nu nm \<Rightarrow>
        if sendGuard (app \<sigma>) then map msg_id (chatHistory (app \<sigma>))
        else map msg_id (chatHistory (app \<sigma>)) @ [nu, nm + 1]
    | StartNewConversation \<Rightarrow> []
    | StartNewChat prompt \<Rightarrow> []
    | _ \<Rightarrow> map msg_id (chatHistory (app \<sigma>)))"
proof (cases e)
  case (SendMessage nu nm)
  then show ?thesis
    by (simp add: app_step_SendMessage handlerStart_ids sendPrefix_ids del: step.simps)
next
  case (Resume k r)
  then show ?thesis by (simp add: app_step_Resume resume_ids del: step.simps)
next
  case (PlayAudio message)
  then show ?thesis by (simp add: ids_steps del: chatHistory_updateById)
qed (simp_all add: startNewConversation_def removeUploadedFile_def saveChatHistory_def)


lemma step_sorted:
  assumes sorted: "sorted_wrt (<) (map msg_id (chatHistory (app \<sigma>)))"
    and ahead: "clockAhead e \<sigma>"
  shows "sorted_wrt (<) (map msg_id (chatHistory (app (step e \<sigma>))))"
proof (cases e)
  case (SendMessage nu nm)
  show ?thesis
  proof (cases "sendGuard (app \<sigma>)")
    case True
    with SendMessage sorted show ?thesis by (simp add: step_ids del: step.simps)
  next
    case False
    with ahead SendMessage
    have below: "\<forall>m \<in> set (chatHistory (app \<sigma>)). msg_id m < nu" and le: "nu \<le> nm"
      by (simp_all add: clockAhead_def list_all_iff)
    have "sorted_wrt (<) (map msg_id (chatHistory (app \<sigma>)) @ [nu, nm + 1])"
      using sorted below le by (auto simp: sorted_wrt_append)
    with SendMessage False show ?thesis by (simp add: step_ids del: step.simps)
  qed
qed (use sorted in \<open>simp_all add: step_ids del: step.simps\<close>)

lemma run_sorted:
  "sorted_wrt (<) (map msg_id (chatHistory (app \<sigma>))) \<Longrightarrow> timely events \<sigma> \<Longrightarrow>
   sorted_wrt (<) (map msg_id (chatHistory (app (run events \<sigma>))))"
proof (induction events arbitrary: \<sigma>)
  case Nil
  then show ?case by (simp add: run_def)
next
  case (Cons e events)
  from Cons.prems have "sorted_wrt (<) (map msg_id (chatHistory (app (step e \<sigma>))))"
    by (intro step_sorted) simp_all
  moreover from Cons.prems have "timely events (step e \<sigma>)" by simp
  ultimately have "sorted_wrt (<) (map msg_id (chatHistory (app (run events (step e \<sigma>)))))"
    by (rule Cons.IH)
  then show ?case by (simp add: run_def)
qed

lemma loaded_ids_sorted:
  assumes mono: "\<forall>i j. i \<le> j \<longrightarrow> now i \<le> now j"
  shows "sorted_wrt (<) (map msg_id (map (withId now) (enumerate n xs)))"
proof (induction xs arbitrary: n)
  case Nil
  show ?case by simp
next
  case (Cons x xs)
  have "now n + int n < now (fst p) + int (fst p)" if "p \<in> set (enumerate (Suc n) xs)" for p
  proof -
    from that have "Suc n \<le> fst p" by (auto simp: in_set_enumerate_eq)
    moreover from this mono have "now n \<le> now (fst p)" by simp
    ultimately show ?thesis by simp
  qed
  with Cons.IH [of "Suc n"] show ?case by (auto simp: comp_def)
qed

lemma start_sorted:
  assumes mono: "\<forall>i j. i \<le> j \<longrightarrow> now i \<le> now j"
  shows "sorted_wrt (<) (map msg_id (chatHistory (app (start fileValue entry now))))"
proof (cases entry)
  case None
  then show ?thesis
    by (simp add: start_def constructor_def loadChatHistory_def initialState_def)
next
  case (Some item)
  show ?thesis
  proof (cases item)
    case (Saved parsedHistory)
    have "sorted_wrt (<) (map msg_id (map (withId now) (enumerate 0 parsedHistory)))"
      using mono by (rule loaded_ids_sorted)
    with Some Saved show ?thesis
      by (simp add: start_def constructor_def loadChatHistory_def initialState_def
          del: map_map)
  qed (use Some in \<open>simp_all add: start_def constructor_def loadChatHistory_def initialState_def\<close>)
qed

text \<open>
  Claim C8, amended. The ids are the readings of the clock: a loaded message gets the
  reading plus its position, a sent message the reading, its placeholder the handler's
  reading plus one. So the ids of a conversation are unique and strictly increasing in
  insertion order whenever the clock does not go back while the history is loaded and
  every \<open>sendMessage\<close> that gets past its test reads a clock later than all the ids in the
  history, the handler's reading being no earlier. This holds for every sequence of events
  from the constructor on, whatever else is interleaved.
\<close>

theorem ids_increase_when_clock_ahead:
  "(\<forall>i j. i \<le> j \<longrightarrow> now i \<le> now j) \<and> timely events (start fileValue entry now) \<longrightarrow>
   sorted_wrt (<) (map msg_id (chatHistory (app (run events (start fileValue entry now))))) \<and>
   distinct (map msg_id (chatHistory (app (run events (start fileValue entry now)))))"
proof
  assume a: "(\<forall>i j. i \<le> j \<longrightarrow> now i \<le> now j) \<and> timely events (start fileValue entry now)"
  then have "sorted_wrt (<) (map msg_id (chatHistory (app (start fileValue entry now))))"
    by (intro start_sorted) simp
  with a have s: "sorted_wrt (<) (map msg_id (chatHistory (app (run events (start fileValue entry now)))))"
    by (intro run_sorted) simp_all
  then have "distinct (map msg_id (chatHistory (app (run events (start fileValue entry now)))))"
    by (simp add: strict_sorted_iff)
  with s show "sorted_wrt (<) (map msg_id (chatHistory (app (run events (start fileValue entry now))))) \<and>
   distinct (map msg_id (chatHistory (app (run events (start fileValue entry now)))))" by simp
qed


lemma sample_run_ids:
  "map msg_id (chatHistory (app (run [SetUserInput (lit ''hi''), SendMessage nu nm]
       (start None (Some (Saved savedThree)) fixedClock))))
   = [1000, 1001, 1002, nu, nm + 1]"
  by (simp add: run_def start_def constructor_def loadChatHistory_def initialState_def
      savedThree_def fixedClock_def withId_def sendGuard_def trim_def lit_def isWhiteSpace_def
      sendPrefix_def handlerStart_def Let_def newUserMessage_def modelMessage_def
      enumerate_eq_zip upt_rec [of 0] upt_rec [of 1] upt_rec [of 2])

theorem ids_increase_when_clock_ahead_witness:
  "timely [SetUserInput (lit ''hi''), SendMessage 2000 2001]
     (start None (Some (Saved savedThree)) fixedClock) \<and>
   map msg_id (chatHistory (app (run [SetUserInput (lit ''hi''), SendMessage 2000 2001]
       (start None (Some (Saved savedThree)) fixedClock))))
     = [1000, 1001, 1002, 2000, 2002] \<and>
   sorted_wrt (<) (map msg_id (chatHistory (app (run [SetUserInput (lit ''hi''), SendMessage 2000 2001]
       (start None (Some (Saved savedThree)) fixedClock)))))"
proof -
  have t: "timely [SetUserInput (lit ''hi''), SendMessage 2000 2001]
     (start None (Some (Saved savedThree)) fixedClock)"
    by (simp add: clockAhead_def start_def constructor_def loadChatHistory_def initialState_def
      savedThree_def fixedClock_def withId_def sendGuard_def trim_def lit_def isWhiteSpace_def
      enumerate_eq_zip upt_rec [of 0] upt_rec [of 1] upt_rec [of 2])
  have m: "\<forall>i j. i \<le> j \<longrightarrow> fixedClock i \<le> fixedClock j" by (simp add: fixedClock_def)
  from ids_increase_when_clock_ahead [of fixedClock "[SetUserInput (lit ''hi''), SendMessage 2000 2001]"
      None "Some (Saved savedThree)"] t m
  have "sorted_wrt (<) (map msg_id (chatHistory (app (run [SetUserInput (lit ''hi''), SendMessage 2000 2001]
       (start None (Some (Saved savedThree)) fixedClock)))))" by blast
  with t sample_run_ids [of 2000 2001] show ?thesis by simp
qed

theorem ids_counterexample:
  "map msg_id (chatHistory (app (run [SetUserInput (lit ''hi''), SendMessage 1001 1001]
       (start None (Some (Saved savedThree)) fixedClock))))
     = [1000, 1001, 1002, 1001, 1002] \<and>
   \<not> distinct [1000, 1001, 1002, 1001, 1002 :: int] \<and>
   \<not> sorted_wrt (<) [1000, 1001, 1002, 1001, 1002 :: int]"
  using sample_run_ids [of 1001 1001] by simp

lemma loadingIds_keep:
  "(\<And>m. msg_id (f m) = msg_id m \<and> loading (f m) = loading m) \<Longrightarrow>
   loadingIds (updateById i f s) = loadingIds s"
proof -
  assume a: "\<And>m. msg_id (f m) = msg_id m \<and> loading (f m) = loading m"
  have "map msg_id (filter loading (map (\<lambda>m. if msg_id m = i then f m else m) h))
        = map msg_id (filter loading h)" for h
    by (induction h) (simp_all add: a)
  then show ?thesis by (simp add: loadingIds_def)
qed

lemma loadingIds_clear:
  "(\<And>m. msg_id (f m) = msg_id m \<and> \<not> loading (f m)) \<Longrightarrow>
   loadingIds (updateById i f s) = filter (\<lambda>x. x \<noteq> i) (loadingIds s)"
proof -
  assume a: "\<And>m. msg_id (f m) = msg_id m \<and> \<not> loading (f m)"
  have "map msg_id (filter loading (map (\<lambda>m. if msg_id m = i then f m else m) h))
        = filter (\<lambda>x. x \<noteq> i) (map msg_id (filter loading h))" for h
    by (induction h) (simp_all add: a)
  then show ?thesis by (simp add: loadingIds_def)
qed

lemma loading_simps [simp]:
  "loading (m\<lparr>msg_text := t\<rparr>) = loading m"
  "loading (m\<lparr>msg_groundingChunks := g\<rparr>) = loading m"
  "loading (m\<lparr>msg_image := a\<rparr>) = loading m"
  "loading (m\<lparr>msg_video := a\<rparr>) = loading m"
  "loading (m\<lparr>msg_isPlayingAudio := p\<rparr>) = loading m"
  "loading (m\<lparr>msg_isLoading := Some False\<rparr>) = False"
  by (simp_all add: loading_def)

lemma loadingIds_steps:
  "loadingIds (settle i s) = filter (\<lambda>x. x \<noteq> i) (loadingIds s)"
  "loadingIds (imageDone i b s) = filter (\<lambda>x. x \<noteq> i) (loadingIds s)"
  "loadingIds (imageFailed i s) = filter (\<lambda>x. x \<noteq> i) (loadingIds s)"
  "loadingIds (videoFailed i s) = filter (\<lambda>x. x \<noteq> i) (loadingIds s)"
  unfolding settle_def imageDone_def imageFailed_def videoFailed_def Let_def
  by (rule loadingIds_clear, simp)+

lemma loadingIds_steps_keep:
  "loadingIds (videoProcessing i s) = loadingIds s"
  "loadingIds (videoDownloading i s) = loadingIds s"
  "loadingIds (snd (chatChunk i acc c s)) = loadingIds s"
  "loadingIds (updateById i (\<lambda>m. m\<lparr>msg_isPlayingAudio := flag\<rparr>) s) = loadingIds s"
  unfolding videoProcessing_def videoDownloading_def chatChunk_def Let_def snd_conv
  by (rule loadingIds_keep, simp)+

lemma loadingIds_other [simp]:
  "loadingIds (s\<lparr>isLoading := b\<rparr>) = loadingIds s"
  "loadingIds (s\<lparr>userInput := t\<rparr>) = loadingIds s"
  "loadingIds (s\<lparr>isRecording := b\<rparr>) = loadingIds s"
  "loadingIds (s\<lparr>micError := e\<rparr>) = loadingIds s"
  "loadingIds (s\<lparr>currentMode := m\<rparr>) = loadingIds s"
  "loadingIds (s\<lparr>chatModel := c\<rparr>) = loadingIds s"
  "loadingIds (s\<lparr>useWebSearch := b\<rparr>) = loadingIds s"
  "loadingIds (s\<lparr>imageAspectRatio := r\<rparr>) = loadingIds s"
  "loadingIds (s\<lparr>fileInputValue := v\<rparr>) = loadingIds s"
  "loadingIds (s\<lparr>uploadedFile := u\<rparr>) = loadingIds s"
  "loadingIds (s\<lparr>localStorage := l\<rparr>) = loadingIds s"
  "loadingIds (removeUploadedFile s) = loadingIds s"
  "loadingIds (saveChatHistory b s) = loadingIds s"
  "loadingIds (startNewConversation s) = []"
  "loadingIds (last (sendTail s)) = loadingIds s"
  by (simp_all add: loadingIds_def removeUploadedFile_def saveChatHistory_def
      startNewConversation_def sendTail_def Let_def)

lemma filter_subset_remove:
  "mset xs \<subseteq># mset [i] + B \<Longrightarrow> mset (filter (\<lambda>x. x \<noteq> i) xs) \<subseteq># B"
proof -
  assume a: "mset xs \<subseteq># mset [i] + B"
  show ?thesis
  proof (rule mset_subset_eqI)
    fix x
    from a have c: "count (mset xs) x \<le> count (mset [i] + B) x" by (rule mset_subset_eq_count)
    show "count (mset (filter (\<lambda>x. x \<noteq> i) xs)) x \<le> count B x"
    proof (cases "x = i")
      case True
      then show ?thesis by simp
    next
      case False
      with c show ?thesis by simp
    qed
  qed
qed


lemma flows_split:
  "k < length fl \<Longrightarrow>
   mset (concat (map g fl)) = mset (g (fl ! k)) + mset (concat (map g (dropAt k fl)))"
proof -
  assume k: "k < length fl"
  then have "fl = take k fl @ fl ! k # drop (Suc k) fl" by (rule id_take_nth_drop)
  then have "mset (concat (map g fl)) = mset (concat (map g (take k fl @ fl ! k # drop (Suc k) fl)))"
    by simp
  then show ?thesis by (simp add: dropAt_def)
qed

lemma flows_update:
  "k < length fl \<Longrightarrow>
   mset (concat (map g (fl[k := f']))) = mset (g f') + mset (concat (map g (dropAt k fl)))"
  by (simp add: upd_conv_take_nth_drop dropAt_def)

lemma afterPoll_inv:
  assumes "mset (loadingIds s) \<subseteq># mset [i] + B"
  shows "mset (loadingIds (fst (afterPoll i operation s)))
         \<subseteq># (case snd (afterPoll i operation s) of None \<Rightarrow> {#}
                | Some f' \<Rightarrow> mset (placeholderOf f')) + B"
proof (cases "op_done operation")
  case False
  with assms show ?thesis by (simp add: afterPoll_def placeholderOf_def)
next
  case True
  show ?thesis
  proof (cases "truthy (resultUri operation)")
    case None
    with True filter_subset_remove [OF assms] show ?thesis
      by (simp add: afterPoll_def placeholderOf_def loadingIds_steps)
  next
    case (Some u)
    with True filter_subset_remove [OF assms] show ?thesis
      by (simp add: afterPoll_def placeholderOf_def loadingIds_steps loadingIds_steps_keep)
  qed
qed

lemma resume_inv:
  assumes a: "mset (loadingIds s) \<subseteq># mset (placeholderOf f) + B"
  shows "mset (loadingIds (fst (resume f r s)))
         \<subseteq># (case snd (resume f r s) of None \<Rightarrow> {#} | Some f' \<Rightarrow> mset (placeholderOf f')) + B"
proof (cases f)
  case (ChatFlow i acc)
  with a have b: "mset (loadingIds s) \<subseteq># mset [i] + B" by (simp add: placeholderOf_def)
  from ChatFlow a b filter_subset_remove [OF b] show ?thesis
    by (cases r)
       (simp_all add: resume_def case_prod_beta placeholderOf_def loadingIds_steps
          loadingIds_steps_keep)
next
  case (ImageFlow i)
  with a have b: "mset (loadingIds s) \<subseteq># mset [i] + B" by (simp add: placeholderOf_def)
  from ImageFlow a b filter_subset_remove [OF b] show ?thesis
    by (cases r)
       (simp_all add: resume_def placeholderOf_def loadingIds_steps split: sum.splits)
next
  case (VideoStartFlow i)
  with a have b: "mset (loadingIds s) \<subseteq># mset [i] + B" by (simp add: placeholderOf_def)
  then have c: "mset (loadingIds (videoProcessing i s)) \<subseteq># mset [i] + B"
    by (simp add: loadingIds_steps_keep)
  from VideoStartFlow a b filter_subset_remove [OF b] afterPoll_inv [OF c] show ?thesis
    by (cases r)
       (simp_all add: resume_def placeholderOf_def loadingIds_steps split: sum.splits)
next
  case (VideoPollFlow i)
  with a have b: "mset (loadingIds s) \<subseteq># mset [i] + B" by (simp add: placeholderOf_def)
  from VideoPollFlow a b filter_subset_remove [OF b] afterPoll_inv [OF b] show ?thesis
    by (cases r)
       (simp_all add: resume_def placeholderOf_def loadingIds_steps split: sum.splits)
next
  case TailFlow
  with a show ?thesis by (cases r) (simp_all add: resume_def placeholderOf_def)
next
  case MicFlow
  with a show ?thesis
    by (cases r) (simp_all add: resume_def placeholderOf_def split: option.splits)
next
  case EncodeFlow
  with a show ?thesis by (cases r) (simp_all add: resume_def placeholderOf_def)
next
  case (TranscribeFlow t)
  with a show ?thesis by (cases r) (simp_all add: resume_def placeholderOf_def)
next
  case (AudioFlow i)
  with a show ?thesis
    by (cases r) (simp_all add: resume_def placeholderOf_def loadingIds_steps_keep)
qed


lemma loadingIds_sendPrefix: "loadingIds (last (snd (sendPrefix n s))) = loadingIds s"
  by (simp add: sendPrefix_def Let_def loadingIds_def newUserMessage_def loading_def)

lemma loadingIds_handlerStart:
  "loadingIds (fst (handlerStart um n s)) = loadingIds s @ placeholderOf (snd (handlerStart um n s))"
  by (simp add: handlerStart_def Let_def loadingIds_def modelMessage_def loading_def
      placeholderOf_def split: AppMode.splits)

lemma step_SendMessage:
  "\<not> sendGuard (app \<sigma>) \<Longrightarrow>
   step (SendMessage nu nm) \<sigma> =
   \<lparr>app = fst (handlerStart (fst (sendPrefix nu (app \<sigma>))) nm (last (snd (sendPrefix nu (app \<sigma>))))),
    flows = flows \<sigma> @
      [snd (handlerStart (fst (sendPrefix nu (app \<sigma>))) nm (last (snd (sendPrefix nu (app \<sigma>)))))]\<rparr>"
  by (simp add: case_prod_beta)

lemma step_inv:
  assumes inv: "mset (loadingIds (app \<sigma>)) \<subseteq># mset (concat (map placeholderOf (flows \<sigma>)))"
  shows "mset (loadingIds (app (step e \<sigma>)))
         \<subseteq># mset (concat (map placeholderOf (flows (step e \<sigma>))))"
proof (cases e)
  case (SendMessage nu nm)
  show ?thesis
  proof (cases "sendGuard (app \<sigma>)")
    case True
    with SendMessage inv show ?thesis by simp
  next
    case False
    with SendMessage inv show ?thesis
      by (simp add: step_SendMessage loadingIds_handlerStart loadingIds_sendPrefix
          del: step.simps)
  qed
next
  case (Resume k r)
  show ?thesis
  proof (cases "k < length (flows \<sigma>)")
    case False
    with Resume inv show ?thesis by simp
  next
    case True
    let ?f = "flows \<sigma> ! k"
    let ?B = "mset (concat (map placeholderOf (dropAt k (flows \<sigma>))))"
    from inv have "mset (loadingIds (app \<sigma>)) \<subseteq># mset (placeholderOf ?f) + ?B"
      by (simp only: flows_split [OF True])
    then have r: "mset (loadingIds (fst (resume ?f r (app \<sigma>))))
         \<subseteq># (case snd (resume ?f r (app \<sigma>)) of None \<Rightarrow> {#}
                | Some f' \<Rightarrow> mset (placeholderOf f')) + ?B"
      by (rule resume_inv)
    show ?thesis
    proof (cases "snd (resume ?f r (app \<sigma>))")
      case None
      with r Resume True show ?thesis by (simp add: case_prod_beta)
    next
      case (Some f')
      with r Resume True show ?thesis by (simp add: case_prod_beta flows_update)
    qed
  qed
next
  case (PlayAudio message)
  with inv show ?thesis by (simp add: loadingIds_steps_keep placeholderOf_def)
qed (use inv in \<open>simp_all add: placeholderOf_def\<close>)

lemma run_inv:
  "mset (loadingIds (app \<sigma>)) \<subseteq># mset (concat (map placeholderOf (flows \<sigma>))) \<Longrightarrow>
   mset (loadingIds (app (run events \<sigma>)))
     \<subseteq># mset (concat (map placeholderOf (flows (run events \<sigma>))))"
proof (induction events arbitrary: \<sigma>)
  case Nil
  then show ?case by (simp add: run_def)
next
  case (Cons e events)
  from Cons.prems have "mset (loadingIds (app (step e \<sigma>)))
         \<subseteq># mset (concat (map placeholderOf (flows (step e \<sigma>))))"
    by (rule step_inv)
  then have "mset (loadingIds (app (run events (step e \<sigma>))))
     \<subseteq># mset (concat (map placeholderOf (flows (run events (step e \<sigma>)))))"
    by (rule Cons.IH)
  then show ?case by (simp add: run_def)
qed

lemma start_inv: "loadingIds (app (start fileValue entry now)) = []"
proof -
  have "filter loading (map (withId now) xs) = []" for xs
    by (induction xs) (simp_all add: loading_def)
  then show ?thesis
    by (simp add: start_def constructor_def loadChatHistory_def initialState_def loadingIds_def
        split: option.splits stored.splits)
qed

lemma placeholders_bound: "length (concat (map placeholderOf fl)) \<le> length (filter sendFlow fl)"
proof (induction fl)
  case Nil
  show ?case by simp
next
  case (Cons f fl)
  have "length (placeholderOf f) \<le> (if sendFlow f then 1 else 0)"
    by (cases f) (simp_all add: placeholderOf_def sendFlow_def)
  with Cons show ?case by (auto split: if_splits)
qed

lemma loading_bound:
  "length (filter loading (chatHistory (app (run events (start fileValue entry now)))))
   \<le> length (filter sendFlow (flows (run events (start fileValue entry now))))"
proof -
  let ?\<sigma> = "run events (start fileValue entry now)"
  have "mset (loadingIds (app ?\<sigma>)) \<subseteq># mset (concat (map placeholderOf (flows ?\<sigma>)))"
    by (rule run_inv) (simp add: start_inv)
  then have "size (mset (loadingIds (app ?\<sigma>))) \<le> size (mset (concat (map placeholderOf (flows ?\<sigma>))))"
    by (rule size_mset_mono)
  then have "length (loadingIds (app ?\<sigma>)) \<le> length (concat (map placeholderOf (flows ?\<sigma>)))"
    by simp
  also have "\<dots> \<le> length (filter sendFlow (flows ?\<sigma>))" by (rule placeholders_bound)
  finally show ?thesis by (simp add: loadingIds_def)
qed


lemma forward_refl [simp]: "forward m m"
  by (simp add: forward_def)

lemma forward_trans: "forward a b \<Longrightarrow> forward b c \<Longrightarrow> forward a c"
  by (simp add: forward_def)

lemma noReload_refl: "noReload h h"
  by (simp add: noReload_def list_all2_refl)

lemma noReload_append: "noReload h (h @ xs)"
  by (simp add: noReload_def list_all2_refl)

lemma noReload_Nil: "noReload h []"
  by (simp add: noReload_def)

lemma noReload_map: "(\<And>m. forward m (g m)) \<Longrightarrow> noReload h (map g h)"
  by (simp add: noReload_def list_all2_map2 list_all2_refl)

lemma noReload_updateById:
  "(\<And>m. msg_id (f m) = msg_id m \<and> (loading (f m) \<longrightarrow> loading m)) \<Longrightarrow>
   noReload (chatHistory s) (chatHistory (updateById i f s))"
  unfolding chatHistory_updateById by (rule noReload_map) (simp add: forward_def)

lemma noReload_trans_same:
  assumes 1: "noReload h h'" and len: "length h' = length h" and 2: "noReload h' h''"
  shows "noReload h h''"
proof (cases "h'' = []")
  case True
  then show ?thesis by (simp add: noReload_def)
next
  case False
  with 2 have b: "list_all2 forward h' (take (length h') h'')" by (simp add: noReload_def)
  have a: "list_all2 forward h h'"
  proof (cases "h' = []")
    case True
    with len show ?thesis by simp
  next
    case False
    with 1 len show ?thesis by (simp add: noReload_def)
  qed
  have "list_all2 forward h (take (length h') h'')"
    using a b by (rule list_all2_trans [rotated]) (rule forward_trans)
  with len show ?thesis by (simp add: noReload_def)
qed

lemma noReload_steps:
  "noReload (chatHistory s) (chatHistory (settle i s))"
  "noReload (chatHistory s) (chatHistory (imageDone i b s))"
  "noReload (chatHistory s) (chatHistory (imageFailed i s))"
  "noReload (chatHistory s) (chatHistory (videoProcessing i s))"
  "noReload (chatHistory s) (chatHistory (videoDownloading i s))"
  "noReload (chatHistory s) (chatHistory (videoFailed i s))"
  "noReload (chatHistory s) (chatHistory (snd (chatChunk i acc c s)))"
  "noReload (chatHistory s) (chatHistory (updateById i (\<lambda>m. m\<lparr>msg_isPlayingAudio := flag\<rparr>) s))"
  unfolding settle_def imageDone_def imageFailed_def videoProcessing_def videoDownloading_def
    videoFailed_def chatChunk_def Let_def snd_conv
  by (rule noReload_updateById, simp)+

lemma afterPoll_noReload:
  "noReload (chatHistory s) (chatHistory (fst (afterPoll i operation s)))"
proof -
  have "noReload (chatHistory s) (chatHistory (videoFailed i (videoDownloading i s)))"
  proof (rule noReload_trans_same)
    show "noReload (chatHistory s) (chatHistory (videoDownloading i s))" by (rule noReload_steps)
    show "length (chatHistory (videoDownloading i s)) = length (chatHistory s)" by simp
    show "noReload (chatHistory (videoDownloading i s))
            (chatHistory (videoFailed i (videoDownloading i s)))"
      by (rule noReload_steps)
  qed
  then show ?thesis
    by (simp add: afterPoll_def noReload_steps noReload_refl del: chatHistory_steps
        split: option.splits)
qed

lemma resume_noReload:
  "noReload (chatHistory s) (chatHistory (fst (resume f r s)))"
proof (cases f)
  case (ChatFlow i acc)
  then show ?thesis
    by (cases r)
       (simp_all add: resume_def case_prod_beta noReload_steps noReload_refl
          del: chatHistory_steps)
next
  case (ImageFlow i)
  then show ?thesis
    by (cases r)
       (simp_all add: resume_def noReload_steps noReload_refl del: chatHistory_steps
          split: sum.splits)
next
  case (VideoStartFlow i)
  have "noReload (chatHistory s) (chatHistory (fst (afterPoll i operation (videoProcessing i s))))"
    for operation
  proof (rule noReload_trans_same)
    show "noReload (chatHistory s) (chatHistory (videoProcessing i s))" by (rule noReload_steps)
    show "length (chatHistory (videoProcessing i s)) = length (chatHistory s)" by simp
    show "noReload (chatHistory (videoProcessing i s))
            (chatHistory (fst (afterPoll i operation (videoProcessing i s))))"
      by (rule afterPoll_noReload)
  qed
  with VideoStartFlow show ?thesis
    by (cases r)
       (simp_all add: resume_def noReload_steps noReload_refl del: chatHistory_steps
          split: sum.splits)
next
  case (VideoPollFlow i)
  then show ?thesis
    by (cases r)
       (simp_all add: resume_def noReload_steps noReload_refl afterPoll_noReload
          del: chatHistory_steps split: sum.splits)
next
  case TailFlow
  then show ?thesis by (cases r) (simp_all add: resume_def sendTail_history noReload_refl)
next
  case MicFlow
  then show ?thesis by (cases r) (simp_all add: resume_def noReload_refl split: option.splits)
next
  case EncodeFlow
  then show ?thesis by (cases r) (simp_all add: resume_def noReload_refl)
next
  case (TranscribeFlow t)
  then show ?thesis by (cases r) (simp_all add: resume_def noReload_refl)
next
  case (AudioFlow i)
  then show ?thesis
    by (cases r)
       (simp_all add: resume_def noReload_steps noReload_refl del: chatHistory_updateById)
qed

lemma sendStart_history:
  "\<exists>xs. chatHistory (fst (handlerStart um nm (last (snd (sendPrefix nu s))))) = chatHistory s @ xs"
  by (simp add: handlerStart_def sendPrefix_def Let_def split: AppMode.splits)

lemma step_noReload: "noReload (chatHistory (app \<sigma>)) (chatHistory (app (step e \<sigma>)))"
proof (cases e)
  case (SendMessage nu nm)
  obtain xs where "chatHistory (fst (handlerStart (fst (sendPrefix nu (app \<sigma>))) nm
      (last (snd (sendPrefix nu (app \<sigma>)))))) = chatHistory (app \<sigma>) @ xs"
    using sendStart_history by blast
  with SendMessage show ?thesis
    by (simp add: app_step_SendMessage noReload_refl noReload_append del: step.simps)
next
  case (Resume k r)
  then show ?thesis
    by (simp add: app_step_Resume resume_noReload noReload_refl del: step.simps)
next
  case (PlayAudio message)
  then show ?thesis by (simp add: noReload_steps noReload_refl del: chatHistory_updateById)
qed (simp_all add: noReload_refl noReload_Nil startNewConversation_def removeUploadedFile_def
      saveChatHistory_def)


text \<open>
  Claim C7. In every state that a sequence of events reaches from the constructor, the
  messages with \<open>isLoading = true\<close> are at most as many as the \<open>sendMessage\<close> requests in
  flight: at most one per request. And no event takes a message back: after any event,
  in any state, either the conversation has been cleared or every message is still in its
  place, with its id, and is loading only if it was loading before; a message is loading
  from its creation on, through the streaming, until it is settled, and never again.
\<close>

theorem one_loading_per_request_forward_only:
  "length (filter loading (chatHistory (app (run events (start fileValue entry now)))))
     \<le> length (filter sendFlow (flows (run events (start fileValue entry now)))) \<and>
   noReload (chatHistory (app \<sigma>)) (chatHistory (app (step e \<sigma>)))"
  using loading_bound [of events fileValue entry now] step_noReload [of \<sigma> e] by (rule conjI)

lemma sample_run_flags:
  "map loading (chatHistory (app (run
       [SetUserInput (lit ''hi''), SendMessage 2000 2001, Resume 0 (NextFragment sampleFragment)]
       (start None None fixedClock)))) = [False, True] \<and>
   flows (run
       [SetUserInput (lit ''hi''), SendMessage 2000 2001, Resume 0 (NextFragment sampleFragment)]
       (start None None fixedClock)) = [ChatFlow 2002 (lit ''a'', [sampleCitation])] \<and>
   map loading (chatHistory (app (step (Resume 0 StreamEnd) (run
       [SetUserInput (lit ''hi''), SendMessage 2000 2001, Resume 0 (NextFragment sampleFragment)]
       (start None None fixedClock))))) = [False, False]"
  by (simp add: run_def start_def constructor_def loadChatHistory_def initialState_def
      sendGuard_def trim_def lit_def isWhiteSpace_def
      sendPrefix_def handlerStart_def Let_def newUserMessage_def modelMessage_def
      resume_def chatChunk_def textOrEmpty_def sampleFragment_def loading_def
      attachmentOfKind_def)

theorem one_loading_per_request_forward_only_witness:
  "length (filter loading (chatHistory (app (run
       [SetUserInput (lit ''hi''), SendMessage 2000 2001, Resume 0 (NextFragment sampleFragment)]
       (start None None fixedClock))))) = 1 \<and>
   length (filter sendFlow (flows (run
       [SetUserInput (lit ''hi''), SendMessage 2000 2001, Resume 0 (NextFragment sampleFragment)]
       (start None None fixedClock)))) = 1 \<and>
   map loading (chatHistory (app (step (Resume 0 StreamEnd) (run
       [SetUserInput (lit ''hi''), SendMessage 2000 2001, Resume 0 (NextFragment sampleFragment)]
       (start None None fixedClock))))) = [False, False] \<and>
   noReload
     (chatHistory (app (run
       [SetUserInput (lit ''hi''), SendMessage 2000 2001, Resume 0 (NextFragment sampleFragment)]
       (start None None fixedClock))))
     (chatHistory (app (step (Resume 0 StreamEnd) (run
       [SetUserInput (lit ''hi''), SendMessage 2000 2001, Resume 0 (NextFragment sampleFragment)]
       (start None None fixedClock)))))"
proof -
  let ?\<sigma> = "run
       [SetUserInput (lit ''hi''), SendMessage 2000 2001, Resume 0 (NextFragment sampleFragment)]
       (start None None fixedClock)"
  have f: "map loading (chatHistory (app ?\<sigma>)) = [False, True]"
    and fl: "flows ?\<sigma> = [ChatFlow 2002 (lit ''a'', [sampleCitation])]"
    and g: "map loading (chatHistory (app (step (Resume 0 StreamEnd) ?\<sigma>))) = [False, False]"
    using sample_run_flags by blast+
  have "length (filter loading (chatHistory (app ?\<sigma>)))
        = length (filter (\<lambda>b. b) (map loading (chatHistory (app ?\<sigma>))))"
    by (simp add: filter_map comp_def)
  then have one: "length (filter loading (chatHistory (app ?\<sigma>))) = 1" by (simp only: f) simp
  have two: "length (filter sendFlow (flows ?\<sigma>)) = 1" by (simp only: fl) (simp add: sendFlow_def)
  from one_loading_per_request_forward_only
     [of "[SetUserInput (lit ''hi''), SendMessage 2000 2001, Resume 0 (NextFragment sampleFragment)]"
         None None fixedClock ?\<sigma> "Resume 0 StreamEnd"]
  have "noReload (chatHistory (app ?\<sigma>)) (chatHistory (app (step (Resume 0 StreamEnd) ?\<sigma>)))"
    by (rule conjunct2)
  with one two g show ?thesis by (intro conjI)
qed

end
